theory Spec2Isabelle
  imports Main "HOL-Library.Sublist"
begin

section \<open>Strings\<close>

text \<open>
  The plugin is TypeScript; its strings are sequences of UTF-16 code units. They are
  modelled as \<^typ>\<open>string\<close>, each \<^typ>\<open>char\<close> standing for one code unit below 256
  (the Latin-1 range). On that range the white space of \<^verbatim>\<open>String.prototype.trim\<close> and
  of the regular-expression class \<^verbatim>\<open>\s\<close> is the same set: TAB, LF, VT, FF, CR, SPACE
  and NO-BREAK SPACE.
\<close>

definition is_ws :: "char \<Rightarrow> bool" where
  "is_ws c = (c \<in> set [CHR 0x09, CHR 0x0A, CHR 0x0B, CHR 0x0C, CHR 0x0D, CHR 0x20, CHR 0xA0])"

definition trim :: "string \<Rightarrow> string" where
  "trim s = rev (dropWhile is_ws (rev (dropWhile is_ws s)))"

text \<open>
  \<^verbatim>\<open>toLowerCase\<close> on the Latin-1 range maps A-Z and the accented capitals
  U+00C0..U+00DE (without the multiplication sign U+00D7) to the code unit 32 above, and
  leaves every other code unit alone. The table is written out so that it evaluates.
\<close>

definition upper_chars :: "char list" where
  "upper_chars = ''ABCDEFGHIJKLMNOPQRSTUVWXYZ'' @
     [CHR 0xC0, CHR 0xC1, CHR 0xC2, CHR 0xC3, CHR 0xC4, CHR 0xC5, CHR 0xC6, CHR 0xC7,
      CHR 0xC8, CHR 0xC9, CHR 0xCA, CHR 0xCB, CHR 0xCC, CHR 0xCD, CHR 0xCE, CHR 0xCF,
      CHR 0xD0, CHR 0xD1, CHR 0xD2, CHR 0xD3, CHR 0xD4, CHR 0xD5, CHR 0xD6,
      CHR 0xD8, CHR 0xD9, CHR 0xDA, CHR 0xDB, CHR 0xDC, CHR 0xDD, CHR 0xDE]"

definition lower_chars :: "char list" where
  "lower_chars = ''abcdefghijklmnopqrstuvwxyz'' @
     [CHR 0xE0, CHR 0xE1, CHR 0xE2, CHR 0xE3, CHR 0xE4, CHR 0xE5, CHR 0xE6, CHR 0xE7,
      CHR 0xE8, CHR 0xE9, CHR 0xEA, CHR 0xEB, CHR 0xEC, CHR 0xED, CHR 0xEE, CHR 0xEF,
      CHR 0xF0, CHR 0xF1, CHR 0xF2, CHR 0xF3, CHR 0xF4, CHR 0xF5, CHR 0xF6,
      CHR 0xF8, CHR 0xF9, CHR 0xFA, CHR 0xFB, CHR 0xFC, CHR 0xFD, CHR 0xFE]"

definition toLowerCase_char :: "char \<Rightarrow> char" where
  "toLowerCase_char c =
     (case map_of (zip upper_chars lower_chars) c of Some d \<Rightarrow> d | None \<Rightarrow> c)"

definition toLowerCase :: "string \<Rightarrow> string" where
  "toLowerCase s = map toLowerCase_char s"

definition startsWith :: "string \<Rightarrow> string \<Rightarrow> bool" where
  "startsWith s p = prefix p s"

text \<open>\<^verbatim>\<open>s.includes(needle)\<close> on strings: \<open>needle\<close> occurs as a contiguous block.\<close>

fun str_includes :: "string \<Rightarrow> string \<Rightarrow> bool" where
  "str_includes [] needle = (needle = [])"
| "str_includes (c # cs) needle = (prefix needle (c # cs) \<or> str_includes cs needle)"

subsection \<open>ensureGlobalPrefix\<close>

text \<open>
  \<^verbatim>\<open>
  const ensureGlobalPrefix = (name: string): string => {
    const trimmed = name.trim();
    const lower = trimmed.toLowerCase();
    if (lower.startsWith("global")) { return trimmed; }
    return `Global ${trimmed}`;
  };
  \<close>
\<close>

definition ensureGlobalPrefix :: "string \<Rightarrow> string" where
  "ensureGlobalPrefix name =
     (let trimmed = trim name; lower = toLowerCase trimmed in
      if startsWith lower ''global'' then trimmed else ''Global '' @ trimmed)"

subsection \<open>normalizeHttpqlQuery\<close>

text \<open>
  \<^verbatim>\<open>
  const normalizeHttpqlQuery = (query: string): string => {
    if (query.trim().length === 0) { return ""; }
    let normalized = query.trim();
    normalized = normalized.replace(/~([^\s])/g, "~ $1");
    normalized = normalized.replace(/([^\s])~/g, "$1 ~");
    return normalized;
  };
  \<close>
  A global \<^verbatim>\<open>replace\<close> scans from the left; every match is two code units long, and the
  scan resumes behind a match, so matches never overlap. \<open>replace_tilde_after\<close> is the
  first replacement (a tilde followed by a non-space), \<open>replace_tilde_before\<close> the second
  (a non-space followed by a tilde).
\<close>

fun replace_tilde_after :: "string \<Rightarrow> string" where
  "replace_tilde_after (c # d # rest) =
     (if c = CHR ''~'' \<and> \<not> is_ws d then c # CHR '' '' # d # replace_tilde_after rest
      else c # replace_tilde_after (d # rest))"
| "replace_tilde_after s = s"

fun replace_tilde_before :: "string \<Rightarrow> string" where
  "replace_tilde_before (c # d # rest) =
     (if \<not> is_ws c \<and> d = CHR ''~'' then c # CHR '' '' # d # replace_tilde_before rest
      else c # replace_tilde_before (d # rest))"
| "replace_tilde_before s = s"

definition normalizeHttpqlQuery :: "string \<Rightarrow> string" where
  "normalizeHttpqlQuery query =
     (if length (trim query) = 0 then ''''
      else replace_tilde_before (replace_tilde_after (trim query)))"

section \<open>JavaScript values\<close>

text \<open>
  Imported files and host rules reach the code as untyped JSON
  (\<^verbatim>\<open>Record<string, unknown>\<close>), and \<open>toSection\<close> builds object literals. Both are
  values of \<open>jsval\<close>; an object is the list of its own properties, the first binding of a
  key being the property. Numbers are restricted to integers.
\<close>

datatype jsval =
    JUndefined
  | JNull
  | JBool bool
  | JNum int
  | JStr string
  | JArr "jsval list"
  | JObj "(string \<times> jsval) list"

text \<open>\<^verbatim>\<open>if (v)\<close>, \<^verbatim>\<open>!v\<close>, \<^verbatim>\<open>a || b\<close>: JavaScript truthiness.\<close>

fun truthy :: "jsval \<Rightarrow> bool" where
  "truthy JUndefined = False"
| "truthy JNull = False"
| "truthy (JBool b) = b"
| "truthy (JNum n) = (n \<noteq> 0)"
| "truthy (JStr s) = (s \<noteq> [])"
| "truthy (JArr xs) = True"
| "truthy (JObj kvs) = True"

text \<open>\<^verbatim>\<open>typeof v === "object"\<close> holds of objects, arrays and \<^verbatim>\<open>null\<close>.\<close>

fun is_object :: "jsval \<Rightarrow> bool" where
  "is_object JNull = True"
| "is_object (JArr xs) = True"
| "is_object (JObj kvs) = True"
| "is_object v = False"

text \<open>
  \<^verbatim>\<open>v.k\<close> for the property names the code reads (\<^verbatim>\<open>name\<close>, \<^verbatim>\<open>section\<close>, \<^verbatim>\<open>kind\<close>,
  \<^verbatim>\<open>__typename\<close>, \<^verbatim>\<open>operation\<close>, \<^verbatim>\<open>matcher\<close>, \<^verbatim>\<open>replacer\<close>, \<^verbatim>\<open>raw\<close>, \<^verbatim>\<open>regex\<close>,
  \<^verbatim>\<open>value\<close>, \<^verbatim>\<open>term\<close>, \<^verbatim>\<open>workflowId\<close>, \<^verbatim>\<open>condition\<close>, \<^verbatim>\<open>query\<close>, \<^verbatim>\<open>active\<close>,
  \<^verbatim>\<open>enabled\<close>, \<^verbatim>\<open>enable\<close>, \<^verbatim>\<open>isEnabled\<close>, \<^verbatim>\<open>id\<close>): none of them is inherited, so only an
  object that owns the key has it. Reading a property of \<^verbatim>\<open>null\<close> or \<^verbatim>\<open>undefined\<close>
  throws; the callers below guard against it where the source does.
\<close>

fun get_prop :: "jsval \<Rightarrow> string \<Rightarrow> jsval" where
  "get_prop (JObj kvs) k = (case map_of kvs k of Some v \<Rightarrow> v | None \<Rightarrow> JUndefined)"
| "get_prop v k = JUndefined"

text \<open>\<^verbatim>\<open>"k" in v\<close>, used on the object literals that \<open>toSection\<close> builds.\<close>

fun has_key :: "jsval \<Rightarrow> string \<Rightarrow> bool" where
  "has_key (JObj kvs) k = (k \<in> set (map fst kvs))"
| "has_key v k = False"

definition js_or :: "jsval \<Rightarrow> jsval \<Rightarrow> jsval" where
  "js_or a b = (if truthy a then a else b)"

text \<open>\<^verbatim>\<open>(v.__typename as string) || (v.kind as string) || ""\<close>; the casts check nothing.\<close>

definition kind_of :: "jsval \<Rightarrow> jsval" where
  "kind_of v = js_or (get_prop v ''__typename'') (js_or (get_prop v ''kind'') (JStr ''''))"

text \<open>
  \<^verbatim>\<open>k.includes(needle)\<close>. A string tests for a substring, an array for an element equal
  to the needle; any other value has no callable \<^verbatim>\<open>includes\<close>, and the call throws a
  TypeError (\<open>None\<close>).
\<close>

fun js_includes :: "jsval \<Rightarrow> string \<Rightarrow> bool option" where
  "js_includes (JStr s) needle = Some (str_includes s needle)"
| "js_includes (JArr xs) needle = Some (JStr needle \<in> set xs)"
| "js_includes v needle = None"

text \<open>\<^verbatim>\<open>k.includes(n1) || k.includes(n2) || ...\<close>, evaluated from the left.\<close>

fun includes_any :: "jsval \<Rightarrow> string list \<Rightarrow> bool option" where
  "includes_any k [] = Some False"
| "includes_any k (n # ns) =
     (case js_includes k n of
        None \<Rightarrow> None
      | Some b \<Rightarrow> if b then Some True else includes_any k ns)"

text \<open>
  An \<^verbatim>\<open>if / else if\<close> chain whose conditions are \<^verbatim>\<open>includes\<close> tests on one value: the
  branches are tried in order, the first whose test holds is taken, \<open>d\<close> is what remains
  when none holds, and a throwing test ends the chain with \<open>None\<close>.
\<close>

fun first_match :: "jsval \<Rightarrow> (string list \<times> 'a) list \<Rightarrow> 'a \<Rightarrow> 'a option" where
  "first_match k [] d = Some d"
| "first_match k ((needles, r) # rest) d =
     (case includes_any k needles of
        None \<Rightarrow> None
      | Some b \<Rightarrow> if b then Some r else first_match k rest d)"

text \<open>\<^verbatim>\<open>typeof v === "string" ? v : d\<close>\<close>

fun str_or :: "jsval \<Rightarrow> string \<Rightarrow> string" where
  "str_or (JStr s) d = s"
| "str_or v d = d"

fun is_string :: "jsval \<Rightarrow> bool" where
  "is_string (JStr s) = True"
| "is_string v = False"

section \<open>The editor's rule\<close>

text \<open>
  \<^verbatim>\<open>
  type Rule = { id: string; name: string; section: SectionOption["value"]; matcher: string;
    value: string; active: boolean; matcherType?: string; replacerType?: string;
    condition?: string; workflowId?: string; };
  \<close>
  The fields carry the prefix \<open>r_\<close>. The section is a string: the flat import casts any
  string to it, and \<open>toSection\<close> has a branch for the strings it does not know. Where the
  code also provides for an absent \<open>name\<close>, \<open>section\<close>, \<open>matcher\<close> or \<open>value\<close>
  (\<^verbatim>\<open>!r.section\<close>, \<^verbatim>\<open>r.name || r.id\<close>, \<^verbatim>\<open>r.matcher || ""\<close>, \<^verbatim>\<open>r.value ?? ""\<close>) it treats
  the absent field as it treats the empty string, which stands for both here.
\<close>

record rule =
  r_id :: string
  r_name :: string
  r_section :: string
  r_matcher :: string
  r_value :: string
  r_active :: bool
  r_matcherType :: "string option"
  r_replacerType :: "string option"
  r_condition :: "string option"
  r_workflowId :: "string option"

section \<open>Host to editor: parseGraphQLRule\<close>

datatype matcher_branch = BRegex | BName | BRawValue | BRawFull | BRaw | BOther

text \<open>
  The block under \<^verbatim>\<open>if (operation.matcher && typeof operation.matcher === "object")\<close>.
  It returns the pair (\<open>matcherType\<close>, \<open>matcher\<close>); a branch that assigns neither leaves
  the initial \<open>("regex", "")\<close>.
\<close>

definition parse_raw_matcher :: "jsval \<Rightarrow> (string \<times> string) option" where
  "parse_raw_matcher raw =
     (case first_match (kind_of raw)
             [([''MatcherRawRegex'', ''TamperMatcherRawRegex''], BRegex),
              ([''MatcherRawValue'', ''TamperMatcherRawValue''], BRawValue),
              ([''MatcherRawFull'', ''TamperMatcherRawFull''], BRawFull)] BOther of
        None \<Rightarrow> None
      | Some BRegex \<Rightarrow> Some (''regex'', str_or (get_prop raw ''regex'') '''')
      | Some BRawValue \<Rightarrow> Some (''string'', str_or (get_prop raw ''value'') '''')
      | Some BRawFull \<Rightarrow> Some (''full'', '''')
      | Some b \<Rightarrow> Some (''regex'', ''''))"

definition parse_matcher :: "jsval \<Rightarrow> (string \<times> string) option" where
  "parse_matcher matcherObj =
     (case first_match (kind_of matcherObj)
             [([''MatcherRegex'', ''TamperMatcherRegex''], BRegex),
              ([''MatcherName'', ''TamperMatcherName''], BName),
              ([''MatcherRawValue'', ''TamperMatcherRawValue''], BRawValue),
              ([''MatcherRawFull'', ''TamperMatcherRawFull''], BRawFull),
              ([''MatcherRaw'', ''TamperMatcherRaw''], BRaw)] BOther of
        None \<Rightarrow> None
      | Some BRegex \<Rightarrow>
          Some (''regex'',
            (if is_string (get_prop matcherObj ''regex'') then str_or (get_prop matcherObj ''regex'') ''''
             else str_or (get_prop matcherObj ''name'') ''''))
      | Some BName \<Rightarrow> Some (''regex'', str_or (get_prop matcherObj ''name'') '''')
      | Some BRawValue \<Rightarrow> Some (''string'', str_or (get_prop matcherObj ''value'') '''')
      | Some BRawFull \<Rightarrow> Some (''full'', '''')
      | Some BRaw \<Rightarrow>
          (let raw = get_prop matcherObj ''raw'' in
           if truthy raw \<and> is_object raw then parse_raw_matcher raw
           else Some (''regex'', ''''))
      | Some BOther \<Rightarrow>
          (if is_string (get_prop matcherObj ''regex'')
           then Some (''regex'', str_or (get_prop matcherObj ''regex'') '''')
           else if is_string (get_prop matcherObj ''name'')
           then Some (''regex'', str_or (get_prop matcherObj ''name'') '''')
           else Some (''regex'', '''')))"

datatype replacer_branch = BTerm | BWorkflow | BNone

text \<open>
  The block under \<^verbatim>\<open>if (operation.replacer && typeof operation.replacer === "object")\<close>:
  the triple (\<open>replacerType\<close>, \<open>value\<close>, \<open>workflowId\<close>).
\<close>

definition parse_replacer :: "jsval \<Rightarrow> (string \<times> string \<times> string option) option" where
  "parse_replacer replacerObj =
     (case first_match (kind_of replacerObj)
             [([''ReplacerTerm'', ''TamperReplacerTerm''], BTerm),
              ([''ReplacerWorkflow'', ''TamperReplacerWorkflow''], BWorkflow)] BNone of
        None \<Rightarrow> None
      | Some BTerm \<Rightarrow> Some (''term'', str_or (get_prop replacerObj ''term'') '''', None)
      | Some BWorkflow \<Rightarrow>
          Some (''workflow'', '''',
            (if is_string (get_prop replacerObj ''workflowId'')
             then Some (str_or (get_prop replacerObj ''workflowId'') '''') else None))
      | Some BNone \<Rightarrow> Some (''term'', '''', None))"

text \<open>The chain that resolves \<open>sectionType\<close> from the section's discriminator.\<close>

definition parse_sectionType :: "jsval \<Rightarrow> string option" where
  "parse_sectionType section =
     first_match (kind_of section)
       [([''RequestHeader''], ''RequestHeader''),
        ([''RequestBody''], ''RequestBody''),
        ([''RequestMethod''], ''RequestMethod''),
        ([''RequestPath''], ''RequestPath''),
        ([''RequestQuery''], ''RequestQuery''),
        ([''ResponseHeader''], ''ResponseHeader''),
        ([''ResponseBody''], ''ResponseBody''),
        ([''ResponseStatusCode''], ''ResponseStatusCode'')] ''RequestHeader''"

text \<open>
  The block under \<^verbatim>\<open>if (section.operation && typeof section.operation === "object")\<close>:
  matcher first, then replacer.
\<close>

definition parse_operation ::
  "jsval \<Rightarrow> ((string \<times> string) \<times> (string \<times> string \<times> string option)) option" where
  "parse_operation operation =
     (let m = get_prop operation ''matcher''; p = get_prop operation ''replacer'' in
      case (if truthy m \<and> is_object m then parse_matcher m else Some (''regex'', '''')) of
        None \<Rightarrow> None
      | Some mt \<Rightarrow>
         (case (if truthy p \<and> is_object p then parse_replacer p else Some (''term'', '''', None)) of
            None \<Rightarrow> None
          | Some rp \<Rightarrow> Some (mt, rp)))"

text \<open>
  \<^verbatim>\<open>v && typeof v === "string" && v.trim().length > 0\<close>, the test put on
  \<^verbatim>\<open>item.condition\<close> and then on \<^verbatim>\<open>item.query\<close>.
\<close>

definition nonblank_string :: "jsval \<Rightarrow> bool" where
  "nonblank_string v = (truthy v \<and> is_string v \<and> length (trim (str_or v '''')) > 0)"

definition parse_condition :: "jsval \<Rightarrow> string" where
  "parse_condition item =
     (if nonblank_string (get_prop item ''condition'')
      then normalizeHttpqlQuery (str_or (get_prop item ''condition'') '''')
      else if nonblank_string (get_prop item ''query'')
      then normalizeHttpqlQuery (str_or (get_prop item ''query'') '''')
      else '''')"

fun is_boolean :: "jsval \<Rightarrow> bool" where
  "is_boolean (JBool b) = True"
| "is_boolean v = False"

definition parse_active :: "jsval \<Rightarrow> bool" where
  "parse_active item =
     (if is_boolean (get_prop item ''active'') then truthy (get_prop item ''active'')
      else if is_boolean (get_prop item ''enabled'') then truthy (get_prop item ''enabled'')
      else if is_boolean (get_prop item ''enable'') then truthy (get_prop item ''enable'')
      else if is_boolean (get_prop item ''isEnabled'') then truthy (get_prop item ''isEnabled'')
      else True)"

text \<open>
  \<open>parseGraphQLRule\<close>. The identifier, built in the source from the clock and a random
  number, is the parameter \<open>fresh_id\<close>. \<open>None\<close> is \<^verbatim>\<open>undefined\<close>: the early return on an
  empty name, and the \<^verbatim>\<open>catch\<close> that swallows whatever the body throws. \<open>parse_section\<close>
  is the block under \<^verbatim>\<open>if (item.section && typeof item.section === "object")\<close>.
\<close>

definition parse_section ::
  "jsval \<Rightarrow> (string \<times> (string \<times> string) \<times> (string \<times> string \<times> string option)) option" where
  "parse_section section =
     (case parse_sectionType section of
        None \<Rightarrow> None
      | Some sectionType \<Rightarrow>
         (let operation = get_prop section ''operation'' in
          if truthy operation \<and> is_object operation
          then (case parse_operation operation of
                  None \<Rightarrow> None
                | Some mr \<Rightarrow> Some (sectionType, mr))
          else Some (sectionType, (''regex'', ''''), (''term'', '''', None))))"

definition parseGraphQLRule :: "string \<Rightarrow> jsval \<Rightarrow> rule option" where
  "parseGraphQLRule fresh_id item =
     (if item = JUndefined \<or> item = JNull then None
      else
        let name = str_or (get_prop item ''name'') '''' in
        if length name = 0 then None
        else
          let section = get_prop item ''section'' in
          case (if truthy section \<and> is_object section then parse_section section
                else Some (''RequestHeader'', (''regex'', ''''), (''term'', '''', None))) of
            None \<Rightarrow> None
          | Some (sectionType, (matcherType, matcher), (replacerType, val, workflowId)) \<Rightarrow>
              Some \<lparr> r_id = fresh_id, r_name = name, r_section = sectionType,
                     r_matcher = matcher, r_value = val, r_active = parse_active item,
                     r_matcherType = Some matcherType, r_replacerType = Some replacerType,
                     r_condition = Some (parse_condition item), r_workflowId = workflowId \<rparr>)"

section \<open>Editor to host: toSection\<close>

definition buildMatcher :: "string option \<Rightarrow> string \<Rightarrow> jsval" where
  "buildMatcher matcherType matcherValue =
     (if matcherType = Some ''full'' then JObj [(''kind'', JStr ''MatcherRawFull'')]
      else if matcherType = Some ''regex''
      then JObj [(''kind'', JStr ''MatcherRawRegex''), (''regex'', JStr matcherValue)]
      else if matcherType = Some ''string''
      then JObj [(''kind'', JStr ''MatcherRawValue''), (''value'', JStr matcherValue)]
      else JObj [(''kind'', JStr ''MatcherRawRegex''), (''regex'', JStr matcherValue)])"

definition buildReplacer :: "string option \<Rightarrow> string \<Rightarrow> string option \<Rightarrow> jsval" where
  "buildReplacer replacerType termValue workflowId =
     (case workflowId of
        Some w \<Rightarrow>
          if replacerType = Some ''workflow'' \<and> length (trim w) > 0
          then JObj [(''kind'', JStr ''ReplacerWorkflow''), (''workflowId'', JStr w)]
          else JObj [(''kind'', JStr ''ReplacerTerm''), (''term'', JStr termValue)]
      | None \<Rightarrow> JObj [(''kind'', JStr ''ReplacerTerm''), (''term'', JStr termValue)])"

text \<open>\<^verbatim>\<open>!v || typeof v !== "object" || !("kind" in v)\<close>, the guard before each use.\<close>

definition lacks_kind :: "jsval \<Rightarrow> bool" where
  "lacks_kind v = (\<not> (truthy v \<and> is_object v \<and> has_key v ''kind''))"

text \<open>\<^verbatim>\<open>r.name || r.id\<close>, the label in the error messages.\<close>

definition rule_label :: "rule \<Rightarrow> string" where
  "rule_label r = (if r_name r \<noteq> [] then r_name r else r_id r)"

text \<open>\<^verbatim>\<open>r.matcher && r.matcher.trim().length > 0 ? r.matcher : ""\<close>\<close>

definition matcherValue_of :: "rule \<Rightarrow> string" where
  "matcherValue_of r =
     (if r_matcher r \<noteq> [] \<and> length (trim (r_matcher r)) > 0 then r_matcher r else '''')"

definition header_section :: "string \<Rightarrow> string \<Rightarrow> string \<Rightarrow> rule \<Rightarrow> jsval \<Rightarrow> string + jsval" where
  "header_section sectionKind label matcherType r replacer =
     (let matcherValue = matcherValue_of r in
      if matcherType = ''regex'' \<or> matcherType = ''string'' \<or> matcherType = ''full''
      then
        (let rawMatcher = buildMatcher (Some matcherType) matcherValue in
         if lacks_kind rawMatcher
         then Inl (''Invalid matcher for '' @ label @ '': '' @ rule_label r)
         else Inr (JObj [(''kind'', JStr sectionKind),
                         (''operation'', JObj [(''kind'', JStr ''OperationHeaderRaw''),
                                               (''matcher'', rawMatcher),
                                               (''replacer'', replacer)])]))
      else Inr (JObj [(''kind'', JStr sectionKind),
                      (''operation'', JObj [(''kind'', JStr ''OperationHeaderUpdate''),
                                            (''matcher'', JObj [(''kind'', JStr ''MatcherName''),
                                                                (''name'', JStr matcherValue)]),
                                            (''replacer'', replacer)])]))"

definition named_section :: "string \<Rightarrow> string \<Rightarrow> rule \<Rightarrow> jsval \<Rightarrow> jsval" where
  "named_section sectionKind operationKind r replacer =
     JObj [(''kind'', JStr sectionKind),
           (''operation'', JObj [(''kind'', JStr operationKind),
                                 (''matcher'', JObj [(''kind'', JStr ''MatcherName''),
                                                     (''name'', JStr (matcherValue_of r))]),
                                 (''replacer'', replacer)])]"

definition replacer_section :: "string \<Rightarrow> string \<Rightarrow> jsval \<Rightarrow> jsval" where
  "replacer_section sectionKind operationKind replacer =
     JObj [(''kind'', JStr sectionKind),
           (''operation'', JObj [(''kind'', JStr operationKind), (''replacer'', replacer)])]"

text \<open>
  \<open>toSection\<close>; \<open>Inl\<close> is the message of the thrown \<^verbatim>\<open>Error\<close>. The two header branches
  of the source differ in the section tag only and share \<open>header_section\<close>; likewise the
  path and query branches (\<open>named_section\<close>) and the method and status branches
  (\<open>replacer_section\<close>).
\<close>

definition toSection :: "rule \<Rightarrow> string + jsval" where
  "toSection r =
     (if r_section r = [] then Inl (''Rule missing section: '' @ rule_label r)
      else
        let matcherType = (case r_matcherType r of None \<Rightarrow> ''regex'' | Some t \<Rightarrow> t);
            replacerType = (case r_replacerType r of None \<Rightarrow> ''term'' | Some t \<Rightarrow> t);
            replacer = buildReplacer (Some replacerType) (r_value r) (r_workflowId r)
        in
        if lacks_kind replacer then Inl (''Invalid replacer for rule: '' @ rule_label r)
        else if r_section r = ''RequestHeader''
        then header_section ''SectionRequestHeader'' ''RequestHeader'' matcherType r replacer
        else if r_section r = ''RequestBody''
        then
          (let rawMatcher = buildMatcher (Some matcherType) (r_matcher r) in
           if lacks_kind rawMatcher
           then Inl (''Invalid matcher for RequestBody: '' @ rule_label r)
           else if \<not> truthy replacer
           then Inl (''Invalid replacer for RequestBody: '' @ rule_label r)
           else Inr (JObj [(''kind'', JStr ''SectionRequestBody''),
                           (''operation'', JObj [(''kind'', JStr ''OperationBodyRaw''),
                                                 (''raw'', JObj [(''matcher'', rawMatcher),
                                                                 (''replacer'', replacer)])])]))
        else if r_section r = ''RequestMethod''
        then Inr (replacer_section ''SectionRequestMethod'' ''OperationMethodUpdate'' replacer)
        else if r_section r = ''RequestPath''
        then Inr (named_section ''SectionRequestPath'' ''OperationPathUpdate'' r replacer)
        else if r_section r = ''RequestQuery''
        then Inr (named_section ''SectionRequestQuery'' ''OperationQueryUpdate'' r replacer)
        else if r_section r = ''ResponseHeader''
        then header_section ''SectionResponseHeader'' ''ResponseHeader'' matcherType r replacer
        else if r_section r = ''ResponseBody''
        then
          (let rawMatcher = buildMatcher (Some matcherType) (r_matcher r) in
           if lacks_kind rawMatcher
           then Inl (''Invalid matcher for ResponseBody: '' @ rule_label r)
           else if lacks_kind replacer
           then Inl (''Invalid replacer for ResponseBody: '' @ rule_label r)
           else Inr (JObj [(''kind'', JStr ''SectionResponseBody''),
                           (''operation'', JObj [(''kind'', JStr ''OperationBodyRaw''),
                                                 (''matcher'', rawMatcher),
                                                 (''replacer'', replacer)])]))
        else Inr (replacer_section ''SectionResponseStatusCode'' ''OperationStatusCodeUpdate''
                    replacer))"

section \<open>Observing host sections\<close>

text \<open>
  The host's wire form of a rule, as the data model of the specification lists it and as
  \<open>toSection\<close> emits it: one of eight sections, a matcher tagged \<open>MatcherRawRegex\<close>,
  \<open>MatcherRawValue\<close>, \<open>MatcherRawFull\<close> or \<open>MatcherName\<close>, a replacer tagged
  \<open>ReplacerTerm\<close> or \<open>ReplacerWorkflow\<close>. \<open>wire_section\<close> lays a rule out as JSON: a
  header operation is \<open>OperationHeaderUpdate\<close> for a name matcher and \<open>OperationHeaderRaw\<close>
  otherwise, the request body nests matcher and replacer under \<open>raw\<close>, the response body
  does not, method and status code carry a replacer only.
\<close>

datatype host_matcher =
    MatcherRawRegex string
  | MatcherRawValue string
  | MatcherRawFull
  | MatcherName string

datatype host_replacer = ReplacerTerm string | ReplacerWorkflow string

datatype host_section =
    RequestHeader | RequestBody | RequestMethod | RequestPath
  | RequestQuery | ResponseHeader | ResponseBody | ResponseStatusCode

fun wire_matcher :: "host_matcher \<Rightarrow> jsval" where
  "wire_matcher (MatcherRawRegex s) = JObj [(''kind'', JStr ''MatcherRawRegex''), (''regex'', JStr s)]"
| "wire_matcher (MatcherRawValue s) = JObj [(''kind'', JStr ''MatcherRawValue''), (''value'', JStr s)]"
| "wire_matcher MatcherRawFull = JObj [(''kind'', JStr ''MatcherRawFull'')]"
| "wire_matcher (MatcherName s) = JObj [(''kind'', JStr ''MatcherName''), (''name'', JStr s)]"

fun wire_replacer :: "host_replacer \<Rightarrow> jsval" where
  "wire_replacer (ReplacerTerm s) = JObj [(''kind'', JStr ''ReplacerTerm''), (''term'', JStr s)]"
| "wire_replacer (ReplacerWorkflow w) =
     JObj [(''kind'', JStr ''ReplacerWorkflow''), (''workflowId'', JStr w)]"

fun is_name_matcher :: "host_matcher \<Rightarrow> bool" where
  "is_name_matcher (MatcherName s) = True"
| "is_name_matcher m = False"

definition wire_op :: "string \<Rightarrow> host_matcher \<Rightarrow> host_replacer \<Rightarrow> jsval" where
  "wire_op operationKind m p =
     JObj [(''kind'', JStr operationKind), (''matcher'', wire_matcher m),
           (''replacer'', wire_replacer p)]"

fun wire_section :: "host_section \<Rightarrow> host_matcher \<Rightarrow> host_replacer \<Rightarrow> jsval" where
  "wire_section RequestHeader m p =
     JObj [(''kind'', JStr ''SectionRequestHeader''),
           (''operation'',
            wire_op (if is_name_matcher m then ''OperationHeaderUpdate'' else ''OperationHeaderRaw'') m p)]"
| "wire_section RequestBody m p =
     JObj [(''kind'', JStr ''SectionRequestBody''),
           (''operation'', JObj [(''kind'', JStr ''OperationBodyRaw''),
                                 (''raw'', JObj [(''matcher'', wire_matcher m),
                                                 (''replacer'', wire_replacer p)])])]"
| "wire_section RequestMethod m p =
     JObj [(''kind'', JStr ''SectionRequestMethod''),
           (''operation'', JObj [(''kind'', JStr ''OperationMethodUpdate''),
                                 (''replacer'', wire_replacer p)])]"
| "wire_section RequestPath m p =
     JObj [(''kind'', JStr ''SectionRequestPath''), (''operation'', wire_op ''OperationPathUpdate'' m p)]"
| "wire_section RequestQuery m p =
     JObj [(''kind'', JStr ''SectionRequestQuery''), (''operation'', wire_op ''OperationQueryUpdate'' m p)]"
| "wire_section ResponseHeader m p =
     JObj [(''kind'', JStr ''SectionResponseHeader''),
           (''operation'',
            wire_op (if is_name_matcher m then ''OperationHeaderUpdate'' else ''OperationHeaderRaw'') m p)]"
| "wire_section ResponseBody m p =
     JObj [(''kind'', JStr ''SectionResponseBody''), (''operation'', wire_op ''OperationBodyRaw'' m p)]"
| "wire_section ResponseStatusCode m p =
     JObj [(''kind'', JStr ''SectionResponseStatusCode''),
           (''operation'', JObj [(''kind'', JStr ''OperationStatusCodeUpdate''),
                                 (''replacer'', wire_replacer p)])]"

text \<open>
  What a host section resolves to: the matcher and the replacer sit under
  \<open>operation.raw\<close> when the operation has that wrapper and on the operation otherwise;
  the pattern is the field the matcher's tag populates (\<open>MatcherRawFull\<close> has none and
  resolves to the empty pattern), the term and the workflow identifier are those of the
  replacer.
\<close>

definition section_part :: "string \<Rightarrow> jsval \<Rightarrow> jsval" where
  "section_part part s =
     (let operation = get_prop s ''operation'' in
      if has_key operation ''raw'' then get_prop (get_prop operation ''raw'') part
      else get_prop operation part)"

definition resolved_pattern :: "jsval \<Rightarrow> string option" where
  "resolved_pattern s =
     (let m = section_part ''matcher'' s; k = get_prop m ''kind'' in
      if k = JStr ''MatcherRawRegex'' then Some (str_or (get_prop m ''regex'') '''')
      else if k = JStr ''MatcherRawValue'' then Some (str_or (get_prop m ''value'') '''')
      else if k = JStr ''MatcherName'' then Some (str_or (get_prop m ''name'') '''')
      else if k = JStr ''MatcherRawFull'' then Some ''''
      else None)"

definition resolved_term :: "jsval \<Rightarrow> string option" where
  "resolved_term s =
     (let p = section_part ''replacer'' s in
      if get_prop p ''kind'' = JStr ''ReplacerTerm'' then Some (str_or (get_prop p ''term'') '''')
      else None)"

definition resolved_workflowId :: "jsval \<Rightarrow> string option" where
  "resolved_workflowId s =
     (let p = section_part ''replacer'' s in
      if get_prop p ''kind'' = JStr ''ReplacerWorkflow''
      then Some (str_or (get_prop p ''workflowId'') '''')
      else None)"

definition resolved :: "jsval \<Rightarrow> string option \<times> string option \<times> string option" where
  "resolved s = (resolved_pattern s, resolved_term s, resolved_workflowId s)"

text \<open>
  The round trip of the specification, \<open>editorToHost (hostToEditor hostRule)\<close>: the item
  is parsed, the rule is translated back; \<open>None\<close> when either step yields nothing.
\<close>

definition round_trip :: "string \<Rightarrow> jsval \<Rightarrow> jsval option" where
  "round_trip fresh_id item =
     (case parseGraphQLRule fresh_id item of
        None \<Rightarrow> None
      | Some r \<Rightarrow> (case toSection r of Inl e \<Rightarrow> None | Inr s \<Rightarrow> Some s))"

text \<open>The shapes of a body operation: under a \<open>raw\<close> wrapper, or as direct fields.\<close>

definition wrapped_body_op :: "jsval \<Rightarrow> bool" where
  "wrapped_body_op operation =
     (get_prop operation ''kind'' = JStr ''OperationBodyRaw''
      \<and> has_key operation ''raw''
      \<and> has_key (get_prop operation ''raw'') ''matcher''
      \<and> has_key (get_prop operation ''raw'') ''replacer''
      \<and> \<not> has_key operation ''matcher''
      \<and> \<not> has_key operation ''replacer'')"

definition direct_body_op :: "jsval \<Rightarrow> bool" where
  "direct_body_op operation =
     (get_prop operation ''kind'' = JStr ''OperationBodyRaw''
      \<and> has_key operation ''matcher''
      \<and> has_key operation ''replacer''
      \<and> \<not> has_key operation ''raw'')"

text \<open>Example items.\<close>

definition header_regex_item :: jsval where
  "header_regex_item =
     JObj [(''name'', JStr ''r''),
           (''section'',
            JObj [(''kind'', JStr ''SectionRequestHeader''),
                  (''operation'',
                   JObj [(''kind'', JStr ''OperationHeaderRaw''),
                         (''matcher'', JObj [(''kind'', JStr ''MatcherRawRegex''),
                                             (''regex'', JStr ''foo'')]),
                         (''replacer'', JObj [(''kind'', JStr ''ReplacerTerm''),
                                              (''term'', JStr ''bar'')])])])]"

definition untagged_section_item :: jsval where
  "untagged_section_item =
     JObj [(''name'', JStr ''r''),
           (''section'',
            JObj [(''operation'',
                   JObj [(''matcher'', JObj [(''kind'', JStr ''MatcherRawValue''),
                                             (''value'', JStr ''v'')])])])]"

definition numeric_kind_item :: jsval where
  "numeric_kind_item =
     JObj [(''name'', JStr ''r''),
           (''section'', JObj [(''kind'', JNum 5), (''operation'', JObj [])])]"

text \<open>
  The discriminators \<open>parseGraphQLRule\<close> reads are strings: those of the section, of the
  operation's matcher, of the matcher's \<open>raw\<close> wrapper and of the operation's replacer
  (an absent one reads as the empty string).
\<close>

definition string_kinds :: "jsval \<Rightarrow> bool" where
  "string_kinds item =
     (let operation = get_prop (get_prop item ''section'') ''operation'';
          m = get_prop operation ''matcher''
      in is_string (kind_of (get_prop item ''section''))
         \<and> is_string (kind_of m)
         \<and> is_string (kind_of (get_prop m ''raw''))
         \<and> is_string (kind_of (get_prop operation ''replacer'')))"

definition known_sections :: "string list" where
  "known_sections =
     [''RequestHeader'', ''RequestBody'', ''RequestMethod'', ''RequestPath'',
      ''RequestQuery'', ''ResponseHeader'', ''ResponseBody'', ''ResponseStatusCode'']"

text \<open>
  The section discriminator is absent or names none of the eight sections: \<open>item.section\<close>
  is no object, or no known name occurs in its discriminator.
\<close>

definition unknown_section :: "jsval \<Rightarrow> bool" where
  "unknown_section item =
     (let section = get_prop item ''section'' in
      \<not> (truthy section \<and> is_object section)
      \<or> list_all (\<lambda>k. \<not> str_includes (str_or (kind_of section) '''') k) known_sections)"

definition matcher_of :: "jsval \<Rightarrow> jsval" where
  "matcher_of item = get_prop (get_prop (get_prop item ''section'') ''operation'') ''matcher''"

text \<open>
  The side conditions of the round trip, on the typed wire form: the pattern a matcher
  carries, whether it is tagged \<open>MatcherRawRegex\<close>, whether a pattern is blank (not empty,
  but white space only), whether a workflow replacer names a workflow.
\<close>

fun matcher_pattern :: "host_matcher \<Rightarrow> string" where
  "matcher_pattern (MatcherRawRegex s) = s"
| "matcher_pattern (MatcherRawValue s) = s"
| "matcher_pattern MatcherRawFull = ''''"
| "matcher_pattern (MatcherName s) = s"

fun is_raw_regex :: "host_matcher \<Rightarrow> bool" where
  "is_raw_regex (MatcherRawRegex s) = True"
| "is_raw_regex m = False"

definition blank :: "string \<Rightarrow> bool" where
  "blank s = (s \<noteq> [] \<and> trim s = [])"

fun names_workflow :: "host_replacer \<Rightarrow> bool" where
  "names_workflow (ReplacerWorkflow w) = (trim w \<noteq> [])"
| "names_workflow (ReplacerTerm s) = True"

definition trims_matcher :: "host_section \<Rightarrow> bool" where
  "trims_matcher k = (k \<in> set [RequestHeader, ResponseHeader, RequestPath, RequestQuery])"

text \<open>An example rule of the editor, for a given section.\<close>

definition example_rule :: "string \<Rightarrow> rule" where
  "example_rule sec =
     \<lparr> r_id = ''1'', r_name = ''n'', r_section = sec, r_matcher = ''m'', r_value = ''v'',
       r_active = True, r_matcherType = Some ''regex'', r_replacerType = Some ''term'',
       r_condition = None, r_workflowId = None \<rparr>"

definition unknown_kind_item :: jsval where
  "unknown_kind_item =
     JObj [(''name'', JStr ''r''),
           (''section'', JObj [(''kind'', JStr ''SectionFoo''), (''operation'', JObj [])])]"

text \<open>
  What \<open>parseGraphQLRule\<close> makes of the typed wire form: the matcher type it assigns to
  each matcher tag, the section name for each section, and the triple
  (\<open>replacerType\<close>, \<open>value\<close>, \<open>workflowId\<close>) for each replacer.
\<close>

fun matcher_type :: "host_matcher \<Rightarrow> string" where
  "matcher_type (MatcherRawRegex s) = ''regex''"
| "matcher_type (MatcherRawValue s) = ''string''"
| "matcher_type MatcherRawFull = ''full''"
| "matcher_type (MatcherName s) = ''regex''"

fun section_name :: "host_section \<Rightarrow> string" where
  "section_name RequestHeader = ''RequestHeader''"
| "section_name RequestBody = ''RequestBody''"
| "section_name RequestMethod = ''RequestMethod''"
| "section_name RequestPath = ''RequestPath''"
| "section_name RequestQuery = ''RequestQuery''"
| "section_name ResponseHeader = ''ResponseHeader''"
| "section_name ResponseBody = ''ResponseBody''"
| "section_name ResponseStatusCode = ''ResponseStatusCode''"

fun replacer_fields :: "host_replacer \<Rightarrow> string \<times> string \<times> string option" where
  "replacer_fields (ReplacerTerm s) = (''term'', s, None)"
| "replacer_fields (ReplacerWorkflow w) = (''workflow'', '''', Some w)"

definition has_matcher :: "host_section \<Rightarrow> bool" where
  "has_matcher k = (k \<noteq> RequestMethod \<and> k \<noteq> ResponseStatusCode)"

definition request_body_item :: jsval where
  "request_body_item =
     JObj [(''name'', JStr ''r''),
           (''section'', wire_section RequestBody (MatcherRawValue ''foo'') (ReplacerTerm ''bar''))]"

definition header_value_item :: jsval where
  "header_value_item =
     JObj [(''name'', JStr ''r''),
           (''section'', wire_section RequestHeader (MatcherRawValue ''foo'') (ReplacerWorkflow ''wf''))]"

text \<open>
  Three more items: the request-header rule of \<open>header_regex_item\<close> with its matcher
  tagged \<open>MatcherRawValue\<close>, a request-body rule whose matcher and replacer sit on the
  operation, and a matcher that carries its regex under a \<open>raw\<close> wrapper.
\<close>

definition header_value_term_item :: jsval where
  "header_value_term_item =
     JObj [(''name'', JStr ''r''),
           (''section'', wire_section RequestHeader (MatcherRawValue ''foo'') (ReplacerTerm ''bar''))]"

definition direct_request_body_item :: jsval where
  "direct_request_body_item =
     JObj [(''name'', JStr ''r''),
           (''section'',
            JObj [(''kind'', JStr ''SectionRequestBody''),
                  (''operation'',
                   wire_op ''OperationBodyRaw'' (MatcherRawValue ''foo'') (ReplacerTerm ''bar''))])]"

definition wrapped_regex_matcher :: jsval where
  "wrapped_regex_matcher =
     JObj [(''kind'', JStr ''MatcherRaw''),
           (''raw'', JObj [(''kind'', JStr ''MatcherRawRegex''), (''regex'', JStr ''foo'')])]"

section \<open>The collection store\<close>

text \<open>
  \<^verbatim>\<open>type Collection = { id: string; name: string; rules: Rule[] }\<close>. The store is the
  component's reactive state: the collections, the selected collection, the two input
  fields the operations read and reset, the selected project, and the toasts shown so
  far (what the user sees of an operation's success or failure).
\<close>

record collection =
  c_id :: string
  c_name :: string
  c_rules :: "rule list"

record workspace =
  w_id :: string
  w_name :: string

datatype variant = VariantError | VariantSuccess | VariantWarning

text \<open>
  A toast's text. The messages that interpolate numbers keep them as numbers:
  \<open>SyncedTo c n w\<close> is \<^verbatim>\<open>Synced c collection(s) with n rule(s) to "w"\<close>,
  \<open>SyncedFailed c n fs\<close> is \<^verbatim>\<open>Synced c collection(s) with n rule(s). Failed: fs\<close>,
  \<open>Imported n f\<close> is \<^verbatim>\<open>Imported n rule(s) from f file(s)\<close>.
\<close>

datatype message =
    Text string
  | SyncedTo nat nat string
  | SyncedFailed nat nat "string list"
  | Imported nat nat

type_synonym toast = "message \<times> variant"

record store =
  collections :: "collection list"
  selectedCollectionId :: "string option"
  newCollectionName :: string
  editingRuleId :: "string option"
  editingRuleName :: string
  selectedWorkspace :: "workspace option"
  toasts :: "toast list"

definition showToast :: "message \<Rightarrow> variant \<Rightarrow> store \<Rightarrow> store" where
  "showToast m v st = st\<lparr>toasts := toasts st @ [(m, v)]\<rparr>"

text \<open>
  The backend answers with \<^verbatim>\<open>Result<T> = { kind: "Error"; error } | { kind: "Ok"; value }\<close>.
  An awaited call either returns or throws; of a thrown value the handlers use
  \<^verbatim>\<open>error.message\<close> when it is an \<^verbatim>\<open>Error\<close>, and a fixed text or \<^verbatim>\<open>String(error)\<close>
  otherwise.
\<close>

datatype 'a result = Error string | Ok 'a

datatype thrown = ErrorObject string | OtherValue string

datatype 'a call = Throws thrown | Returns 'a

text \<open>\<^verbatim>\<open>error instanceof Error ? error.message : "Unknown error"\<close>\<close>

fun message_or_unknown :: "thrown \<Rightarrow> string" where
  "message_or_unknown (ErrorObject m) = m"
| "message_or_unknown (OtherValue s) = ''Unknown error''"

text \<open>\<^verbatim>\<open>error instanceof Error ? error.message : String(error)\<close>\<close>

fun message_or_string :: "thrown \<Rightarrow> string" where
  "message_or_string (ErrorObject m) = m"
| "message_or_string (OtherValue s) = s"

text \<open>\<^verbatim>\<open>if (id)\<close> on a \<^verbatim>\<open>string | undefined\<close>: defined and not empty.\<close>

fun truthy_id :: "string option \<Rightarrow> bool" where
  "truthy_id None = False"
| "truthy_id (Some s) = (s \<noteq> [])"

text \<open>
  \<open>persist\<close> writes the store to the backend. The database is outside the model; what
  \<open>persist\<close> does to the store is the toast on a failed save. \<open>save_env\<close> gives the
  outcome of the two backend calls. The operations of the store are modelled with the SDK
  present: all but \<open>persist\<close> and \<open>load\<close> use it unguarded.
\<close>

record save_env =
  saveCollections_reply :: "unit result call"
  saveSelected_reply :: "unit result call"

definition persist :: "save_env \<Rightarrow> store \<Rightarrow> store" where
  "persist env st =
     (case saveCollections_reply env of
        Throws e \<Rightarrow>
          showToast (Text (''Failed to save collections: '' @ message_or_unknown e)) VariantError st
      | Returns (Error e) \<Rightarrow>
          showToast (Text (''Failed to save collections: '' @ e)) VariantError st
      | Returns (Ok u) \<Rightarrow>
          if truthy_id (selectedCollectionId st)
          then (case saveSelected_reply env of
                  Throws e \<Rightarrow>
                    showToast (Text (''Failed to save collections: '' @ message_or_unknown e))
                      VariantError st
                | Returns (Error e) \<Rightarrow>
                    showToast (Text (''Failed to save selected collection: '' @ e)) VariantError st
                | Returns (Ok u') \<Rightarrow> st)
          else st)"

text \<open>A name between double quotes, as the messages show it.\<close>

definition quoted :: "string \<Rightarrow> string" where
  "quoted s = [CHR 0x22] @ s @ [CHR 0x22]"

text \<open>
  \<open>createCollection\<close>; the generated identifier is the parameter \<open>fresh_id\<close>.
\<close>

definition createCollection :: "string \<Rightarrow> save_env \<Rightarrow> store \<Rightarrow> store" where
  "createCollection fresh_id env st =
     (if length (trim (newCollectionName st)) = 0
      then showToast (Text ''Collection name is required'') VariantError st
      else
        let name = ensureGlobalPrefix (newCollectionName st);
            st1 = st\<lparr>collections :=
                       collections st @ [\<lparr>c_id = fresh_id, c_name = name, c_rules = []\<rparr>],
                     selectedCollectionId := Some fresh_id,
                     newCollectionName := ''''\<rparr>
        in showToast (Text (''Collection '' @ quoted name @ '' created'')) VariantSuccess
             (persist env st1))"

text \<open>\<^verbatim>\<open>collections.value[0]?.id\<close>\<close>

fun first_id :: "collection list \<Rightarrow> string option" where
  "first_id [] = None"
| "first_id (c # cs) = Some (c_id c)"

definition deleteCollection :: "string \<Rightarrow> save_env \<Rightarrow> store \<Rightarrow> store" where
  "deleteCollection collectionId env st =
     (if length (collections st) \<le> 1
      then showToast (Text ''Cannot delete the last collection'') VariantError st
      else
        case find (\<lambda>c. c_id c = collectionId) (collections st) of
          None \<Rightarrow> st
        | Some collection \<Rightarrow>
            let remaining = filter (\<lambda>c. c_id c \<noteq> collectionId) (collections st);
                st1 = st\<lparr>collections := remaining,
                         selectedCollectionId :=
                           (if selectedCollectionId st = Some collectionId then first_id remaining
                            else selectedCollectionId st)\<rparr>
            in showToast (Text (''Collection '' @ quoted (c_name collection) @ '' deleted''))
                 VariantSuccess (persist env st1))"

definition switchCollection :: "string option \<Rightarrow> save_env \<Rightarrow> store \<Rightarrow> store" where
  "switchCollection collectionId env st =
     (if truthy_id collectionId then persist env (st\<lparr>selectedCollectionId := collectionId\<rparr>)
      else st)"

text \<open>
  \<^verbatim>\<open>xs.find(p)\<close> returns a reference to the first element that satisfies \<open>p\<close>; an
  assignment through it changes that element of the list.
\<close>

fun update_first :: "('a \<Rightarrow> bool) \<Rightarrow> ('a \<Rightarrow> 'a) \<Rightarrow> 'a list \<Rightarrow> 'a list" where
  "update_first p f [] = []"
| "update_first p f (x # xs) = (if p x then f x # xs else x # update_first p f xs)"

definition is_selected :: "store \<Rightarrow> collection \<Rightarrow> bool" where
  "is_selected st c = (Some (c_id c) = selectedCollectionId st)"

definition removeRule :: "string \<Rightarrow> save_env \<Rightarrow> store \<Rightarrow> store" where
  "removeRule rid env st =
     (if truthy_id (selectedCollectionId st)
      then (case find (is_selected st) (collections st) of
              None \<Rightarrow> st
            | Some collection \<Rightarrow>
                persist env
                  (st\<lparr>collections :=
                        update_first (is_selected st)
                          (\<lambda>c. c\<lparr>c_rules := filter (\<lambda>r. r_id r \<noteq> rid) (c_rules c)\<rparr>)
                          (collections st)\<rparr>))
      else st)"

definition toggleActive :: "string \<Rightarrow> bool \<Rightarrow> save_env \<Rightarrow> store \<Rightarrow> store" where
  "toggleActive rid val env st =
     (if truthy_id (selectedCollectionId st)
      then (case find (is_selected st) (collections st) of
              None \<Rightarrow> st
            | Some collection \<Rightarrow>
               (case find (\<lambda>r. r_id r = rid) (c_rules collection) of
                  None \<Rightarrow> st
                | Some rule \<Rightarrow>
                    persist env
                      (st\<lparr>collections :=
                            update_first (is_selected st)
                              (\<lambda>c. c\<lparr>c_rules :=
                                        update_first (\<lambda>r. r_id r = rid) (\<lambda>r. r\<lparr>r_active := val\<rparr>)
                                          (c_rules c)\<rparr>)
                              (collections st)\<rparr>)))
      else st)"

definition cancelEditingName :: "store \<Rightarrow> store" where
  "cancelEditingName st = st\<lparr>editingRuleId := None, editingRuleName := ''''\<rparr>"

definition saveRuleName :: "string \<Rightarrow> save_env \<Rightarrow> store \<Rightarrow> store" where
  "saveRuleName ruleId env st =
     (if truthy_id (selectedCollectionId st)
      then (case find (is_selected st) (collections st) of
              None \<Rightarrow> st
            | Some collection \<Rightarrow>
                if find (\<lambda>r. r_id r = ruleId) (c_rules collection) \<noteq> None
                   \<and> length (trim (editingRuleName st)) > 0
                then
                  (let st1 = st\<lparr>collections :=
                                  update_first (is_selected st)
                                    (\<lambda>c. c\<lparr>c_rules :=
                                              update_first (\<lambda>r. r_id r = ruleId)
                                                (\<lambda>r. r\<lparr>r_name := trim (editingRuleName st)\<rparr>)
                                                (c_rules c)\<rparr>)
                                    (collections st)\<rparr>;
                       st2 = (persist env st1)\<lparr>editingRuleId := None, editingRuleName := ''''\<rparr>
                   in showToast (Text ''Rule name updated'') VariantSuccess st2)
                else cancelEditingName st)
      else st)"

text \<open>
  The end of \<open>importFromFile\<close>, once the files are read: the imported rules are appended
  to the selected collection, the store is saved, the import is reported.
\<close>

definition addImportedRules :: "rule list \<Rightarrow> nat \<Rightarrow> save_env \<Rightarrow> store \<Rightarrow> store" where
  "addImportedRules allImportedRules fileCount env st =
     (if length allImportedRules = 0
      then showToast (Text ''No valid rules found in selected files'') VariantWarning st
      else (case find (is_selected st) (collections st) of
              None \<Rightarrow> st
            | Some collection \<Rightarrow>
                showToast (Imported (length allImportedRules) fileCount) VariantSuccess
                  (persist env
                     (st\<lparr>collections :=
                           update_first (is_selected st)
                             (\<lambda>c. c\<lparr>c_rules := c_rules c @ allImportedRules\<rparr>)
                             (collections st)\<rparr>))))"

text \<open>The operations on the store, and one step of the store under an operation.\<close>

datatype store_op =
    OpCreateCollection string
  | OpDeleteCollection string
  | OpSwitchCollection "string option"
  | OpRemoveRule string
  | OpToggleActive string bool
  | OpSaveRuleName string
  | OpAddImportedRules "rule list" nat

fun apply_op :: "save_env \<Rightarrow> store_op \<Rightarrow> store \<Rightarrow> store" where
  "apply_op env (OpCreateCollection fresh_id) st = createCollection fresh_id env st"
| "apply_op env (OpDeleteCollection cid) st = deleteCollection cid env st"
| "apply_op env (OpSwitchCollection cid) st = switchCollection cid env st"
| "apply_op env (OpRemoveRule rid) st = removeRule rid env st"
| "apply_op env (OpToggleActive rid val) st = toggleActive rid val env st"
| "apply_op env (OpSaveRuleName rid) st = saveRuleName rid env st"
| "apply_op env (OpAddImportedRules rs n) st = addImportedRules rs n env st"

text \<open>
  The invariant of the store: at least one collection, and no identifier twice. An
  operation that creates a collection needs an identifier no collection has yet.
\<close>

definition collection_ids :: "store \<Rightarrow> string list" where
  "collection_ids st = map c_id (collections st)"

definition store_inv :: "store \<Rightarrow> bool" where
  "store_inv st = (collections st \<noteq> [] \<and> distinct (collection_ids st))"

fun fresh_for :: "store_op \<Rightarrow> store \<Rightarrow> bool" where
  "fresh_for (OpCreateCollection fresh_id) st = (fresh_id \<notin> set (collection_ids st))"
| "fresh_for op st = True"

text \<open>Example stores and a backend on which every save succeeds.\<close>

definition saves_ok :: save_env where
  "saves_ok = \<lparr>saveCollections_reply = Returns (Ok ()), saveSelected_reply = Returns (Ok ())\<rparr>"

definition store_of :: "collection list \<Rightarrow> string option \<Rightarrow> store" where
  "store_of cs sel =
     \<lparr>collections = cs, selectedCollectionId = sel, newCollectionName = '''',
      editingRuleId = None, editingRuleName = '''',
      selectedWorkspace = Some \<lparr>w_id = ''p1'', w_name = ''Project''\<rparr>, toasts = []\<rparr>"

definition empty_collection :: "string \<Rightarrow> string \<Rightarrow> collection" where
  "empty_collection i n = \<lparr>c_id = i, c_name = n, c_rules = []\<rparr>"

definition single_store :: store where
  "single_store = store_of [empty_collection ''a'' ''Global A''] (Some ''a'')"

definition pair_store :: store where
  "pair_store =
     store_of [empty_collection ''a'' ''Global A'', empty_collection ''b'' ''Global B''] (Some ''a'')"

definition duplicate_id_store :: store where
  "duplicate_id_store =
     store_of [empty_collection ''a'' ''Global A'', empty_collection ''a'' ''Global B''] (Some ''a'')"

section \<open>Loading the store\<close>

text \<open>
  The backend keeps the collections as JSON text in one row and the selected identifier
  in another. A stored text is represented by what \<^verbatim>\<open>JSON.parse\<close> makes of it: it
  throws a \<^verbatim>\<open>SyntaxError\<close> with some message, or it yields a JSON value of any kind (an
  array, an object, a string, a number, a boolean, \<^verbatim>\<open>null\<close>). \<open>getCollections\<close> casts
  the parsed value to \<^verbatim>\<open>Collection[]\<close> and checks nothing. A read of a row throws, finds
  no row, or finds the row's value.
\<close>

datatype stored_text = NotJson string | Json jsval

datatype 'a db_read = DbThrows thrown | DbRow "'a option"

definition getCollections :: "stored_text db_read \<Rightarrow> jsval result" where
  "getCollections db =
     (case db of
        DbThrows e \<Rightarrow> Error (''Failed to read collections: '' @ message_or_string e)
      | DbRow None \<Rightarrow> Ok (JArr [])
      | DbRow (Some (NotJson m)) \<Rightarrow> Error (''Failed to read collections: '' @ m)
      | DbRow (Some (Json v)) \<Rightarrow> Ok v)"

definition getSelectedCollectionId :: "string db_read \<Rightarrow> string option result" where
  "getSelectedCollectionId db =
     (case db of
        DbThrows e \<Rightarrow> Error (''Failed to read selected collection: '' @ message_or_string e)
      | DbRow v \<Rightarrow> Ok v)"

text \<open>
  \<open>load\<close> assigns whatever the backend returns, so the loaded collections are a JSON
  value, and so is the selected identifier (\<^verbatim>\<open>collections.value[0].id\<close> of an unchecked
  element). \<open>createDefaultCollection\<close> takes the clock's reading as a parameter.
\<close>

definition createDefaultCollection :: "string \<Rightarrow> jsval" where
  "createDefaultCollection now =
     JObj [(''id'', JStr now), (''name'', JStr ''Global Template''), (''rules'', JArr [])]"

record loaded =
  l_collections :: jsval
  l_selectedCollectionId :: jsval

text \<open>
  \<^verbatim>\<open>v > 0\<close> on a JSON value: a number is compared, a boolean counts as 1 or 0, \<^verbatim>\<open>null\<close>
  as 0, and \<^verbatim>\<open>undefined\<close> and an object as \<^verbatim>\<open>NaN\<close>. A string or an array is converted
  to a number by rules that are not modelled: \<open>conv v\<close> stands for the outcome of the
  comparison for such a \<open>v\<close>, and every statement below holds for every \<open>conv\<close>.
\<close>

fun greater_than_zero :: "(jsval \<Rightarrow> bool) \<Rightarrow> jsval \<Rightarrow> bool" where
  "greater_than_zero conv (JNum n) = (n > 0)"
| "greater_than_zero conv (JBool b) = b"
| "greater_than_zero conv (JStr s) = conv (JStr s)"
| "greater_than_zero conv (JArr xs) = conv (JArr xs)"
| "greater_than_zero conv v = False"

text \<open>
  \<^verbatim>\<open>v.length > 0\<close>: the read throws a TypeError (\<open>None\<close>) on \<^verbatim>\<open>null\<close> and
  \<^verbatim>\<open>undefined\<close>; an array and a string have their length; an object has the property
  \<open>length\<close> only if it owns it; a number and a boolean have none.
\<close>

fun length_positive :: "(jsval \<Rightarrow> bool) \<Rightarrow> jsval \<Rightarrow> bool option" where
  "length_positive conv JUndefined = None"
| "length_positive conv JNull = None"
| "length_positive conv (JArr xs) = Some (length xs > 0)"
| "length_positive conv (JStr s) = Some (length s > 0)"
| "length_positive conv (JObj kvs) = Some (greater_than_zero conv (get_prop (JObj kvs) ''length''))"
| "length_positive conv v = Some False"

record load_env =
  sdk_present :: bool
  clock :: string
  getCollections_reply :: "jsval result call"
  getSelectedCollectionId_reply :: "string option result call"
  string_or_array_positive :: "jsval \<Rightarrow> bool"

text \<open>\<^verbatim>\<open>v.k\<close> where \<open>v\<close> may be \<^verbatim>\<open>null\<close>: the read throws a TypeError (\<open>None\<close>).\<close>

definition read_prop :: "jsval \<Rightarrow> string \<Rightarrow> jsval option" where
  "read_prop v k = (if v = JNull \<or> v = JUndefined then None else Some (get_prop v k))"

text \<open>
  \<^verbatim>\<open>v[0]\<close>: the first element of an array, the first character of a string, the property
  \<open>0\<close> of an object, \<^verbatim>\<open>undefined\<close> where there is none; the read throws on \<^verbatim>\<open>null\<close> and
  \<^verbatim>\<open>undefined\<close>.
\<close>

fun element0 :: "jsval \<Rightarrow> jsval option" where
  "element0 JUndefined = None"
| "element0 JNull = None"
| "element0 (JArr xs) = Some (case xs of [] \<Rightarrow> JUndefined | x # rest \<Rightarrow> x)"
| "element0 (JStr s) = Some (case s of [] \<Rightarrow> JUndefined | c # rest \<Rightarrow> JStr [c])"
| "element0 (JObj kvs) = Some (get_prop (JObj kvs) ''0'')"
| "element0 v = Some JUndefined"

text \<open>\<^verbatim>\<open>collections.value[0].id\<close>\<close>

definition first_element_id :: "jsval \<Rightarrow> jsval option" where
  "first_element_id cols = (case element0 cols of None \<Rightarrow> None | Some c \<Rightarrow> read_prop c ''id'')"

text \<open>
  \<^verbatim>\<open>collections.value.find((c) => c.id === wanted)\<close>: \<open>None\<close> when the call throws,
  \<open>Some None\<close> for \<^verbatim>\<open>undefined\<close>, \<open>Some (Some c)\<close> for the first element whose \<open>id\<close> is
  the wanted string. On an array the call throws when the callback does, on an element
  before a match; only an array has a callable \<^verbatim>\<open>find\<close>.
\<close>

fun find_in :: "jsval list \<Rightarrow> string \<Rightarrow> jsval option option" where
  "find_in [] wanted = Some None"
| "find_in (c # cs) wanted =
     (case read_prop c ''id'' of
        None \<Rightarrow> None
      | Some i \<Rightarrow> if i = JStr wanted then Some (Some c) else find_in cs wanted)"

fun find_by_id :: "jsval \<Rightarrow> string \<Rightarrow> jsval option option" where
  "find_by_id (JArr xs) wanted = find_in xs wanted"
| "find_by_id v wanted = None"

text \<open>
  The three assignments to \<open>selectedCollectionId\<close> in the \<^verbatim>\<open>try\<close> block, each
  \<open>None\<close> when it throws. \<open>select_if_unset\<close> is
  \<^verbatim>\<open>if (collections.value.length > 0 && !selectedCollectionId.value) ...\<close>, which occurs
  twice; \<open>select_stored\<close> is the block that handles the stored identifier.
\<close>

definition select_if_unset :: "(jsval \<Rightarrow> bool) \<Rightarrow> jsval \<Rightarrow> jsval \<Rightarrow> jsval option" where
  "select_if_unset conv cols sel =
     (case length_positive conv cols of
        None \<Rightarrow> None
      | Some pos \<Rightarrow>
          if pos \<and> \<not> truthy sel then first_element_id cols else Some sel)"

definition first_if_any :: "(jsval \<Rightarrow> bool) \<Rightarrow> jsval \<Rightarrow> jsval \<Rightarrow> jsval option" where
  "first_if_any conv cols sel =
     (case length_positive conv cols of
        None \<Rightarrow> None
      | Some pos \<Rightarrow> if pos then first_element_id cols else Some sel)"

definition select_stored ::
  "(jsval \<Rightarrow> bool) \<Rightarrow> jsval \<Rightarrow> string option result \<Rightarrow> jsval \<Rightarrow> jsval option" where
  "select_stored conv cols selectedResult sel =
     (case selectedResult of
        Error e \<Rightarrow> Some sel
      | Ok None \<Rightarrow> Some sel
      | Ok (Some v) \<Rightarrow>
          if length (trim v) > 0
          then (case find_by_id cols v of
                  None \<Rightarrow> None
                | Some (Some found) \<Rightarrow>
                    if truthy found then read_prop found ''id''
                    else first_if_any conv cols sel
                | Some None \<Rightarrow> first_if_any conv cols sel)
          else Some sel)"

definition default_loaded :: "string \<Rightarrow> loaded" where
  "default_loaded now =
     \<lparr>l_collections = JArr [createDefaultCollection now], l_selectedCollectionId = JStr now\<rparr>"

text \<open>
  The first statement of the \<^verbatim>\<open>try\<close> block after the call: the value \<open>collections\<close> is
  set to, \<open>None\<close> when the test \<^verbatim>\<open>collectionsResult.value.length > 0\<close> throws.
\<close>

definition adopt_or_default :: "(jsval \<Rightarrow> bool) \<Rightarrow> string \<Rightarrow> jsval result \<Rightarrow> jsval option" where
  "adopt_or_default conv now collectionsResult =
     (case collectionsResult of
        Error e \<Rightarrow> Some (JArr [createDefaultCollection now])
      | Ok v \<Rightarrow>
         (case length_positive conv v of
            None \<Rightarrow> None
          | Some pos \<Rightarrow> Some (if pos then v else JArr [createDefaultCollection now])))"

text \<open>
  \<open>load\<close>, on the selected identifier \<open>sel0\<close> the component holds when it is called (it
  is called once, from \<^verbatim>\<open>onMounted\<close>, when the identifier is still \<^verbatim>\<open>undefined\<close>). A
  throw anywhere in the \<^verbatim>\<open>try\<close> block ends in the \<^verbatim>\<open>catch\<close>, which installs the
  default collection.
\<close>

definition load :: "load_env \<Rightarrow> jsval \<Rightarrow> loaded" where
  "load env sel0 =
     (if \<not> sdk_present env then default_loaded (clock env)
      else
        case getCollections_reply env of
          Throws e \<Rightarrow> default_loaded (clock env)
        | Returns collectionsResult \<Rightarrow>
           (case adopt_or_default (string_or_array_positive env) (clock env) collectionsResult of
              None \<Rightarrow> default_loaded (clock env)
            | Some cols \<Rightarrow>
               (case select_if_unset (string_or_array_positive env) cols sel0 of
                  None \<Rightarrow> default_loaded (clock env)
                | Some sel1 \<Rightarrow>
                   (case getSelectedCollectionId_reply env of
                      Throws e \<Rightarrow> default_loaded (clock env)
                    | Returns selectedResult \<Rightarrow>
                       (case select_stored (string_or_array_positive env) cols selectedResult sel1 of
                          None \<Rightarrow> default_loaded (clock env)
                        | Some sel2 \<Rightarrow>
                           (case select_if_unset (string_or_array_positive env) cols sel2 of
                              None \<Rightarrow> default_loaded (clock env)
                            | Some sel3 \<Rightarrow>
                                \<lparr>l_collections = cols, l_selectedCollectionId = sel3\<rparr>))))))"

text \<open>
  A frontend whose two backend calls read the given rows, and two stored texts that
  parse: an array whose one element has no \<open>name\<close> and no \<open>rules\<close>, and an array of a
  number.
\<close>

definition reading ::
  "(jsval \<Rightarrow> bool) \<Rightarrow> string \<Rightarrow> stored_text db_read \<Rightarrow> string db_read \<Rightarrow> load_env" where
  "reading conv now collections_row selected_row =
     \<lparr>sdk_present = True, clock = now,
      getCollections_reply = Returns (getCollections collections_row),
      getSelectedCollectionId_reply = Returns (getSelectedCollectionId selected_row),
      string_or_array_positive = conv\<rparr>"

definition missing_fields_row :: "stored_text db_read" where
  "missing_fields_row = DbRow (Some (Json (JArr [JObj [(''id'', JStr ''x'')]])))"

definition wrong_types_row :: "stored_text db_read" where
  "wrong_types_row = DbRow (Some (Json (JArr [JNum 1])))"

section \<open>Syncing to the host\<close>

text \<open>
  \<open>onSyncToSelected\<close> talks to the host through awaited calls. The calls that change
  the host are recorded, in order, in a trace; a call is recorded whether it returns or
  throws. The environment fixes what each call does: \<open>host_reply env n\<close> is the outcome of
  the call made when \<open>n\<close> calls have been recorded, and for a call that returns an object
  the returned string is the object's \<open>id\<close>.
\<close>

record host_collection =
  hc_id :: string
  hc_name :: string
  hc_ruleIds :: "string list"

datatype host_call =
    CallSwitch string
  | CallSetCurrent string
  | CallDeleteCollection string
  | CallCreateCollection string
  | CallCreateRule string string string jsval
  | CallToggleRule string bool

text \<open>
  What \<^verbatim>\<open>sdk.projects\<close> offers: \<^verbatim>\<open>switch\<close> (tested first), else \<^verbatim>\<open>setCurrent\<close>, else
  neither.
\<close>

datatype projects_api = HasSwitch | HasSetCurrent | HasNeither

record sync_env =
  getCurrentProject_reply :: "workspace option result call"
  projects_api :: projects_api
  existingCollections_reply :: "host_collection list call"
  host_reply :: "nat \<Rightarrow> string call"

definition host_do :: "sync_env \<Rightarrow> host_call \<Rightarrow> host_call list \<Rightarrow> string call \<times> host_call list" where
  "host_do env c tr = (host_reply env (length tr), tr @ [c])"

text \<open>
  The checks between \<open>toSection\<close> and \<open>createRule\<close>; each failing check skips the rule
  with a warning on the console, so they are one predicate.
\<close>

definition sendable :: "jsval \<Rightarrow> bool" where
  "sendable section =
     (let operation = get_prop section ''operation'' in
      truthy section \<and> operation \<noteq> JUndefined
      \<and> is_object section \<and> has_key section ''kind''
      \<and> truthy operation \<and> is_object operation
      \<and> (if get_prop operation ''kind'' = JStr ''OperationBodyRaw''
          then (if has_key operation ''raw'' \<and> truthy (get_prop operation ''raw'')
                then \<not> lacks_kind (get_prop (get_prop operation ''raw'') ''matcher'')
                     \<and> \<not> lacks_kind (get_prop (get_prop operation ''raw'') ''replacer'')
                else if has_key operation ''matcher'' \<and> has_key operation ''replacer''
                then \<not> lacks_kind (get_prop operation ''matcher'')
                     \<and> \<not> lacks_kind (get_prop operation ''replacer'')
                else False)
          else has_key operation ''kind''))"

text \<open>\<^verbatim>\<open>!r.section || !r.name\<close>, the guard that skips a rule before translation.\<close>

definition lacks_section_or_name :: "rule \<Rightarrow> bool" where
  "lacks_section_or_name r = (r_section r = [] \<or> r_name r = [])"

text \<open>The arguments of \<open>createRule\<close> for a rule: name, query, and the translated section.\<close>

definition rule_query :: "rule \<Rightarrow> string" where
  "rule_query r =
     (case r_condition r of
        None \<Rightarrow> ''''
      | Some c \<Rightarrow> if length (trim c) > 0 then c else '''')"

definition sent_name :: "rule \<Rightarrow> string" where
  "sent_name r = (if length (r_name r) > 0 then r_name r else r_section r)"

text \<open>
  The body of the loop over the rules of a collection: the new trace, and whether
  \<open>ruleCount\<close> went up. Every way out other than the last is a \<^verbatim>\<open>continue\<close> or the
  rule's own \<^verbatim>\<open>catch\<close>.
\<close>

definition sync_rule :: "sync_env \<Rightarrow> string \<Rightarrow> rule \<Rightarrow> host_call list \<Rightarrow> host_call list \<times> bool" where
  "sync_rule env createdId r tr =
     (if lacks_section_or_name r then (tr, False)
      else
        case toSection r of
          Inl e \<Rightarrow> (tr, False)
        | Inr section \<Rightarrow>
            if \<not> sendable section then (tr, False)
            else
              (case host_do env (CallCreateRule createdId (sent_name r) (rule_query r) section) tr of
                 (Throws e, tr1) \<Rightarrow> (tr1, False)
               | (Returns ruleId, tr1) \<Rightarrow>
                  (case host_do env (CallToggleRule ruleId (r_active r)) tr1 of
                     (Throws e, tr2) \<Rightarrow> (tr2, False)
                   | (Returns u, tr2) \<Rightarrow> (tr2, True))))"

fun sync_rules ::
  "sync_env \<Rightarrow> string \<Rightarrow> rule list \<Rightarrow> host_call list \<Rightarrow> nat \<Rightarrow> host_call list \<times> nat" where
  "sync_rules env createdId [] tr ruleCount = (tr, ruleCount)"
| "sync_rules env createdId (r # rs) tr ruleCount =
     (case sync_rule env createdId r tr of
        (tr1, counted) \<Rightarrow>
          sync_rules env createdId rs tr1 (if counted then ruleCount + 1 else ruleCount))"

record sync_state =
  trace :: "host_call list"
  totalCollectionsSynced :: nat
  totalRulesSynced :: nat
  failedCollections :: "string list"

text \<open>
  The body of the loop over the collections. \<open>existing\<close> is the list of host collections
  fetched once before the loop. A throw of \<open>deleteCollection\<close> or \<open>createCollection\<close>
  ends in the collection's \<^verbatim>\<open>catch\<close>, which records the name as failed.
\<close>

definition eligible :: "collection \<Rightarrow> bool" where
  "eligible c = (length (c_rules c) \<noteq> 0 \<and> length (trim (c_name c)) \<noteq> 0)"

definition same_named :: "host_collection list \<Rightarrow> string \<Rightarrow> host_collection option" where
  "same_named existing name = find (\<lambda>h. hc_name h = name) existing"

definition sync_collection ::
  "sync_env \<Rightarrow> host_collection list \<Rightarrow> collection \<Rightarrow> sync_state \<Rightarrow> sync_state" where
  "sync_collection env existing c st =
     (if length (c_rules c) = 0 then st
      else
        let name = trim (c_name c) in
        if length name = 0 then st
        else
          case (case same_named existing name of
                  None \<Rightarrow> (Returns '''', trace st)
                | Some e \<Rightarrow> host_do env (CallDeleteCollection (hc_id e)) (trace st)) of
            (Throws x, tr1) \<Rightarrow>
              st\<lparr>trace := tr1, failedCollections := failedCollections st @ [name]\<rparr>
          | (Returns u, tr1) \<Rightarrow>
             (case host_do env (CallCreateCollection name) tr1 of
                (Throws x, tr2) \<Rightarrow>
                  st\<lparr>trace := tr2, failedCollections := failedCollections st @ [name]\<rparr>
              | (Returns createdId, tr2) \<Rightarrow>
                 (case sync_rules env createdId (c_rules c) tr2 0 of
                    (tr3, ruleCount) \<Rightarrow>
                      st\<lparr>trace := tr3,
                         totalCollectionsSynced := totalCollectionsSynced st + 1,
                         totalRulesSynced := totalRulesSynced st + ruleCount\<rparr>)))"

fun sync_collections ::
  "sync_env \<Rightarrow> host_collection list \<Rightarrow> collection list \<Rightarrow> sync_state \<Rightarrow> sync_state" where
  "sync_collections env existing [] st = st"
| "sync_collections env existing (c # cs) st =
     sync_collections env existing cs (sync_collection env existing c st)"

text \<open>
  The switch of the host's project before the sync: the trace, and what was thrown if
  the call threw.
\<close>

definition switch_project ::
  "sync_env \<Rightarrow> workspace option result \<Rightarrow> workspace \<Rightarrow> host_call list \<times> thrown option" where
  "switch_project env currentResult ws =
     (case currentResult of
        Error e \<Rightarrow> ([], None)
      | Ok current \<Rightarrow>
          if map_option w_id current \<noteq> Some (w_id ws) \<and> w_id ws \<noteq> ''current''
          then (case projects_api env of
                  HasSwitch \<Rightarrow>
                    (case host_do env (CallSwitch (w_id ws)) [] of
                       (Throws x, tr) \<Rightarrow> (tr, Some x)
                     | (Returns u, tr) \<Rightarrow> (tr, None))
                | HasSetCurrent \<Rightarrow>
                    (case host_do env (CallSetCurrent (w_id ws)) [] of
                       (Throws x, tr) \<Rightarrow> (tr, Some x)
                     | (Returns u, tr) \<Rightarrow> (tr, None))
                | HasNeither \<Rightarrow> ([], None))
          else ([], None))"

record sync_outcome =
  shown :: toast
  calls :: "host_call list"

definition sync_failed :: "thrown \<Rightarrow> host_call list \<Rightarrow> sync_outcome" where
  "sync_failed e tr =
     \<lparr>shown = (Text (''Failed to sync collections: '' @ message_or_unknown e), VariantError),
      calls = tr\<rparr>"

definition onSyncToSelected :: "sync_env \<Rightarrow> store \<Rightarrow> sync_outcome" where
  "onSyncToSelected env st =
     (if length (collections st) = 0
      then \<lparr>shown = (Text ''No collections to sync'', VariantError), calls = []\<rparr>
      else if \<not> list_ex (\<lambda>c. length (c_rules c) > 0) (collections st)
      then \<lparr>shown = (Text ''At least one collection must have rules'', VariantError), calls = []\<rparr>
      else
        case selectedWorkspace st of
          None \<Rightarrow> \<lparr>shown = (Text ''Please select a project'', VariantError), calls = []\<rparr>
        | Some ws \<Rightarrow>
           (case getCurrentProject_reply env of
              Throws e \<Rightarrow> sync_failed e []
            | Returns currentResult \<Rightarrow>
               (case switch_project env currentResult ws of
                  (tr0, Some e) \<Rightarrow> sync_failed e tr0
                | (tr0, None) \<Rightarrow>
                   (case existingCollections_reply env of
                      Throws e \<Rightarrow> sync_failed e tr0
                    | Returns existing \<Rightarrow>
                        let final = sync_collections env existing (collections st)
                                      \<lparr>trace = tr0, totalCollectionsSynced = 0,
                                       totalRulesSynced = 0, failedCollections = []\<rparr>
                        in if length (failedCollections final) > 0
                           then \<lparr>shown = (SyncedFailed (totalCollectionsSynced final)
                                            (totalRulesSynced final) (failedCollections final),
                                          VariantWarning),
                                 calls = trace final\<rparr>
                           else \<lparr>shown = (SyncedTo (totalCollectionsSynced final)
                                            (totalRulesSynced final) (w_name ws),
                                          VariantSuccess),
                                 calls = trace final\<rparr>))))"

text \<open>
  Reading a trace: the calls that concern collections, the \<open>deleteCollection\<close> calls,
  the \<open>createRule\<close> calls, and the rule calls. An environment is cooperative when every
  call returns.
\<close>

fun is_collection_call :: "host_call \<Rightarrow> bool" where
  "is_collection_call (CallDeleteCollection i) = True"
| "is_collection_call (CallCreateCollection n) = True"
| "is_collection_call c = False"

fun is_deleteCollection :: "host_call \<Rightarrow> bool" where
  "is_deleteCollection (CallDeleteCollection i) = True"
| "is_deleteCollection c = False"

fun is_createRule :: "host_call \<Rightarrow> bool" where
  "is_createRule (CallCreateRule i n q s) = True"
| "is_createRule c = False"

fun is_rule_call :: "host_call \<Rightarrow> bool" where
  "is_rule_call (CallCreateRule i n q s) = True"
| "is_rule_call (CallToggleRule i b) = True"
| "is_rule_call c = False"

text \<open>
  What replacing by name asks of the host for a local collection, read off the names
  alone: the deletion of the first host collection whose name is exactly the trimmed
  local name, if the host has one, and then the creation of a collection of that name.
\<close>

definition delete_calls :: "host_collection list \<Rightarrow> collection \<Rightarrow> host_call list" where
  "delete_calls existing c =
     map (\<lambda>h. CallDeleteCollection (hc_id h))
       (take 1 (filter (\<lambda>h. hc_name h = trim (c_name c)) existing))"

definition replace_calls :: "host_collection list \<Rightarrow> collection \<Rightarrow> host_call list" where
  "replace_calls existing c =
     delete_calls existing c @ [CallCreateCollection (trim (c_name c))]"

definition returns :: "'a call \<Rightarrow> bool" where
  "returns r = (case r of Throws e \<Rightarrow> False | Returns v \<Rightarrow> True)"

definition cooperative :: "sync_env \<Rightarrow> bool" where
  "cooperative env =
     (returns (getCurrentProject_reply env) \<and> returns (existingCollections_reply env)
      \<and> (\<forall>n. returns (host_reply env n)))"

text \<open>The section \<open>toSection\<close> yields for a rule that it translates (unused otherwise).\<close>

definition section_of :: "rule \<Rightarrow> jsval" where
  "section_of r = (case toSection r of Inl e \<Rightarrow> JUndefined | Inr s \<Rightarrow> s)"

definition createRule_call :: "string \<Rightarrow> rule \<Rightarrow> host_call" where
  "createRule_call createdId r =
     CallCreateRule createdId (sent_name r) (rule_query r) (section_of r)"

text \<open>An environment in which every call returns, and a store with one collection of five rules.\<close>

definition all_ok :: sync_env where
  "all_ok =
     \<lparr>getCurrentProject_reply = Returns (Ok (Some \<lparr>w_id = ''p1'', w_name = ''Project''\<rparr>)),
      projects_api = HasSwitch,
      existingCollections_reply = Returns [\<lparr>hc_id = ''h1'', hc_name = ''Global A'', hc_ruleIds = []\<rparr>],
      host_reply = (\<lambda>n. Returns ''h'')\<rparr>"

definition five_rules :: "rule list" where
  "five_rules =
     [example_rule ''RequestHeader'', example_rule ''RequestBody'', example_rule '''',
      example_rule ''ResponseBody'', example_rule ''RequestPath'']"

definition five_rule_store :: store where
  "five_rule_store =
     store_of [\<lparr>c_id = ''a'', c_name = ''Global A'', c_rules = five_rules\<rparr>] (Some ''a'')"

text \<open>
  The part of a collection's step that follows the deletion: \<open>createCollection\<close>, then
  the rules.
\<close>

definition create_and_fill ::
  "sync_env \<Rightarrow> string \<Rightarrow> rule list \<Rightarrow> host_call list \<Rightarrow> sync_state \<Rightarrow> sync_state" where
  "create_and_fill env name rs tr1 st =
     (case host_do env (CallCreateCollection name) tr1 of
        (Throws x, tr2) \<Rightarrow>
          st\<lparr>trace := tr2, failedCollections := failedCollections st @ [name]\<rparr>
      | (Returns createdId, tr2) \<Rightarrow>
         (case sync_rules env createdId rs tr2 0 of
            (tr3, ruleCount) \<Rightarrow>
              st\<lparr>trace := tr3,
                 totalCollectionsSynced := totalCollectionsSynced st + 1,
                 totalRulesSynced := totalRulesSynced st + ruleCount\<rparr>))"

text \<open>The state the loop over the collections starts in, after the calls \<open>tr0\<close>.\<close>

definition initial_sync_state :: "host_call list \<Rightarrow> sync_state" where
  "initial_sync_state tr0 =
     \<lparr>trace = tr0, totalCollectionsSynced = 0, totalRulesSynced = 0, failedCollections = []\<rparr>"

definition five_rule_collection :: collection where
  "five_rule_collection = \<lparr>c_id = ''a'', c_name = ''Global A'', c_rules = five_rules\<rparr>"

text \<open>
  A host with three collections, two of them of the same name, and four local
  collections: one whose name needs trimming, one with rules and a name of white space
  only, one without rules (its name is that of a host collection), and one whose name
  the host does not have. \<open>three_hosts_ok\<close> answers every call; in \<open>deletion_fails\<close>
  every call to the host throws.
\<close>

definition three_hosts :: "host_collection list" where
  "three_hosts =
     [\<lparr>hc_id = ''h0'', hc_name = ''Global'', hc_ruleIds = []\<rparr>,
      \<lparr>hc_id = ''h1'', hc_name = ''Global A'', hc_ruleIds = []\<rparr>,
      \<lparr>hc_id = ''h2'', hc_name = ''Global A'', hc_ruleIds = []\<rparr>]"

definition padded_collection :: collection where
  "padded_collection = \<lparr>c_id = ''a'', c_name = ''  Global A '', c_rules = five_rules\<rparr>"

definition blank_named_collection :: collection where
  "blank_named_collection = \<lparr>c_id = ''b'', c_name = ''   '', c_rules = five_rules\<rparr>"

definition unmatched_collection :: collection where
  "unmatched_collection =
     \<lparr>c_id = ''d'', c_name = ''New'', c_rules = [example_rule ''RequestPath'']\<rparr>"

definition four_collections :: "collection list" where
  "four_collections =
     [padded_collection, blank_named_collection, empty_collection ''c'' ''Global'',
      unmatched_collection]"

definition four_collection_store :: store where
  "four_collection_store = store_of four_collections (Some ''a'')"

definition three_hosts_ok :: sync_env where
  "three_hosts_ok =
     \<lparr>getCurrentProject_reply = Returns (Ok (Some \<lparr>w_id = ''p1'', w_name = ''Project''\<rparr>)),
      projects_api = HasSwitch,
      existingCollections_reply = Returns three_hosts,
      host_reply = (\<lambda>n. Returns ''h'')\<rparr>"

definition deletion_fails :: sync_env where
  "deletion_fails =
     \<lparr>getCurrentProject_reply = Returns (Ok (Some \<lparr>w_id = ''p1'', w_name = ''Project''\<rparr>)),
      projects_api = HasSwitch,
      existingCollections_reply = Returns three_hosts,
      host_reply = (\<lambda>n. Throws (ErrorObject ''forbidden''))\<rparr>"

lemmas str_eval = is_ws_def trim_def toLowerCase_def toLowerCase_char_def upper_chars_def
  lower_chars_def startsWith_def ensureGlobalPrefix_def normalizeHttpqlQuery_def

section \<open>Facts about the string functions\<close>

lemma trim_all_ws: "(\<forall>c \<in> set s. is_ws c) \<Longrightarrow> trim s = []"
proof -
  assume "\<forall>c \<in> set s. is_ws c"
  then have "dropWhile is_ws s = []" by simp
  then show ?thesis unfolding trim_def by (simp only: rev.simps dropWhile.simps)
qed

lemma length_case_tables: "length upper_chars = length lower_chars"
  by (simp add: upper_chars_def lower_chars_def)

lemma lower_not_upper: "set lower_chars \<inter> set upper_chars = {}"
  by (simp add: lower_chars_def upper_chars_def)

lemma ws_not_upper: "is_ws c \<Longrightarrow> c \<notin> set upper_chars"
  by (auto simp add: is_ws_def upper_chars_def)

lemma ws_not_lower: "is_ws c \<Longrightarrow> c \<notin> set lower_chars"
  by (auto simp add: is_ws_def lower_chars_def)

lemma toLowerCase_char_cases:
  "(c \<notin> set upper_chars \<and> toLowerCase_char c = c)
   \<or> (c \<in> set upper_chars \<and> toLowerCase_char c \<in> set lower_chars)"
proof (cases "map_of (zip upper_chars lower_chars) c")
  case None
  then have "c \<notin> set upper_chars"
    using map_of_zip_is_None [OF length_case_tables, of c] by simp
  with None show ?thesis by (simp add: toLowerCase_char_def)
next
  case (Some d)
  then have "(c, d) \<in> set (zip upper_chars lower_chars)"
    by (rule map_of_SomeD)
  then have "c \<in> set upper_chars" and "d \<in> set lower_chars"
    by (auto dest: set_zip_leftD set_zip_rightD)
  with Some show ?thesis by (simp add: toLowerCase_char_def)
qed

lemma is_ws_toLowerCase_char: "is_ws (toLowerCase_char c) = is_ws c"
  using toLowerCase_char_cases [of c] ws_not_upper [of c] ws_not_lower [of "toLowerCase_char c"]
  by auto

lemma toLowerCase_char_idem: "toLowerCase_char (toLowerCase_char c) = toLowerCase_char c"
  using toLowerCase_char_cases [of c] toLowerCase_char_cases [of "toLowerCase_char c"]
    lower_not_upper by auto

lemma dropWhile_ws_lower:
  "dropWhile is_ws (map toLowerCase_char s) = map toLowerCase_char (dropWhile is_ws s)"
  by (induction s) (simp_all add: is_ws_toLowerCase_char)

lemma trim_toLowerCase: "trim (toLowerCase s) = toLowerCase (trim s)"
  by (simp add: trim_def toLowerCase_def dropWhile_ws_lower rev_map)

lemma toLowerCase_idem: "toLowerCase (toLowerCase s) = toLowerCase s"
  by (simp add: toLowerCase_def toLowerCase_char_idem)

lemma Global_append_neq: "''Global '' @ t \<noteq> t"
proof
  assume "''Global '' @ t = t"
  then have "length (''Global '' @ t) = length t" by simp
  then show False by simp
qed

lemma ensureGlobalPrefix_cases:
  "ensureGlobalPrefix s =
     (if startsWith (toLowerCase (trim s)) ''global'' then trim s else ''Global '' @ trim s)"
  by (simp add: ensureGlobalPrefix_def Let_def)

text \<open>
  Claim C7. The three stated examples hold: \<open>"Global Foo"\<close> and \<open>"GLOBAL bar"\<close> come back
  as they are, \<open>"foo"\<close> becomes \<open>"Global foo"\<close>. The check is case-insensitive: whether the
  name is kept depends only on the lower-cased input. The casing is preserved: the result
  always ends with the trimmed input, letter for letter.
\<close>

theorem ensureGlobalPrefix_examples:
  "ensureGlobalPrefix ''Global Foo'' = ''Global Foo''
   \<and> ensureGlobalPrefix ''foo'' = ''Global foo''
   \<and> ensureGlobalPrefix ''GLOBAL bar'' = ''GLOBAL bar''
   \<and> ((ensureGlobalPrefix (toLowerCase s) = trim (toLowerCase s)) = (ensureGlobalPrefix s = trim s))
   \<and> suffix (trim s) (ensureGlobalPrefix s)"
proof -
  have e1: "ensureGlobalPrefix ''Global Foo'' = ''Global Foo''"
    by (simp add: str_eval)
  have e2: "ensureGlobalPrefix ''foo'' = ''Global foo''"
    by (simp add: str_eval)
  have e3: "ensureGlobalPrefix ''GLOBAL bar'' = ''GLOBAL bar''"
    by (simp add: str_eval)
  have kept: "(ensureGlobalPrefix t = trim t) = startsWith (toLowerCase (trim t)) ''global''" for t
    using Global_append_neq [of "trim t"] by (simp add: ensureGlobalPrefix_cases)
  have ci: "(ensureGlobalPrefix (toLowerCase s) = trim (toLowerCase s)) = (ensureGlobalPrefix s = trim s)"
    unfolding kept by (simp add: trim_toLowerCase toLowerCase_idem)
  have suf: "suffix (trim s) (ensureGlobalPrefix s)"
    by (simp add: ensureGlobalPrefix_cases suffix_def)
  from e1 e2 e3 ci suf show ?thesis by blast
qed

text \<open>
  Claim C8. \<open>normalizeHttpqlQuery "a~b"\<close> is \<open>"a ~ b"\<close>, and every input made of white space
  only is normalised to the empty string.
\<close>

theorem normalizeHttpqlQuery_spec:
  "normalizeHttpqlQuery ''a~b'' = ''a ~ b''
   \<and> ((\<forall>c \<in> set s. is_ws c) \<longrightarrow> normalizeHttpqlQuery s = '''')"
proof -
  have "normalizeHttpqlQuery ''a~b'' = ''a ~ b''"
    by (simp add: str_eval)
  moreover have "(\<forall>c \<in> set s. is_ws c) \<longrightarrow> normalizeHttpqlQuery s = ''''"
    by (simp add: normalizeHttpqlQuery_def trim_all_ws)
  ultimately show ?thesis by blast
qed

theorem normalizeHttpqlQuery_spec_witness:
  "list_all is_ws [CHR '' '', CHR 0x09, CHR 0x0A]
   \<and> normalizeHttpqlQuery [CHR '' '', CHR 0x09, CHR 0x0A] = ''''"
proof -
  have ws: "list_all is_ws [CHR '' '', CHR 0x09, CHR 0x0A]"
    by (simp add: is_ws_def)
  then have "\<forall>c \<in> set [CHR '' '', CHR 0x09, CHR 0x0A]. is_ws c"
    by (simp only: list_all_iff)
  with ws normalizeHttpqlQuery_spec [of "[CHR '' '', CHR 0x09, CHR 0x0A]"] show ?thesis
    by blast
qed

text \<open>
  Claim C10. Whenever the trimmed input starts with \<open>"global"\<close> in any casing, the result
  is the trimmed input itself, with or without a space or word boundary behind the
  prefix (\<open>"globalization"\<close> stays \<open>"globalization"\<close>); the literal \<open>"Global "\<close> is put in
  front exactly when that check fails.
\<close>

theorem ensureGlobalPrefix_substring_check:
  "(startsWith (toLowerCase (trim s)) ''global'' \<longrightarrow> ensureGlobalPrefix s = trim s)
   \<and> ((ensureGlobalPrefix s = ''Global '' @ trim s) = (\<not> startsWith (toLowerCase (trim s)) ''global''))
   \<and> ensureGlobalPrefix ''globalization'' = ''globalization''"
proof -
  have "ensureGlobalPrefix ''globalization'' = ''globalization''"
    by (simp add: str_eval)
  moreover have "(ensureGlobalPrefix s = ''Global '' @ trim s) = (\<not> startsWith (toLowerCase (trim s)) ''global'')"
    using Global_append_neq [of "trim s"] by (auto simp add: ensureGlobalPrefix_cases)
  moreover have "startsWith (toLowerCase (trim s)) ''global'' \<longrightarrow> ensureGlobalPrefix s = trim s"
    by (simp add: ensureGlobalPrefix_cases)
  ultimately show ?thesis by blast
qed

theorem ensureGlobalPrefix_substring_check_witness:
  "startsWith (toLowerCase (trim '' GLOBALs '')) ''global''
   \<and> ensureGlobalPrefix '' GLOBALs '' = ''GLOBALs''
   \<and> \<not> startsWith (toLowerCase (trim ''glo bal'')) ''global''
   \<and> ensureGlobalPrefix ''glo bal'' = ''Global glo bal''"
proof -
  have a: "startsWith (toLowerCase (trim '' GLOBALs '')) ''global''"
    by (simp add: str_eval)
  have t: "trim '' GLOBALs '' = ''GLOBALs''"
    by (simp add: str_eval)
  have b: "\<not> startsWith (toLowerCase (trim ''glo bal'')) ''global''"
    by (simp add: str_eval)
  have t2: "trim ''glo bal'' = ''glo bal''"
    by (simp add: str_eval)
  from a t ensureGlobalPrefix_substring_check [of "'' GLOBALs ''"]
  have c: "ensureGlobalPrefix '' GLOBALs '' = ''GLOBALs''" by simp
  from b t2 ensureGlobalPrefix_substring_check [of "''glo bal''"]
  have d: "ensureGlobalPrefix ''glo bal'' = ''Global glo bal''" by simp
  from a b c d show ?thesis by blast
qed

section \<open>Facts about the two translations\<close>

lemma lacks_kind_buildMatcher [simp]: "\<not> lacks_kind (buildMatcher mt v)"
  by (simp add: lacks_kind_def buildMatcher_def)

lemma lacks_kind_buildReplacer [simp]: "\<not> lacks_kind (buildReplacer rt v w)"
  by (simp add: lacks_kind_def buildReplacer_def split: option.splits)

lemma truthy_buildReplacer [simp]: "truthy (buildReplacer rt v w)"
  by (simp add: buildReplacer_def split: option.splits)

lemma toSection_RequestBody:
  "r_section r = ''RequestBody'' \<Longrightarrow>
   toSection r = Inr (JObj [(''kind'', JStr ''SectionRequestBody''),
      (''operation'', JObj [(''kind'', JStr ''OperationBodyRaw''),
          (''raw'', JObj [(''matcher'', buildMatcher (Some (case r_matcherType r of None \<Rightarrow> ''regex'' | Some t \<Rightarrow> t)) (r_matcher r)),
                         (''replacer'', buildReplacer (Some (case r_replacerType r of None \<Rightarrow> ''term'' | Some t \<Rightarrow> t)) (r_value r) (r_workflowId r))])])])"
  by (simp add: toSection_def Let_def)

lemma toSection_ResponseBody:
  "r_section r = ''ResponseBody'' \<Longrightarrow>
   toSection r = Inr (JObj [(''kind'', JStr ''SectionResponseBody''),
      (''operation'', JObj [(''kind'', JStr ''OperationBodyRaw''),
          (''matcher'', buildMatcher (Some (case r_matcherType r of None \<Rightarrow> ''regex'' | Some t \<Rightarrow> t)) (r_matcher r)),
          (''replacer'', buildReplacer (Some (case r_replacerType r of None \<Rightarrow> ''term'' | Some t \<Rightarrow> t)) (r_value r) (r_workflowId r))])])"
  by (simp add: toSection_def Let_def)

lemma header_section_op:
  "header_section sk l mt r p = Inr s \<Longrightarrow>
   get_prop (get_prop s ''operation'') ''kind'' \<noteq> JStr ''OperationBodyRaw''"
  by (auto simp add: header_section_def Let_def split: if_splits)

lemma toSection_body_shapes:
  assumes "toSection r = Inr s"
  shows "wrapped_body_op (get_prop s ''operation'') = (r_section r = ''RequestBody'')"
    and "direct_body_op (get_prop s ''operation'') = (r_section r = ''ResponseBody'')"
proof -
  consider (hdr) "r_section r = ''RequestHeader''" | (body) "r_section r = ''RequestBody''"
    | (meth) "r_section r = ''RequestMethod''" | (path) "r_section r = ''RequestPath''"
    | (query) "r_section r = ''RequestQuery''" | (rhdr) "r_section r = ''ResponseHeader''"
    | (rbody) "r_section r = ''ResponseBody''"
    | (other) "r_section r \<notin> {''RequestHeader'', ''RequestBody'', ''RequestMethod'', ''RequestPath'',
         ''RequestQuery'', ''ResponseHeader'', ''ResponseBody''}"
    by blast
  then have "wrapped_body_op (get_prop s ''operation'') = (r_section r = ''RequestBody'')
     \<and> direct_body_op (get_prop s ''operation'') = (r_section r = ''ResponseBody'')"
  proof cases
    case hdr
    with assms have "header_section ''SectionRequestHeader'' ''RequestHeader'' 
       (case r_matcherType r of None \<Rightarrow> ''regex'' | Some t \<Rightarrow> t) r
       (buildReplacer (Some (case r_replacerType r of None \<Rightarrow> ''term'' | Some t \<Rightarrow> t)) (r_value r) (r_workflowId r)) = Inr s"
      by (simp add: toSection_def Let_def)
    from header_section_op [OF this] hdr show ?thesis
      by (simp add: wrapped_body_op_def direct_body_op_def)
  next
    case body
    with assms toSection_RequestBody [OF body] show ?thesis
      by (auto simp add: wrapped_body_op_def direct_body_op_def)
  next
    case meth
    with assms show ?thesis
      by (auto simp add: toSection_def Let_def replacer_section_def wrapped_body_op_def direct_body_op_def)
  next
    case path
    with assms show ?thesis
      by (auto simp add: toSection_def Let_def named_section_def wrapped_body_op_def direct_body_op_def)
  next
    case query
    with assms show ?thesis
      by (auto simp add: toSection_def Let_def named_section_def wrapped_body_op_def direct_body_op_def)
  next
    case rhdr
    with assms have "header_section ''SectionResponseHeader'' ''ResponseHeader'' 
       (case r_matcherType r of None \<Rightarrow> ''regex'' | Some t \<Rightarrow> t) r
       (buildReplacer (Some (case r_replacerType r of None \<Rightarrow> ''term'' | Some t \<Rightarrow> t)) (r_value r) (r_workflowId r)) = Inr s"
      by (simp add: toSection_def Let_def)
    from header_section_op [OF this] rhdr show ?thesis
      by (simp add: wrapped_body_op_def direct_body_op_def)
  next
    case rbody
    with assms toSection_ResponseBody [OF rbody] show ?thesis
      by (auto simp add: wrapped_body_op_def direct_body_op_def)
  next
    case other
    with assms show ?thesis
      by (auto simp add: toSection_def Let_def replacer_section_def wrapped_body_op_def direct_body_op_def
          split: if_splits)
  qed
  then show "wrapped_body_op (get_prop s ''operation'') = (r_section r = ''RequestBody'')"
    and "direct_body_op (get_prop s ''operation'') = (r_section r = ''ResponseBody'')"
    by simp_all
qed

text \<open>
  Claim C2. A rule whose section is \<open>RequestBody\<close> always translates, and its operation
  is an \<open>OperationBodyRaw\<close> with matcher and replacer under a \<open>raw\<close> wrapper and not on
  the operation; a rule whose section is \<open>ResponseBody\<close> always translates, and its
  operation is an \<open>OperationBodyRaw\<close> with matcher and replacer as direct fields and no
  \<open>raw\<close>. Whatever \<open>toSection\<close> returns has the first shape only for \<open>RequestBody\<close>
  and the second only for \<open>ResponseBody\<close>.
\<close>

theorem toSection_body_asymmetry:
  "(r_section r = ''RequestBody'' \<longrightarrow>
      (\<exists>s. toSection r = Inr s \<and> wrapped_body_op (get_prop s ''operation'')))
   \<and> (r_section r = ''ResponseBody'' \<longrightarrow>
      (\<exists>s. toSection r = Inr s \<and> direct_body_op (get_prop s ''operation'')))
   \<and> (\<forall>s. toSection r = Inr s \<longrightarrow>
         wrapped_body_op (get_prop s ''operation'') = (r_section r = ''RequestBody'')
         \<and> direct_body_op (get_prop s ''operation'') = (r_section r = ''ResponseBody''))"
proof -
  have shapes: "wrapped_body_op (get_prop s ''operation'') = (r_section r = ''RequestBody'')
         \<and> direct_body_op (get_prop s ''operation'') = (r_section r = ''ResponseBody'')"
    if "toSection r = Inr s" for s
    using toSection_body_shapes [OF that] by simp
  have req: "\<exists>s. toSection r = Inr s \<and> wrapped_body_op (get_prop s ''operation'')"
    if "r_section r = ''RequestBody''"
    using toSection_RequestBody [OF that] shapes that by blast
  have resp: "\<exists>s. toSection r = Inr s \<and> direct_body_op (get_prop s ''operation'')"
    if "r_section r = ''ResponseBody''"
    using toSection_ResponseBody [OF that] shapes that by blast
  from shapes req resp show ?thesis by blast
qed

theorem toSection_body_asymmetry_witness:
  "r_section (example_rule ''RequestBody'') = ''RequestBody''
   \<and> (\<exists>s. toSection (example_rule ''RequestBody'') = Inr s
          \<and> wrapped_body_op (get_prop s ''operation'')
          \<and> \<not> direct_body_op (get_prop s ''operation''))
   \<and> r_section (example_rule ''ResponseBody'') = ''ResponseBody''
   \<and> (\<exists>s. toSection (example_rule ''ResponseBody'') = Inr s
          \<and> direct_body_op (get_prop s ''operation'')
          \<and> \<not> wrapped_body_op (get_prop s ''operation''))"
proof -
  have a: "r_section (example_rule ''RequestBody'') = ''RequestBody''"
    and b: "r_section (example_rule ''ResponseBody'') = ''ResponseBody''"
    by (simp_all add: example_rule_def)
  from a toSection_body_asymmetry [of "example_rule ''RequestBody''"]
  have c: "\<exists>s. toSection (example_rule ''RequestBody'') = Inr s
          \<and> wrapped_body_op (get_prop s ''operation'')
          \<and> \<not> direct_body_op (get_prop s ''operation'')"
    by auto
  from b toSection_body_asymmetry [of "example_rule ''ResponseBody''"]
  have d: "\<exists>s. toSection (example_rule ''ResponseBody'') = Inr s
          \<and> direct_body_op (get_prop s ''operation'')
          \<and> \<not> wrapped_body_op (get_prop s ''operation'')"
    by auto
  from a b c d show ?thesis by blast
qed

lemma is_string_JStr: "is_string v \<Longrightarrow> \<exists>s. v = JStr s"
  by (cases v) simp_all

lemma includes_any_str: "includes_any (JStr s) ns = Some (\<exists>n \<in> set ns. str_includes s n)"
  by (induction ns) auto

lemma first_match_str: "\<exists>x. first_match (JStr s) bs d = Some x"
  by (induction bs) (auto simp add: includes_any_str)

lemma first_match_miss:
  "list_all (\<lambda>b. list_all (\<lambda>n. \<not> str_includes s n) (fst b)) bs \<Longrightarrow> first_match (JStr s) bs d = Some d"
  by (induction bs) (auto simp add: includes_any_str list_all_iff)

lemma parse_raw_matcher_Some:
  assumes "is_string (kind_of raw)"
  shows "\<exists>x. parse_raw_matcher raw = Some x"
proof -
  from assms obtain s where k: "kind_of raw = JStr s" by (auto dest: is_string_JStr)
  obtain b where "first_match (JStr s)
             [([''MatcherRawRegex'', ''TamperMatcherRawRegex''], BRegex),
              ([''MatcherRawValue'', ''TamperMatcherRawValue''], BRawValue),
              ([''MatcherRawFull'', ''TamperMatcherRawFull''], BRawFull)] BOther = Some b"
    using first_match_str [of s _ BOther] by blast
  with k show ?thesis
    unfolding parse_raw_matcher_def by (cases b) simp_all
qed

lemma parse_matcher_Some:
  assumes "is_string (kind_of m)" and "is_string (kind_of (get_prop m ''raw''))"
  shows "\<exists>x. parse_matcher m = Some x"
proof -
  from assms obtain s where k: "kind_of m = JStr s" by (auto dest: is_string_JStr)
  obtain b where "first_match (JStr s)
             [([''MatcherRegex'', ''TamperMatcherRegex''], BRegex),
              ([''MatcherName'', ''TamperMatcherName''], BName),
              ([''MatcherRawValue'', ''TamperMatcherRawValue''], BRawValue),
              ([''MatcherRawFull'', ''TamperMatcherRawFull''], BRawFull),
              ([''MatcherRaw'', ''TamperMatcherRaw''], BRaw)] BOther = Some b"
    using first_match_str [of s _ BOther] by blast
  with k parse_raw_matcher_Some [OF assms(2)] show ?thesis
    unfolding parse_matcher_def by (cases b) (auto simp add: Let_def)
qed

lemma parse_replacer_Some:
  assumes "is_string (kind_of p)"
  shows "\<exists>x. parse_replacer p = Some x"
proof -
  from assms obtain s where k: "kind_of p = JStr s" by (auto dest: is_string_JStr)
  obtain b where "first_match (JStr s)
             [([''ReplacerTerm'', ''TamperReplacerTerm''], BTerm),
              ([''ReplacerWorkflow'', ''TamperReplacerWorkflow''], BWorkflow)] BNone = Some b"
    using first_match_str [of s _ BNone] by blast
  with k show ?thesis
    unfolding parse_replacer_def by (cases b) simp_all
qed

lemma parse_operation_Some:
  assumes "is_string (kind_of (get_prop operation ''matcher''))"
    and "is_string (kind_of (get_prop (get_prop operation ''matcher'') ''raw''))"
    and "is_string (kind_of (get_prop operation ''replacer''))"
  shows "\<exists>mt rp. parse_operation operation = Some (mt, rp)
           \<and> (\<not> (truthy (get_prop operation ''matcher'') \<and> is_object (get_prop operation ''matcher''))
                 \<longrightarrow> mt = (''regex'', ''''))"
  using parse_matcher_Some [OF assms(1,2)] parse_replacer_Some [OF assms(3)]
  unfolding parse_operation_def Let_def by auto

lemma parse_sectionType_Some:
  assumes "is_string (kind_of section)"
  shows "\<exists>st. parse_sectionType section = Some st
          \<and> (list_all (\<lambda>k. \<not> str_includes (str_or (kind_of section) '''') k) known_sections
               \<longrightarrow> st = ''RequestHeader'')"
proof -
  from assms obtain s where k: "kind_of section = JStr s" by (auto dest: is_string_JStr)
  show ?thesis
  proof (cases "list_all (\<lambda>k. \<not> str_includes s k) known_sections")
    case True
    then have "parse_sectionType section = Some ''RequestHeader''"
      unfolding parse_sectionType_def k
      by (intro first_match_miss) (simp add: known_sections_def)
    then show ?thesis by simp
  next
    case False
    with k first_match_str [of s _ "''RequestHeader''"] show ?thesis
      unfolding parse_sectionType_def by auto
  qed
qed

lemma parse_section_Some:
  assumes "is_string (kind_of section)"
    and "is_string (kind_of (get_prop (get_prop section ''operation'') ''matcher''))"
    and "is_string (kind_of (get_prop (get_prop (get_prop section ''operation'') ''matcher'') ''raw''))"
    and "is_string (kind_of (get_prop (get_prop section ''operation'') ''replacer''))"
  shows "\<exists>st mt rp. parse_section section = Some (st, mt, rp)
          \<and> (list_all (\<lambda>k. \<not> str_includes (str_or (kind_of section) '''') k) known_sections
               \<longrightarrow> st = ''RequestHeader'')
          \<and> (\<not> (truthy (get_prop (get_prop section ''operation'') ''matcher'')
                  \<and> is_object (get_prop (get_prop section ''operation'') ''matcher''))
               \<longrightarrow> mt = (''regex'', ''''))"
proof -
  from parse_sectionType_Some [OF assms(1)] obtain st where
    st: "parse_sectionType section = Some st"
      "list_all (\<lambda>k. \<not> str_includes (str_or (kind_of section) '''') k) known_sections
               \<longrightarrow> st = ''RequestHeader''" by blast
  from parse_operation_Some [OF assms(2,3,4)] obtain mt rp where
    op: "parse_operation (get_prop section ''operation'') = Some (mt, rp)"
      "\<not> (truthy (get_prop (get_prop section ''operation'') ''matcher'')
                  \<and> is_object (get_prop (get_prop section ''operation'') ''matcher''))
               \<longrightarrow> mt = (''regex'', '''')" by blast
  show ?thesis
  proof (cases "truthy (get_prop section ''operation'') \<and> is_object (get_prop section ''operation'')")
    case True
    with st op show ?thesis by (cases rp) (simp add: parse_section_def Let_def)
  next
    case False
    with st show ?thesis
      by (cases "get_prop section ''operation''") (auto simp add: parse_section_def Let_def)
  qed
qed

text \<open>
  Claim C9, as amended. For every item whose \<open>name\<close> is a non-empty string and whose
  discriminators are strings, \<open>parseGraphQLRule\<close> returns a rule carrying that name. When
  the section discriminator is absent or names none of the eight sections, the rule's
  section is \<open>RequestHeader\<close>, and the rule is not discarded. The matcher type \<open>regex\<close>
  and the empty matcher are what remains when the section's operation has no matcher
  object.
\<close>

theorem parseGraphQLRule_returns_rule:
  assumes "get_prop item ''name'' = JStr n" and "n \<noteq> []" and "string_kinds item"
  shows "\<exists>r. parseGraphQLRule fresh_id item = Some r \<and> r_id r = fresh_id \<and> r_name r = n
          \<and> (unknown_section item \<longrightarrow> r_section r = ''RequestHeader'')
          \<and> (\<not> (truthy (matcher_of item) \<and> is_object (matcher_of item))
               \<longrightarrow> r_matcherType r = Some ''regex'' \<and> r_matcher r = '''')"
proof -
  let ?section = "get_prop item ''section''"
  from assms(1) have item: "item \<noteq> JUndefined" "item \<noteq> JNull" by auto
  show ?thesis
  proof (cases "truthy ?section \<and> is_object ?section")
    case True
    from assms(3) have
      "is_string (kind_of ?section)"
      "is_string (kind_of (get_prop (get_prop ?section ''operation'') ''matcher''))"
      "is_string (kind_of (get_prop (get_prop (get_prop ?section ''operation'') ''matcher'') ''raw''))"
      "is_string (kind_of (get_prop (get_prop ?section ''operation'') ''replacer''))"
      by (simp_all add: string_kinds_def Let_def)
    from parse_section_Some [OF this] obtain st mt rp where
      ps: "parse_section ?section = Some (st, mt, rp)"
        "list_all (\<lambda>k. \<not> str_includes (str_or (kind_of ?section) '''') k) known_sections
               \<longrightarrow> st = ''RequestHeader''"
        "\<not> (truthy (matcher_of item) \<and> is_object (matcher_of item)) \<longrightarrow> mt = (''regex'', '''')"
      unfolding matcher_of_def by blast
    obtain rt v w where rp: "rp = (rt, v, w)" by (cases rp)
    obtain mty mv where mt: "mt = (mty, mv)" by (cases mt)
    from True ps rp mt assms(1,2) item show ?thesis
      by (simp add: parseGraphQLRule_def Let_def unknown_section_def)
  next
    case False
    then have "matcher_of item = JUndefined"
      unfolding matcher_of_def by (cases ?section) simp_all
    with False assms(1,2) item show ?thesis
      by (auto simp add: parseGraphQLRule_def Let_def)
  qed
qed

theorem parseGraphQLRule_returns_rule_witness:
  "get_prop unknown_kind_item ''name'' = JStr ''r''
   \<and> string_kinds unknown_kind_item
   \<and> unknown_section unknown_kind_item
   \<and> \<not> (truthy (matcher_of unknown_kind_item) \<and> is_object (matcher_of unknown_kind_item))
   \<and> (\<exists>r. parseGraphQLRule ''id'' unknown_kind_item = Some r \<and> r_name r = ''r''
          \<and> r_section r = ''RequestHeader'' \<and> r_matcherType r = Some ''regex''
          \<and> r_matcher r = '''')"
proof -
  have a: "get_prop unknown_kind_item ''name'' = JStr ''r''"
    by (simp add: unknown_kind_item_def)
  have b: "string_kinds unknown_kind_item"
    by (simp add: unknown_kind_item_def string_kinds_def kind_of_def js_or_def)
  have c: "unknown_section unknown_kind_item"
    by (simp add: unknown_kind_item_def unknown_section_def kind_of_def js_or_def known_sections_def)
  have d: "\<not> (truthy (matcher_of unknown_kind_item) \<and> is_object (matcher_of unknown_kind_item))"
    by (simp add: unknown_kind_item_def matcher_of_def)
  have e: "''r'' \<noteq> []" by simp
  from parseGraphQLRule_returns_rule [OF a e b, of "''id''"] c d
  have "\<exists>r. parseGraphQLRule ''id'' unknown_kind_item = Some r \<and> r_name r = ''r''
          \<and> r_section r = ''RequestHeader'' \<and> r_matcherType r = Some ''regex''
          \<and> r_matcher r = ''''"
    by blast
  with a b c d show ?thesis by blast
qed

text \<open>
  The claim as stated fails twice. An item with a non-empty name and a numeric section
  discriminator is discarded: \<^verbatim>\<open>includes\<close> throws on the number, and the \<^verbatim>\<open>catch\<close>
  returns \<^verbatim>\<open>undefined\<close>. An item whose section has no discriminator, but an operation
  with a \<open>MatcherRawValue\<close> matcher, gets the section \<open>RequestHeader\<close> with matcher type
  \<open>string\<close> and the matcher \<open>v\<close>.
\<close>

theorem parseGraphQLRule_defaults_counterexample:
  "get_prop numeric_kind_item ''name'' = JStr ''r''
   \<and> parseGraphQLRule ''id'' numeric_kind_item = None
   \<and> kind_of (get_prop untagged_section_item ''section'') = JStr ''''
   \<and> parseGraphQLRule ''id'' untagged_section_item =
       Some \<lparr> r_id = ''id'', r_name = ''r'', r_section = ''RequestHeader'', r_matcher = ''v'',
              r_value = '''', r_active = True, r_matcherType = Some ''string'',
              r_replacerType = Some ''term'', r_condition = Some '''', r_workflowId = None \<rparr>"
proof -
  have a: "get_prop numeric_kind_item ''name'' = JStr ''r''"
    by (simp add: numeric_kind_item_def)
  have b: "parseGraphQLRule ''id'' numeric_kind_item = None"
    by (simp add: numeric_kind_item_def parseGraphQLRule_def parse_section_def
        parse_sectionType_def kind_of_def js_or_def Let_def)
  have c: "kind_of (get_prop untagged_section_item ''section'') = JStr ''''"
    by (simp add: untagged_section_item_def kind_of_def js_or_def)
  have m: "parse_matcher (JObj [(''kind'', JStr ''MatcherRawValue''), (''value'', JStr ''v'')])
             = Some (''string'', ''v'')"
    by (simp add: parse_matcher_def kind_of_def js_or_def)
  have d: "parseGraphQLRule ''id'' untagged_section_item =
       Some \<lparr> r_id = ''id'', r_name = ''r'', r_section = ''RequestHeader'', r_matcher = ''v'',
              r_value = '''', r_active = True, r_matcherType = Some ''string'',
              r_replacerType = Some ''term'', r_condition = Some '''', r_workflowId = None \<rparr>"
    by (simp add: untagged_section_item_def parseGraphQLRule_def parse_section_def
        parse_sectionType_def parse_operation_def m parse_active_def parse_condition_def
        nonblank_string_def kind_of_def js_or_def Let_def)
  from a b c d show ?thesis by blast
qed

text \<open>
  Every section \<open>toSection\<close> emits is a wire form: the typed description of host rules
  covers what the plugin itself sends.
\<close>

lemma buildMatcher_wire: "\<exists>m. buildMatcher t v = wire_matcher m \<and> \<not> is_name_matcher m"
proof (cases "t = Some ''full''")
  case True
  then have "buildMatcher t v = wire_matcher MatcherRawFull" by (simp add: buildMatcher_def)
  then show ?thesis by (intro exI [of _ MatcherRawFull]) simp
next
  case nf: False
  show ?thesis
  proof (cases "t = Some ''string''")
    case True
    then have "buildMatcher t v = wire_matcher (MatcherRawValue v)"
      by (simp add: buildMatcher_def)
    then show ?thesis by (intro exI [of _ "MatcherRawValue v"]) simp
  next
    case False
    with nf have "buildMatcher t v = wire_matcher (MatcherRawRegex v)"
      by (simp add: buildMatcher_def)
    then show ?thesis by (intro exI [of _ "MatcherRawRegex v"]) simp
  qed
qed

lemma buildReplacer_is_wire: "\<exists>p. buildReplacer t v w = wire_replacer p"
proof (cases "\<exists>i. w = Some i \<and> t = Some ''workflow'' \<and> length (trim i) > 0")
  case True
  then obtain i where "w = Some i" "t = Some ''workflow''" "length (trim i) > 0" by blast
  then have "buildReplacer t v w = wire_replacer (ReplacerWorkflow i)"
    by (simp add: buildReplacer_def)
  then show ?thesis by (rule exI)
next
  case False
  then have "buildReplacer t v w = wire_replacer (ReplacerTerm v)"
    by (cases w) (simp_all add: buildReplacer_def)
  then show ?thesis by (rule exI)
qed

lemma header_section_wire:
  assumes "header_section sk l mt r (wire_replacer p) = Inr s"
  shows "\<exists>m. s = JObj [(''kind'', JStr sk),
            (''operation'',
             wire_op (if is_name_matcher m then ''OperationHeaderUpdate'' else ''OperationHeaderRaw'') m p)]"
proof (cases "mt = ''regex'' \<or> mt = ''string'' \<or> mt = ''full''")
  case True
  obtain m where m: "buildMatcher (Some mt) (matcherValue_of r) = wire_matcher m" "\<not> is_name_matcher m"
    using buildMatcher_wire by blast
  with True assms show ?thesis
    by (intro exI [of _ m]) (simp add: header_section_def Let_def wire_op_def eq_commute [of s])
next
  case False
  with assms show ?thesis
    by (intro exI [of _ "MatcherName (matcherValue_of r)"])
       (simp add: header_section_def Let_def wire_op_def eq_commute [of s])
qed

lemma toSection_is_wire:
  assumes "toSection r = Inr s"
  shows "\<exists>k m p. s = wire_section k m p"
proof -
  let ?mt = "case r_matcherType r of None \<Rightarrow> ''regex'' | Some t \<Rightarrow> t"
  obtain p where p: "buildReplacer (Some (case r_replacerType r of None \<Rightarrow> ''term'' | Some t \<Rightarrow> t))
              (r_value r) (r_workflowId r) = wire_replacer p"
    using buildReplacer_is_wire by blast
  obtain bm where bm: "buildMatcher (Some ?mt) (r_matcher r) = wire_matcher bm"
    using buildMatcher_wire by blast
  from assms have ne: "r_section r \<noteq> []"
    by (cases "r_section r = []") (simp_all add: toSection_def)
  show ?thesis
  proof (cases "r_section r = ''RequestHeader''")
    case True
    with assms p have "header_section ''SectionRequestHeader'' ''RequestHeader'' ?mt r (wire_replacer p) = Inr s"
      by (simp add: toSection_def Let_def)
    from header_section_wire [OF this] obtain m where
      "s = wire_section RequestHeader m p" by auto
    then show ?thesis by blast
  next
    case n1: False
    show ?thesis
    proof (cases "r_section r = ''RequestBody''")
      case True
      with assms p bm have "s = wire_section RequestBody bm p"
        by (simp add: toSection_def Let_def eq_commute [of s])
      then show ?thesis by blast
    next
      case n2: False
      show ?thesis
      proof (cases "r_section r = ''RequestMethod''")
        case True
        with assms p have "s = wire_section RequestMethod MatcherRawFull p"
          by (simp add: toSection_def Let_def replacer_section_def eq_commute [of s])
        then show ?thesis by blast
      next
        case n3: False
        show ?thesis
        proof (cases "r_section r = ''RequestPath''")
          case True
          with assms p have "s = wire_section RequestPath (MatcherName (matcherValue_of r)) p"
            by (simp add: toSection_def Let_def named_section_def wire_op_def eq_commute [of s])
          then show ?thesis by blast
        next
          case n4: False
          show ?thesis
          proof (cases "r_section r = ''RequestQuery''")
            case True
            with assms p have "s = wire_section RequestQuery (MatcherName (matcherValue_of r)) p"
              by (simp add: toSection_def Let_def named_section_def wire_op_def eq_commute [of s])
            then show ?thesis by blast
          next
            case n5: False
            show ?thesis
            proof (cases "r_section r = ''ResponseHeader''")
              case True
              with assms p
              have "header_section ''SectionResponseHeader'' ''ResponseHeader'' ?mt r (wire_replacer p) = Inr s"
                by (simp add: toSection_def Let_def)
              from header_section_wire [OF this] obtain m where
                "s = wire_section ResponseHeader m p" by auto
              then show ?thesis by blast
            next
              case n6: False
              show ?thesis
              proof (cases "r_section r = ''ResponseBody''")
                case True
                with assms p bm have "s = wire_section ResponseBody bm p"
                  by (simp add: toSection_def Let_def wire_op_def eq_commute [of s])
                then show ?thesis by blast
              next
                case n7: False
                with assms ne n1 n2 n3 n4 n5 n6 p
                have "s = wire_section ResponseStatusCode MatcherRawFull p"
                  by (simp add: toSection_def Let_def replacer_section_def eq_commute [of s])
                then show ?thesis by blast
              qed
            qed
          qed
        qed
      qed
    qed
  qed
qed

lemma parse_matcher_wire:
  "\<not> is_raw_regex m \<Longrightarrow> parse_matcher (wire_matcher m) = Some (matcher_type m, matcher_pattern m)"
  by (cases m) (simp_all add: parse_matcher_def kind_of_def js_or_def)

lemma parse_replacer_wire: "parse_replacer (wire_replacer p) = Some (replacer_fields p)"
  by (cases p) (simp_all add: parse_replacer_def kind_of_def js_or_def)

lemma parse_sectionType_wire:
  "parse_sectionType (wire_section k m p) = Some (section_name k)"
  by (cases k) (simp_all add: parse_sectionType_def kind_of_def js_or_def)

lemma wire_matcher_object [simp]: "truthy (wire_matcher m)" "is_object (wire_matcher m)"
  by (cases m; simp)+

lemma wire_replacer_object [simp]: "truthy (wire_replacer p)" "is_object (wire_replacer p)"
  by (cases p; simp)+

lemma lacks_kind_wire_replacer [simp]: "\<not> lacks_kind (wire_replacer p)"
  by (cases p) (simp_all add: lacks_kind_def)

lemma lacks_kind_tagged [simp]: "\<not> lacks_kind (JObj ((''kind'', v) # kvs))"
  by (simp add: lacks_kind_def)

lemma parse_operation_wire_op:
  "\<not> is_raw_regex m \<Longrightarrow>
   parse_operation (wire_op ok m p) = Some ((matcher_type m, matcher_pattern m), replacer_fields p)"
  by (simp add: parse_operation_def wire_op_def parse_matcher_wire parse_replacer_wire Let_def)

lemma parse_operation_replacer_only:
  "parse_operation (JObj [(''kind'', JStr ok), (''replacer'', wire_replacer p)])
     = Some ((''regex'', ''''), replacer_fields p)"
  by (simp add: parse_operation_def parse_replacer_wire Let_def)

lemma wire_section_operation:
  "k \<noteq> RequestBody \<Longrightarrow>
   truthy (get_prop (wire_section k m p) ''operation'')
   \<and> is_object (get_prop (wire_section k m p) ''operation'')
   \<and> (\<not> is_raw_regex m \<longrightarrow>
        parse_operation (get_prop (wire_section k m p) ''operation'')
          = Some (if has_matcher k then (matcher_type m, matcher_pattern m) else (''regex'', ''''),
                  replacer_fields p))"
  by (cases k)
     (simp_all add: has_matcher_def parse_operation_wire_op parse_operation_replacer_only,
      simp_all add: wire_op_def)

lemma parse_section_wire:
  assumes "k \<noteq> RequestBody" and "\<not> is_raw_regex m"
  shows "parse_section (wire_section k m p)
           = Some (section_name k,
                   if has_matcher k then (matcher_type m, matcher_pattern m) else (''regex'', ''''),
                   replacer_fields p)"
  using wire_section_operation [OF assms(1), of m p] assms(2)
  by (simp add: parse_section_def parse_sectionType_wire Let_def)

lemma wire_section_object [simp]:
  "truthy (wire_section k m p)" "is_object (wire_section k m p)"
  by (cases k; simp)+

lemma parseGraphQLRule_wire:
  assumes "get_prop item ''name'' = JStr n" and "n \<noteq> []"
    and "get_prop item ''section'' = wire_section k m p"
    and "k \<noteq> RequestBody" and "\<not> is_raw_regex m"
  shows "parseGraphQLRule fresh_id item =
     Some \<lparr> r_id = fresh_id, r_name = n, r_section = section_name k,
            r_matcher = (if has_matcher k then matcher_pattern m else ''''),
            r_value = fst (snd (replacer_fields p)), r_active = parse_active item,
            r_matcherType = Some (if has_matcher k then matcher_type m else ''regex''),
            r_replacerType = Some (fst (replacer_fields p)),
            r_condition = Some (parse_condition item),
            r_workflowId = snd (snd (replacer_fields p)) \<rparr>"
proof -
  from assms(1) have "item \<noteq> JUndefined" "item \<noteq> JNull" by auto
  with assms(1,2,3) parse_section_wire [OF assms(4,5), of p] show ?thesis
    by (cases "replacer_fields p") (simp add: parseGraphQLRule_def Let_def)
qed

lemma matcherValue_of_keep: "\<not> blank (r_matcher r) \<Longrightarrow> matcherValue_of r = r_matcher r"
  by (auto simp add: matcherValue_of_def blank_def)

lemma buildReplacer_wire:
  "names_workflow p \<Longrightarrow>
   buildReplacer (Some (fst (replacer_fields p))) (fst (snd (replacer_fields p)))
     (snd (snd (replacer_fields p))) = wire_replacer p"
  by (cases p) (simp_all add: buildReplacer_def)

lemma resolved_replacer_only:
  "resolved (JObj [(''kind'', JStr sk), (''operation'', JObj [(''kind'', JStr ok), (''replacer'', q)])])
   = (None, (if get_prop q ''kind'' = JStr ''ReplacerTerm'' then Some (str_or (get_prop q ''term'') '''') else None),
      (if get_prop q ''kind'' = JStr ''ReplacerWorkflow'' then Some (str_or (get_prop q ''workflowId'') '''') else None))"
  by (simp add: resolved_def resolved_pattern_def resolved_term_def resolved_workflowId_def
      section_part_def Let_def)

lemma resolved_direct:
  "resolved (JObj [(''kind'', JStr sk), (''operation'', JObj [(''kind'', JStr ok), (''matcher'', mm), (''replacer'', q)])])
   = (resolved_pattern (JObj [(''operation'', JObj [(''matcher'', mm)])]),
      (if get_prop q ''kind'' = JStr ''ReplacerTerm'' then Some (str_or (get_prop q ''term'') '''') else None),
      (if get_prop q ''kind'' = JStr ''ReplacerWorkflow'' then Some (str_or (get_prop q ''workflowId'') '''') else None))"
  by (simp add: resolved_def resolved_pattern_def resolved_term_def resolved_workflowId_def
      section_part_def Let_def)

lemma pattern_of_wire_matcher:
  "resolved_pattern (JObj [(''operation'', JObj [(''matcher'', wire_matcher m)])]) = Some (matcher_pattern m)"
  by (cases m) (simp_all add: resolved_pattern_def section_part_def Let_def)

lemma pattern_of_buildMatcher:
  "\<not> is_raw_regex m \<Longrightarrow>
   resolved_pattern (JObj [(''operation'', JObj [(''matcher'', buildMatcher (Some (matcher_type m)) (matcher_pattern m))])])
     = Some (matcher_pattern m)"
  by (cases m) (simp_all add: resolved_pattern_def section_part_def buildMatcher_def Let_def)

lemma pattern_of_name:
  "resolved_pattern (JObj [(''operation'', JObj [(''matcher'', JObj [(''kind'', JStr ''MatcherName''), (''name'', JStr s)])])]) = Some s"
  by (simp add: resolved_pattern_def section_part_def Let_def)

text \<open>
  Where the round trip holds. Take a host rule with a non-empty name, in any section
  other than \<open>RequestBody\<close>, whose matcher is tagged \<open>MatcherRawValue\<close>, \<open>MatcherRawFull\<close>
  or \<open>MatcherName\<close>, whose pattern is not blank where the section is a header, the path
  or the query, and whose workflow replacer, if it has one, names a workflow. Translating
  it to the editor with \<open>parseGraphQLRule\<close> and back with \<open>toSection\<close> yields a host
  section with the same resolved pattern, term and workflow identifier.
\<close>

theorem round_trip_preserves_resolved:
  assumes "get_prop item ''name'' = JStr n" and "n \<noteq> []"
    and "get_prop item ''section'' = wire_section k m p"
    and "k \<noteq> RequestBody" and "\<not> is_raw_regex m"
    and "trims_matcher k \<longrightarrow> \<not> blank (matcher_pattern m)"
    and "names_workflow p"
  shows "\<exists>s. round_trip fresh_id item = Some s \<and> resolved s = resolved (wire_section k m p)"
proof -
  let ?r = "\<lparr> r_id = fresh_id, r_name = n, r_section = section_name k,
            r_matcher = (if has_matcher k then matcher_pattern m else ''''),
            r_value = fst (snd (replacer_fields p)), r_active = parse_active item,
            r_matcherType = Some (if has_matcher k then matcher_type m else ''regex''),
            r_replacerType = Some (fst (replacer_fields p)),
            r_condition = Some (parse_condition item),
            r_workflowId = snd (snd (replacer_fields p)) \<rparr>"
  have parse: "parseGraphQLRule fresh_id item = Some ?r"
    by (rule parseGraphQLRule_wire [OF assms(1-5)])
  have rep: "buildReplacer (Some (fst (replacer_fields p))) (fst (snd (replacer_fields p)))
     (snd (snd (replacer_fields p))) = wire_replacer p"
    by (rule buildReplacer_wire [OF assms(7)])
  have mv: "matcherValue_of ?r = matcher_pattern m" if t: "trims_matcher k"
  proof -
    from t have hm: "has_matcher k"
      by (auto simp add: trims_matcher_def has_matcher_def)
    from t assms(6) have "\<not> blank (matcher_pattern m)" by simp
    with hm matcherValue_of_keep [of ?r] show ?thesis by simp
  qed
  have "\<exists>s. toSection ?r = Inr s \<and> resolved s = resolved (wire_section k m p)"
  proof (cases k)
    case RequestHeader
    then have t: "trims_matcher k" by (simp add: trims_matcher_def)
    from RequestHeader mv [OF t] assms(5) show ?thesis
      by (cases m)
         (simp_all add: toSection_def header_section_def rep wire_op_def Let_def has_matcher_def
            resolved_direct resolved_pattern_def section_part_def buildMatcher_def)
  next
    case RequestBody
    with assms(4) show ?thesis by simp
  next
    case RequestMethod
    then show ?thesis
      by (simp add: toSection_def replacer_section_def rep Let_def resolved_replacer_only)
  next
    case RequestPath
    then have t: "trims_matcher k" by (simp add: trims_matcher_def)
    from RequestPath mv [OF t] show ?thesis
      by (simp add: toSection_def named_section_def rep wire_op_def Let_def
            resolved_direct pattern_of_wire_matcher pattern_of_name)
  next
    case RequestQuery
    then have t: "trims_matcher k" by (simp add: trims_matcher_def)
    from RequestQuery mv [OF t] show ?thesis
      by (simp add: toSection_def named_section_def rep wire_op_def Let_def
            resolved_direct pattern_of_wire_matcher pattern_of_name)
  next
    case ResponseHeader
    then have t: "trims_matcher k" by (simp add: trims_matcher_def)
    from ResponseHeader mv [OF t] assms(5) show ?thesis
      by (cases m)
         (simp_all add: toSection_def header_section_def rep wire_op_def Let_def has_matcher_def
            resolved_direct resolved_pattern_def section_part_def buildMatcher_def)
  next
    case ResponseBody
    with assms(5) show ?thesis
      by (simp add: toSection_def rep wire_op_def Let_def has_matcher_def
            resolved_direct pattern_of_wire_matcher pattern_of_buildMatcher)
  next
    case ResponseStatusCode
    then show ?thesis
      by (simp add: toSection_def replacer_section_def rep Let_def resolved_replacer_only)
  qed
  with parse show ?thesis by (auto simp add: round_trip_def)
qed

theorem round_trip_preserves_resolved_witness:
  "get_prop header_value_item ''name'' = JStr ''r''
   \<and> get_prop header_value_item ''section''
        = wire_section RequestHeader (MatcherRawValue ''foo'') (ReplacerWorkflow ''wf'')
   \<and> \<not> is_raw_regex (MatcherRawValue ''foo'')
   \<and> trims_matcher RequestHeader
   \<and> \<not> blank (matcher_pattern (MatcherRawValue ''foo''))
   \<and> names_workflow (ReplacerWorkflow ''wf'')
   \<and> (\<exists>s. round_trip ''id'' header_value_item = Some s
          \<and> resolved s = (Some ''foo'', None, Some ''wf''))"
proof -
  have a: "get_prop header_value_item ''name'' = JStr ''r''"
    and b: "get_prop header_value_item ''section''
        = wire_section RequestHeader (MatcherRawValue ''foo'') (ReplacerWorkflow ''wf'')"
    by (simp_all add: header_value_item_def)
  have c: "\<not> is_raw_regex (MatcherRawValue ''foo'')" by simp
  have d: "trims_matcher RequestHeader" by (simp add: trims_matcher_def)
  have e: "\<not> blank (matcher_pattern (MatcherRawValue ''foo''))"
    by (simp add: blank_def trim_def is_ws_def)
  have f: "names_workflow (ReplacerWorkflow ''wf'')"
    by (simp add: trim_def is_ws_def)
  have g: "''r'' \<noteq> []" and h: "RequestHeader \<noteq> RequestBody" by simp_all
  have i: "resolved (wire_section RequestHeader (MatcherRawValue ''foo'') (ReplacerWorkflow ''wf''))
             = (Some ''foo'', None, Some ''wf'')"
    by (simp add: resolved_def resolved_pattern_def resolved_term_def resolved_workflowId_def
        section_part_def wire_op_def Let_def)
  from round_trip_preserves_resolved [OF a g b h c _ f, of "''id''"] e i
  have "\<exists>s. round_trip ''id'' header_value_item = Some s
          \<and> resolved s = (Some ''foo'', None, Some ''wf'')"
    by simp
  with a b c d e f show ?thesis by blast
qed

text \<open>
  Claim C1. The round trip is to preserve the resolved pattern, term and workflow
  identifier of every host rule of the data model. The code loses them at two inputs. A
  request-header rule whose matcher is tagged \<open>MatcherRawRegex\<close> with the pattern \<open>foo\<close>
  comes back with the empty pattern: the tag contains none of \<open>MatcherRegex\<close>,
  \<open>MatcherName\<close>, \<open>MatcherRawValue\<close>, \<open>MatcherRawFull\<close>, so \<open>parseGraphQLRule\<close> takes its
  \<open>MatcherRaw\<close> branch, which looks for a \<open>raw\<close> wrapper the matcher does not have. A
  request-body rule, whose matcher and replacer sit under \<open>operation.raw\<close>, comes back
  with the empty pattern and the empty term: \<open>parseGraphQLRule\<close> reads
  \<open>operation.matcher\<close> and \<open>operation.replacer\<close> only. The neighbouring branches of the
  same function keep the values: the same header rule tagged \<open>MatcherRawValue\<close>, a
  request-body rule whose matcher and replacer sit on the operation, and a regex carried
  under a matcher's \<open>raw\<close> wrapper.
\<close>

theorem round_trip_loses_regex_and_request_body:
  "resolved (get_prop header_regex_item ''section'') = (Some ''foo'', Some ''bar'', None)
   \<and> map_option resolved (round_trip ''id'' header_regex_item)
       = Some (Some '''', Some ''bar'', None)
   \<and> resolved (get_prop request_body_item ''section'') = (Some ''foo'', Some ''bar'', None)
   \<and> map_option resolved (round_trip ''id'' request_body_item)
       = Some (Some '''', Some '''', None)
   \<and> resolved (get_prop header_value_term_item ''section'') = (Some ''foo'', Some ''bar'', None)
   \<and> map_option resolved (round_trip ''id'' header_value_term_item)
       = Some (Some ''foo'', Some ''bar'', None)
   \<and> resolved (get_prop direct_request_body_item ''section'')
       = (Some ''foo'', Some ''bar'', None)
   \<and> map_option resolved (round_trip ''id'' direct_request_body_item)
       = Some (Some ''foo'', Some ''bar'', None)
   \<and> parse_matcher (JObj [(''kind'', JStr ''MatcherRawRegex''), (''regex'', JStr ''foo'')])
       = Some (''regex'', '''')
   \<and> parse_matcher wrapped_regex_matcher = Some (''regex'', ''foo'')"
proof -
  have a: "resolved (get_prop header_regex_item ''section'') = (Some ''foo'', Some ''bar'', None)"
    by (simp add: header_regex_item_def resolved_def resolved_pattern_def resolved_term_def
        resolved_workflowId_def section_part_def Let_def)
  have m: "parse_matcher (JObj [(''kind'', JStr ''MatcherRawRegex''), (''regex'', JStr ''foo'')])
             = Some (''regex'', '''')"
    by (simp add: parse_matcher_def kind_of_def js_or_def)
  have mv: "parse_matcher (JObj [(''kind'', JStr ''MatcherRawValue''), (''value'', JStr ''foo'')])
             = Some (''string'', ''foo'')"
    by (simp add: parse_matcher_def kind_of_def js_or_def)
  have mw: "parse_matcher wrapped_regex_matcher = Some (''regex'', ''foo'')"
    by (simp add: wrapped_regex_matcher_def parse_matcher_def parse_raw_matcher_def kind_of_def
        js_or_def)
  have p: "parse_replacer (JObj [(''kind'', JStr ''ReplacerTerm''), (''term'', JStr ''bar'')])
             = Some (''term'', ''bar'', None)"
    by (simp add: parse_replacer_def kind_of_def js_or_def)
  have r1: "parseGraphQLRule ''id'' header_regex_item =
       Some \<lparr> r_id = ''id'', r_name = ''r'', r_section = ''RequestHeader'', r_matcher = '''',
              r_value = ''bar'', r_active = True, r_matcherType = Some ''regex'',
              r_replacerType = Some ''term'', r_condition = Some '''', r_workflowId = None \<rparr>"
    by (simp add: header_regex_item_def parseGraphQLRule_def parse_section_def
        parse_sectionType_def parse_operation_def m p parse_active_def parse_condition_def
        nonblank_string_def kind_of_def js_or_def Let_def)
  have b: "map_option resolved (round_trip ''id'' header_regex_item)
             = Some (Some '''', Some ''bar'', None)"
    by (simp add: round_trip_def r1 toSection_def header_section_def buildMatcher_def
        buildReplacer_def matcherValue_of_def Let_def resolved_def resolved_pattern_def
        resolved_term_def resolved_workflowId_def section_part_def)
  have c: "resolved (get_prop request_body_item ''section'') = (Some ''foo'', Some ''bar'', None)"
    by (simp add: request_body_item_def resolved_def resolved_pattern_def resolved_term_def
        resolved_workflowId_def section_part_def Let_def)
  have r2: "parseGraphQLRule ''id'' request_body_item =
       Some \<lparr> r_id = ''id'', r_name = ''r'', r_section = ''RequestBody'', r_matcher = '''',
              r_value = '''', r_active = True, r_matcherType = Some ''regex'',
              r_replacerType = Some ''term'', r_condition = Some '''', r_workflowId = None \<rparr>"
    by (simp add: request_body_item_def parseGraphQLRule_def parse_section_def
        parse_sectionType_def parse_operation_def parse_active_def parse_condition_def
        nonblank_string_def kind_of_def js_or_def Let_def)
  have d: "map_option resolved (round_trip ''id'' request_body_item)
             = Some (Some '''', Some '''', None)"
    by (simp add: round_trip_def r2 toSection_def buildMatcher_def
        buildReplacer_def Let_def resolved_def resolved_pattern_def
        resolved_term_def resolved_workflowId_def section_part_def)
  have e: "resolved (get_prop header_value_term_item ''section'')
             = (Some ''foo'', Some ''bar'', None)"
    by (simp add: header_value_term_item_def wire_op_def resolved_def resolved_pattern_def
        resolved_term_def resolved_workflowId_def section_part_def Let_def)
  have r3: "parseGraphQLRule ''id'' header_value_term_item =
       Some \<lparr> r_id = ''id'', r_name = ''r'', r_section = ''RequestHeader'', r_matcher = ''foo'',
              r_value = ''bar'', r_active = True, r_matcherType = Some ''string'',
              r_replacerType = Some ''term'', r_condition = Some '''', r_workflowId = None \<rparr>"
    by (simp add: header_value_term_item_def wire_op_def parseGraphQLRule_def parse_section_def
        parse_sectionType_def parse_operation_def mv p parse_active_def parse_condition_def
        nonblank_string_def kind_of_def js_or_def Let_def)
  have tf: "trim ''foo'' = ''foo''"
    by (simp add: trim_def is_ws_def)
  have f: "map_option resolved (round_trip ''id'' header_value_term_item)
             = Some (Some ''foo'', Some ''bar'', None)"
    by (simp add: round_trip_def r3 toSection_def header_section_def buildMatcher_def
        buildReplacer_def matcherValue_of_def tf Let_def resolved_def resolved_pattern_def
        resolved_term_def resolved_workflowId_def section_part_def)
  have g: "resolved (get_prop direct_request_body_item ''section'')
             = (Some ''foo'', Some ''bar'', None)"
    by (simp add: direct_request_body_item_def wire_op_def resolved_def resolved_pattern_def
        resolved_term_def resolved_workflowId_def section_part_def Let_def)
  have r4: "parseGraphQLRule ''id'' direct_request_body_item =
       Some \<lparr> r_id = ''id'', r_name = ''r'', r_section = ''RequestBody'', r_matcher = ''foo'',
              r_value = ''bar'', r_active = True, r_matcherType = Some ''string'',
              r_replacerType = Some ''term'', r_condition = Some '''', r_workflowId = None \<rparr>"
    by (simp add: direct_request_body_item_def wire_op_def parseGraphQLRule_def parse_section_def
        parse_sectionType_def parse_operation_def mv p parse_active_def parse_condition_def
        nonblank_string_def kind_of_def js_or_def Let_def)
  have h: "map_option resolved (round_trip ''id'' direct_request_body_item)
             = Some (Some ''foo'', Some ''bar'', None)"
    by (simp add: round_trip_def r4 toSection_def buildMatcher_def
        buildReplacer_def Let_def resolved_def resolved_pattern_def
        resolved_term_def resolved_workflowId_def section_part_def)
  from a b c d e f g h m mw show ?thesis by (intro conjI)
qed

section \<open>Facts about the collection store\<close>

lemma collections_showToast [simp]: "collections (showToast m v st) = collections st"
  and selected_showToast [simp]: "selectedCollectionId (showToast m v st) = selectedCollectionId st"
  and toasts_showToast [simp]: "toasts (showToast m v st) = toasts st @ [(m, v)]"
  by (simp_all add: showToast_def)

lemma collections_persist [simp]: "collections (persist env st) = collections st"
  and selected_persist [simp]: "selectedCollectionId (persist env st) = selectedCollectionId st"
  by (simp_all add: persist_def split: call.splits result.splits)

lemma map_c_id_update_first:
  "(\<And>c. c_id (f c) = c_id c) \<Longrightarrow> map c_id (update_first p f cs) = map c_id cs"
  by (induction cs) simp_all

lemma update_first_Nil_iff [simp]: "(update_first p f cs = []) = (cs = [])"
  by (cases cs) simp_all

lemma ids_update_rules [simp]:
  "map c_id (update_first p (\<lambda>c. c\<lparr>c_rules := g c\<rparr>) cs) = map c_id cs"
  by (rule map_c_id_update_first) simp

lemma createCollection_ids:
  "collection_ids (createCollection i env st) = collection_ids st
   \<or> collection_ids (createCollection i env st) = collection_ids st @ [i]"
  by (simp add: createCollection_def Let_def collection_ids_def)

lemma deleteCollection_ids:
  "collection_ids (deleteCollection cid env st) = collection_ids st
   \<or> (1 < length (collections st)
       \<and> collection_ids (deleteCollection cid env st) = filter (\<lambda>i. i \<noteq> cid) (collection_ids st))"
  by (auto simp add: deleteCollection_def Let_def collection_ids_def filter_map comp_def
      split: option.splits)

lemma other_ops_ids:
  "collection_ids (switchCollection c env st) = collection_ids st"
  "collection_ids (removeRule rid env st) = collection_ids st"
  "collection_ids (toggleActive rid v env st) = collection_ids st"
  "collection_ids (saveRuleName rid env st) = collection_ids st"
  "collection_ids (addImportedRules rs n env st) = collection_ids st"
  by (simp_all add: switchCollection_def removeRule_def toggleActive_def saveRuleName_def
      addImportedRules_def cancelEditingName_def collection_ids_def Let_def split: option.splits)

lemma store_inv_ids: "store_inv st = (collection_ids st \<noteq> [] \<and> distinct (collection_ids st))"
  by (simp add: store_inv_def collection_ids_def)

lemma filter_ids_nonempty:
  assumes "distinct ids" and "1 < length ids"
  shows "filter (\<lambda>i. i \<noteq> cid) ids \<noteq> []"
proof -
  from assms(2) obtain a b rest where ids: "ids = a # b # rest"
    by (cases ids; cases "tl ids") auto
  with assms(1) have "a \<noteq> b" by simp
  then have "a \<noteq> cid \<or> b \<noteq> cid" by auto
  with ids show ?thesis by (auto simp add: filter_empty_conv)
qed

lemma length_collection_ids: "length (collection_ids st) = length (collections st)"
  by (simp add: collection_ids_def)

text \<open>
  Claim C3, as amended. In every store with exactly one collection \<open>deleteCollection\<close>
  leaves the collections and the selected collection as they are and shows the error
  toast \<open>Cannot delete the last collection\<close>. In every store that has a collection and no
  collection identifier twice, every store operation leaves at least one collection; the
  identifiers stay distinct as long as a created collection gets an unused identifier.
\<close>

theorem store_keeps_a_collection:
  "(length (collections st) = 1 \<longrightarrow>
      collections (deleteCollection cid env st) = collections st
      \<and> selectedCollectionId (deleteCollection cid env st) = selectedCollectionId st
      \<and> toasts (deleteCollection cid env st)
          = toasts st @ [(Text ''Cannot delete the last collection'', VariantError)])
   \<and> (store_inv st \<longrightarrow>
        collections (apply_op env op st) \<noteq> []
        \<and> (fresh_for op st \<longrightarrow> store_inv (apply_op env op st)))"
proof -
  have last: "collections (deleteCollection cid env st) = collections st
      \<and> selectedCollectionId (deleteCollection cid env st) = selectedCollectionId st
      \<and> toasts (deleteCollection cid env st)
          = toasts st @ [(Text ''Cannot delete the last collection'', VariantError)]"
    if "length (collections st) = 1"
    using that by (simp add: deleteCollection_def)
  have step: "collection_ids (apply_op env op st) \<noteq> []
        \<and> (fresh_for op st \<longrightarrow> distinct (collection_ids (apply_op env op st)))"
    if inv: "store_inv st"
  proof -
    from inv have ne: "collection_ids st \<noteq> []" and d: "distinct (collection_ids st)"
      by (simp_all add: store_inv_ids)
    show ?thesis
    proof (cases op)
      case (OpCreateCollection i)
      with createCollection_ids [of i env st] ne d show ?thesis by auto
    next
      case (OpDeleteCollection c)
      from deleteCollection_ids [of c env st] show ?thesis
      proof
        assume "collection_ids (deleteCollection c env st) = collection_ids st"
        with OpDeleteCollection ne d show ?thesis by simp
      next
        assume a: "1 < length (collections st)
          \<and> collection_ids (deleteCollection c env st) = filter (\<lambda>i. i \<noteq> c) (collection_ids st)"
        then have "1 < length (collection_ids st)" by (simp add: length_collection_ids)
        from filter_ids_nonempty [OF d this, of c] a d OpDeleteCollection show ?thesis
          by simp
      qed
    qed (use ne d in \<open>simp_all add: other_ops_ids\<close>)
  qed
  from last step show ?thesis
    unfolding store_inv_ids by (simp add: collection_ids_def)
qed

theorem store_keeps_a_collection_witness:
  "length (collections single_store) = 1
   \<and> collections (deleteCollection ''a'' saves_ok single_store) = collections single_store
   \<and> selectedCollectionId (deleteCollection ''a'' saves_ok single_store) = Some ''a''
   \<and> toasts (deleteCollection ''a'' saves_ok single_store)
        = [(Text ''Cannot delete the last collection'', VariantError)]
   \<and> store_inv pair_store
   \<and> fresh_for (OpDeleteCollection ''a'') pair_store
   \<and> collections (apply_op saves_ok (OpDeleteCollection ''a'') pair_store) \<noteq> []
   \<and> store_inv (apply_op saves_ok (OpDeleteCollection ''a'') pair_store)"
proof -
  have a: "length (collections single_store) = 1"
    by (simp add: single_store_def store_of_def)
  have b: "selectedCollectionId single_store = Some ''a''" "toasts single_store = []"
    by (simp_all add: single_store_def store_of_def)
  have c: "store_inv pair_store"
    by (simp add: pair_store_def store_of_def store_inv_def collection_ids_def empty_collection_def)
  have d: "fresh_for (OpDeleteCollection ''a'') pair_store" by simp
  from a b store_keeps_a_collection [of single_store "''a''" saves_ok]
  have e: "collections (deleteCollection ''a'' saves_ok single_store) = collections single_store
   \<and> selectedCollectionId (deleteCollection ''a'' saves_ok single_store) = Some ''a''
   \<and> toasts (deleteCollection ''a'' saves_ok single_store)
        = [(Text ''Cannot delete the last collection'', VariantError)]"
    by simp
  from c d store_keeps_a_collection [of pair_store _ saves_ok "OpDeleteCollection ''a''"]
  have f: "collections (apply_op saves_ok (OpDeleteCollection ''a'') pair_store) \<noteq> []
   \<and> store_inv (apply_op saves_ok (OpDeleteCollection ''a'') pair_store)"
    by blast
  from a c d e f show ?thesis by blast
qed

text \<open>
  The claim as stated fails on a store whose two collections share an identifier:
  \<open>deleteCollection\<close> filters by identifier, removes both, and leaves no collection and
  no selected collection.
\<close>

theorem store_keeps_a_collection_counterexample:
  "length (collections duplicate_id_store) = 2
   \<and> collections (apply_op saves_ok (OpDeleteCollection ''a'') duplicate_id_store) = []
   \<and> selectedCollectionId (apply_op saves_ok (OpDeleteCollection ''a'') duplicate_id_store) = None"
  by (simp add: duplicate_id_store_def store_of_def empty_collection_def deleteCollection_def
      Let_def)

section \<open>Facts about loading\<close>

lemma select_if_unset_default:
  "select_if_unset conv (JArr [createDefaultCollection now]) sel
     = Some (if truthy sel then sel else JStr now)"
  by (simp add: select_if_unset_def first_element_id_def read_prop_def
      createDefaultCollection_def)

lemma select_stored_default:
  "select_stored conv (JArr [createDefaultCollection now]) r (JStr now) = Some (JStr now)"
  by (simp add: select_stored_def first_if_any_def first_element_id_def read_prop_def
      createDefaultCollection_def split: result.splits option.splits)

lemma load_no_collections:
  assumes "\<not> truthy sel0"
    and "sdk_present env"
    and "getCollections_reply env = Returns r"
    and "adopt_or_default (string_or_array_positive env) (clock env) r = None
         \<or> adopt_or_default (string_or_array_positive env) (clock env) r
             = Some (JArr [createDefaultCollection (clock env)])"
  shows "load env sel0 = default_loaded (clock env)"
proof (cases "getSelectedCollectionId_reply env")
  case (Throws e)
  with assms show ?thesis
    by (auto simp add: load_def select_if_unset_default)
next
  case (Returns sr)
  with assms show ?thesis
    by (auto simp add: load_def select_if_unset_default select_stored_default
        default_loaded_def)
qed

lemma load_reading_seeds:
  assumes "\<not> truthy sel0"
    and "adopt_or_default conv now (getCollections row) = None
         \<or> adopt_or_default conv now (getCollections row)
             = Some (JArr [createDefaultCollection now])"
  shows "load (reading conv now row selected_row) sel0
           = \<lparr>l_collections = JArr [JObj [(''id'', JStr now), (''name'', JStr ''Global Template''),
                                          (''rules'', JArr [])]],
              l_selectedCollectionId = JStr now\<rparr>"
proof -
  have "load (reading conv now row selected_row) sel0 = default_loaded now"
    using load_no_collections [OF assms(1), of "reading conv now row selected_row"
        "getCollections row"] assms(2)
    by (simp add: reading_def)
  then show ?thesis by (simp add: default_loaded_def createDefaultCollection_def)
qed

lemma load_first_element_null:
  assumes "\<not> truthy sel0"
  shows "load (reading conv now (DbRow (Some (Json (JArr (JNull # xs))))) selected_row) sel0
           = \<lparr>l_collections = JArr [JObj [(''id'', JStr now), (''name'', JStr ''Global Template''),
                                          (''rules'', JArr [])]],
              l_selectedCollectionId = JStr now\<rparr>"
  using assms
  by (simp add: load_def reading_def getCollections_def adopt_or_default_def
      select_if_unset_def first_element_id_def read_prop_def default_loaded_def
      createDefaultCollection_def)

lemma find_in_without_null:
  "list_all (\<lambda>y. y \<noteq> JNull \<and> y \<noteq> JUndefined) xs \<Longrightarrow>
   find_in xs w = Some None
   \<or> (\<exists>c. find_in xs w = Some (Some c) \<and> c \<noteq> JNull \<and> c \<noteq> JUndefined)"
  by (induction xs) (auto simp add: read_prop_def)

lemma first_element_id_without_null:
  assumes "ys \<noteq> []" and "list_all (\<lambda>y. y \<noteq> JNull \<and> y \<noteq> JUndefined) ys"
  shows "\<exists>i. first_element_id (JArr ys) = Some i"
  using assms by (cases ys) (simp_all add: first_element_id_def read_prop_def)

lemma select_if_unset_without_null:
  assumes "ys \<noteq> []" and "list_all (\<lambda>y. y \<noteq> JNull \<and> y \<noteq> JUndefined) ys"
  shows "\<exists>s. select_if_unset conv (JArr ys) sel = Some s"
  using first_element_id_without_null [OF assms]
  by (auto simp add: select_if_unset_def)

lemma select_stored_without_null:
  assumes "ys \<noteq> []" and "list_all (\<lambda>y. y \<noteq> JNull \<and> y \<noteq> JUndefined) ys"
  shows "\<exists>s. select_stored conv (JArr ys) r sel = Some s"
proof (cases r)
  case (Error e)
  then show ?thesis by (simp add: select_stored_def)
next
  case (Ok v)
  show ?thesis
  proof (cases v)
    case None
    with Ok show ?thesis by (simp add: select_stored_def)
  next
    case (Some w)
    from first_element_id_without_null [OF assms] obtain i where
      i: "first_element_id (JArr ys) = Some i" by blast
    from assms(1) i have fa: "first_if_any conv (JArr ys) sel = Some i"
      by (simp add: first_if_any_def)
    from find_in_without_null [OF assms(2), of w]
    show ?thesis
    proof
      assume "find_in ys w = Some None"
      with Ok Some fa show ?thesis by (simp add: select_stored_def)
    next
      assume "\<exists>c. find_in ys w = Some (Some c) \<and> c \<noteq> JNull \<and> c \<noteq> JUndefined"
      then obtain c where "find_in ys w = Some (Some c)" "c \<noteq> JNull" "c \<noteq> JUndefined"
        by blast
      with Ok Some fa show ?thesis by (simp add: select_stored_def read_prop_def)
    qed
  qed
qed

lemma load_adopts_without_null:
  assumes "ys \<noteq> []" and "list_all (\<lambda>y. y \<noteq> JNull \<and> y \<noteq> JUndefined) ys"
  shows "l_collections (load (reading conv now (DbRow (Some (Json (JArr ys)))) selected_row) sel0)
           = JArr ys"
proof -
  from select_if_unset_without_null [OF assms] obtain s1 where
    s1: "select_if_unset conv (JArr ys) sel0 = Some s1" by blast
  from select_stored_without_null [OF assms] obtain s2 where
    s2: "select_stored conv (JArr ys) (getSelectedCollectionId selected_row) s1 = Some s2"
    by blast
  from select_if_unset_without_null [OF assms] obtain s3 where
    s3: "select_if_unset conv (JArr ys) s2 = Some s3" by blast
  from assms(1) s1 s2 s3 show ?thesis
    by (simp add: load_def reading_def getCollections_def adopt_or_default_def)
qed

text \<open>
  Claim C6, as amended. When \<open>load\<close> runs with no collection selected yet, the loaded
  store holds exactly one collection, named \<open>Global Template\<close>, with no rules, and that
  collection is selected, whatever the row of the selected identifier holds, in each of
  these cases: the collections row does not exist; its text does not parse; reading it
  throws; the text parses to \<^verbatim>\<open>null\<close>, to a number, to a boolean, to the empty string, to
  the empty array, to an array whose first element is \<^verbatim>\<open>null\<close>, or to an object without a
  property \<open>length\<close>. A non-empty array without \<^verbatim>\<open>null\<close> among its elements is taken over
  as it is, whatever fields or types its elements have. \<open>load\<close> is total: every throw
  inside it ends in its \<^verbatim>\<open>catch\<close>, so no error reaches the caller.
\<close>

theorem load_default_seeding:
  assumes "\<not> truthy sel0"
  shows "list_all
           (\<lambda>row. load (reading conv now row selected_row) sel0
                    = \<lparr>l_collections = JArr [JObj [(''id'', JStr now),
                                                   (''name'', JStr ''Global Template''),
                                                   (''rules'', JArr [])]],
                       l_selectedCollectionId = JStr now\<rparr>)
           [DbRow None, DbRow (Some (NotJson m)), DbThrows e,
            DbRow (Some (Json JNull)), DbRow (Some (Json (JNum n))),
            DbRow (Some (Json (JBool b))), DbRow (Some (Json (JStr ''''))),
            DbRow (Some (Json (JArr []))), DbRow (Some (Json (JArr (JNull # xs))))]
         \<and> (map_of kvs ''length'' = None \<longrightarrow>
              load (reading conv now (DbRow (Some (Json (JObj kvs)))) selected_row) sel0
                = \<lparr>l_collections = JArr [JObj [(''id'', JStr now),
                                               (''name'', JStr ''Global Template''),
                                               (''rules'', JArr [])]],
                   l_selectedCollectionId = JStr now\<rparr>)
         \<and> (ys \<noteq> [] \<and> list_all (\<lambda>y. y \<noteq> JNull \<and> y \<noteq> JUndefined) ys \<longrightarrow>
              l_collections
                (load (reading conv now (DbRow (Some (Json (JArr ys)))) selected_row) sel0)
                = JArr ys)"
proof -
  note seeds = load_reading_seeds [OF assms, of conv now _ selected_row]
  have r1: "load (reading conv now (DbRow None) selected_row) sel0
           = \<lparr>l_collections = JArr [JObj [(''id'', JStr now), (''name'', JStr ''Global Template''),
                                          (''rules'', JArr [])]],
              l_selectedCollectionId = JStr now\<rparr>"
    by (rule seeds) (simp add: getCollections_def adopt_or_default_def)
  have r2: "load (reading conv now (DbRow (Some (NotJson m))) selected_row) sel0
           = \<lparr>l_collections = JArr [JObj [(''id'', JStr now), (''name'', JStr ''Global Template''),
                                          (''rules'', JArr [])]],
              l_selectedCollectionId = JStr now\<rparr>"
    by (rule seeds) (simp add: getCollections_def adopt_or_default_def)
  have r3: "load (reading conv now (DbThrows e) selected_row) sel0
           = \<lparr>l_collections = JArr [JObj [(''id'', JStr now), (''name'', JStr ''Global Template''),
                                          (''rules'', JArr [])]],
              l_selectedCollectionId = JStr now\<rparr>"
    by (rule seeds) (simp add: getCollections_def adopt_or_default_def)
  have r4: "load (reading conv now (DbRow (Some (Json JNull))) selected_row) sel0
           = \<lparr>l_collections = JArr [JObj [(''id'', JStr now), (''name'', JStr ''Global Template''),
                                          (''rules'', JArr [])]],
              l_selectedCollectionId = JStr now\<rparr>"
    by (rule seeds) (simp add: getCollections_def adopt_or_default_def)
  have r5: "load (reading conv now (DbRow (Some (Json (JNum n)))) selected_row) sel0
           = \<lparr>l_collections = JArr [JObj [(''id'', JStr now), (''name'', JStr ''Global Template''),
                                          (''rules'', JArr [])]],
              l_selectedCollectionId = JStr now\<rparr>"
    by (rule seeds) (simp add: getCollections_def adopt_or_default_def)
  have r6: "load (reading conv now (DbRow (Some (Json (JBool b)))) selected_row) sel0
           = \<lparr>l_collections = JArr [JObj [(''id'', JStr now), (''name'', JStr ''Global Template''),
                                          (''rules'', JArr [])]],
              l_selectedCollectionId = JStr now\<rparr>"
    by (rule seeds) (simp add: getCollections_def adopt_or_default_def)
  have r7: "load (reading conv now (DbRow (Some (Json (JStr '''')))) selected_row) sel0
           = \<lparr>l_collections = JArr [JObj [(''id'', JStr now), (''name'', JStr ''Global Template''),
                                          (''rules'', JArr [])]],
              l_selectedCollectionId = JStr now\<rparr>"
    by (rule seeds) (simp add: getCollections_def adopt_or_default_def)
  have r8: "load (reading conv now (DbRow (Some (Json (JArr [])))) selected_row) sel0
           = \<lparr>l_collections = JArr [JObj [(''id'', JStr now), (''name'', JStr ''Global Template''),
                                          (''rules'', JArr [])]],
              l_selectedCollectionId = JStr now\<rparr>"
    by (rule seeds) (simp add: getCollections_def adopt_or_default_def)
  note r9 = load_first_element_null [OF assms, of conv now xs selected_row]
  have r10: "load (reading conv now (DbRow (Some (Json (JObj kvs)))) selected_row) sel0
           = \<lparr>l_collections = JArr [JObj [(''id'', JStr now), (''name'', JStr ''Global Template''),
                                          (''rules'', JArr [])]],
              l_selectedCollectionId = JStr now\<rparr>"
    if "map_of kvs ''length'' = None"
    using that by (intro seeds) (simp add: getCollections_def adopt_or_default_def)
  note r11 = load_adopts_without_null [of ys conv now selected_row sel0]
  from r1 r2 r3 r4 r5 r6 r7 r8 r9 r10 r11 show ?thesis by simp
qed

theorem load_default_seeding_witness:
  "\<not> truthy JUndefined
   \<and> list_all
       (\<lambda>row. load (reading (\<lambda>v. False) ''1700000000000'' row (DbRow (Some ''zz''))) JUndefined
                = \<lparr>l_collections = JArr [JObj [(''id'', JStr ''1700000000000''),
                                               (''name'', JStr ''Global Template''),
                                               (''rules'', JArr [])]],
                   l_selectedCollectionId = JStr ''1700000000000''\<rparr>)
       [DbRow None, DbRow (Some (NotJson ''Unexpected token'')),
        DbThrows (ErrorObject ''database is locked''),
        DbRow (Some (Json JNull)), DbRow (Some (Json (JNum 5))),
        DbRow (Some (Json (JBool True))), DbRow (Some (Json (JStr ''''))),
        DbRow (Some (Json (JArr []))),
        DbRow (Some (Json (JArr [JNull, JObj [(''id'', JStr ''zz'')]])))]
   \<and> map_of [(''id'', JStr ''zz'')] ''length'' = None
   \<and> load (reading (\<lambda>v. False) ''1700000000000''
             (DbRow (Some (Json (JObj [(''id'', JStr ''zz'')])))) (DbRow (Some ''zz''))) JUndefined
       = \<lparr>l_collections = JArr [JObj [(''id'', JStr ''1700000000000''),
                                      (''name'', JStr ''Global Template''),
                                      (''rules'', JArr [])]],
          l_selectedCollectionId = JStr ''1700000000000''\<rparr>
   \<and> list_all (\<lambda>y. y \<noteq> JNull \<and> y \<noteq> JUndefined) [JObj [(''name'', JNum 7)], JStr ''q'']
   \<and> l_collections
       (load (reading (\<lambda>v. False) ''1700000000000''
                (DbRow (Some (Json (JArr [JObj [(''name'', JNum 7)], JStr ''q''])))) (DbRow (Some ''zz'')))
          JUndefined)
       = JArr [JObj [(''name'', JNum 7)], JStr ''q'']"
proof -
  have a: "\<not> truthy JUndefined" by simp
  have b: "map_of [(''id'', JStr ''zz'')] ''length'' = None" by simp
  have c: "[JObj [(''name'', JNum 7)], JStr ''q''] \<noteq> []
           \<and> list_all (\<lambda>y. y \<noteq> JNull \<and> y \<noteq> JUndefined) [JObj [(''name'', JNum 7)], JStr ''q'']"
    by simp
  note inst = load_default_seeding [OF a, of "\<lambda>v. False" "''1700000000000''" "DbRow (Some ''zz'')"
      "''Unexpected token''" "ErrorObject ''database is locked''" 5 True
      "[JObj [(''id'', JStr ''zz'')]]" "[(''id'', JStr ''zz'')]"
      "[JObj [(''name'', JNum 7)], JStr ''q'']"]
  from inst a b c show ?thesis by simp
qed

text \<open>
  The claim as stated fails for stored texts that parse to a non-empty array: an element
  that has only an \<open>id\<close>, and neither \<open>name\<close> nor \<open>rules\<close>, becomes the one collection of
  the store, and so does the number 1, with nothing selected.
\<close>

theorem load_default_seeding_counterexample:
  "load (reading (\<lambda>v. False) ''1700000000000'' missing_fields_row (DbRow None)) JUndefined
     = \<lparr>l_collections = JArr [JObj [(''id'', JStr ''x'')]], l_selectedCollectionId = JStr ''x''\<rparr>
   \<and> load (reading (\<lambda>v. False) ''1700000000000'' wrong_types_row (DbRow None)) JUndefined
     = \<lparr>l_collections = JArr [JNum 1], l_selectedCollectionId = JUndefined\<rparr>"
  by (simp add: load_def reading_def getCollections_def getSelectedCollectionId_def
      adopt_or_default_def missing_fields_row_def wrong_types_row_def select_if_unset_def
      select_stored_def first_element_id_def read_prop_def)

section \<open>Facts about the sync\<close>

lemma sendable_tagged:
  "ok \<noteq> ''OperationBodyRaw'' \<Longrightarrow>
   sendable (JObj [(''kind'', JStr sk), (''operation'', JObj ((''kind'', JStr ok) # rest))])"
  by (simp add: sendable_def Let_def)

lemma sendable_wrapped:
  "\<not> lacks_kind m \<Longrightarrow> \<not> lacks_kind p \<Longrightarrow>
   sendable (JObj [(''kind'', JStr sk),
                   (''operation'', JObj [(''kind'', JStr ''OperationBodyRaw''),
                                         (''raw'', JObj [(''matcher'', m), (''replacer'', p)])])])"
  by (simp add: sendable_def Let_def)

lemma sendable_direct:
  "\<not> lacks_kind m \<Longrightarrow> \<not> lacks_kind p \<Longrightarrow>
   sendable (JObj [(''kind'', JStr sk),
                   (''operation'', JObj [(''kind'', JStr ''OperationBodyRaw''),
                                         (''matcher'', m), (''replacer'', p)])])"
  by (simp add: sendable_def Let_def)

lemma header_section_sendable:
  assumes "header_section sk l mt r p = Inr s"
  shows "sendable s"
proof (cases "mt = ''regex'' \<or> mt = ''string'' \<or> mt = ''full''")
  case True
  with assms have "s = JObj [(''kind'', JStr sk),
                         (''operation'', JObj [(''kind'', JStr ''OperationHeaderRaw''),
                                               (''matcher'', buildMatcher (Some mt) (matcherValue_of r)),
                                               (''replacer'', p)])]"
    by (simp add: header_section_def Let_def)
  then show ?thesis by (simp add: sendable_tagged)
next
  case False
  with assms have "s = JObj [(''kind'', JStr sk),
                      (''operation'', JObj [(''kind'', JStr ''OperationHeaderUpdate''),
                                            (''matcher'', JObj [(''kind'', JStr ''MatcherName''),
                                                                (''name'', JStr (matcherValue_of r))]),
                                            (''replacer'', p)])]"
    by (simp add: header_section_def Let_def)
  then show ?thesis by (simp add: sendable_tagged)
qed

lemma toSection_sendable:
  assumes "toSection r = Inr s"
  shows "sendable s"
proof -
  let ?p = "buildReplacer (Some (case r_replacerType r of None \<Rightarrow> ''term'' | Some t \<Rightarrow> t))
              (r_value r) (r_workflowId r)"
  let ?mt = "case r_matcherType r of None \<Rightarrow> ''regex'' | Some t \<Rightarrow> t"
  from assms have ne: "r_section r \<noteq> []"
    by (cases "r_section r = []") (simp_all add: toSection_def)
  show ?thesis
  proof (cases "r_section r = ''RequestHeader''")
    case True
    with assms have "header_section ''SectionRequestHeader'' ''RequestHeader'' ?mt r ?p = Inr s"
      by (simp add: toSection_def Let_def)
    then show ?thesis by (rule header_section_sendable)
  next
    case n1: False
    show ?thesis
    proof (cases "r_section r = ''RequestBody''")
      case True
      with assms
      have "s = JObj [(''kind'', JStr ''SectionRequestBody''),
                      (''operation'', JObj [(''kind'', JStr ''OperationBodyRaw''),
                                            (''raw'', JObj [(''matcher'', buildMatcher (Some ?mt) (r_matcher r)),
                                                            (''replacer'', ?p)])])]"
        by (simp add: toSection_def Let_def)
      then show ?thesis by (simp add: sendable_wrapped)
    next
      case n2: False
      show ?thesis
      proof (cases "r_section r = ''RequestMethod''")
        case True
        with assms have "s = replacer_section ''SectionRequestMethod'' ''OperationMethodUpdate'' ?p"
          by (simp add: toSection_def Let_def)
        then show ?thesis by (simp add: replacer_section_def sendable_tagged)
      next
        case n3: False
        show ?thesis
        proof (cases "r_section r = ''RequestPath''")
          case True
          with assms have "s = named_section ''SectionRequestPath'' ''OperationPathUpdate'' r ?p"
            by (simp add: toSection_def Let_def)
          then show ?thesis by (simp add: named_section_def sendable_tagged)
        next
          case n4: False
          show ?thesis
          proof (cases "r_section r = ''RequestQuery''")
            case True
            with assms have "s = named_section ''SectionRequestQuery'' ''OperationQueryUpdate'' r ?p"
              by (simp add: toSection_def Let_def)
            then show ?thesis by (simp add: named_section_def sendable_tagged)
          next
            case n5: False
            show ?thesis
            proof (cases "r_section r = ''ResponseHeader''")
              case True
              with assms
              have "header_section ''SectionResponseHeader'' ''ResponseHeader'' ?mt r ?p = Inr s"
                by (simp add: toSection_def Let_def)
              then show ?thesis by (rule header_section_sendable)
            next
              case n6: False
              show ?thesis
              proof (cases "r_section r = ''ResponseBody''")
                case True
                with assms
                have "s = JObj [(''kind'', JStr ''SectionResponseBody''),
                                (''operation'', JObj [(''kind'', JStr ''OperationBodyRaw''),
                                                      (''matcher'', buildMatcher (Some ?mt) (r_matcher r)),
                                                      (''replacer'', ?p)])]"
                  by (simp add: toSection_def Let_def)
                then show ?thesis by (simp add: sendable_direct)
              next
                case n7: False
                with assms ne n1 n2 n3 n4 n5 n6
                have "s = replacer_section ''SectionResponseStatusCode''
                            ''OperationStatusCodeUpdate'' ?p"
                  by (simp add: toSection_def Let_def)
                then show ?thesis by (simp add: replacer_section_def sendable_tagged)
              qed
            qed
          qed
        qed
      qed
    qed
  qed
qed

lemma toSection_translates:
  "r_section r \<noteq> [] \<Longrightarrow> \<exists>s. toSection r = Inr s"
  by (simp add: toSection_def Let_def header_section_def)

lemma sync_rule_skip:
  "lacks_section_or_name r \<Longrightarrow> sync_rule env cid r tr = (tr, False)"
  by (simp add: sync_rule_def)

lemma sync_rule_attempt:
  assumes "\<not> lacks_section_or_name r"
  shows "sync_rule env cid r tr =
     (case host_reply env (length tr) of
        Throws e \<Rightarrow> (tr @ [createRule_call cid r], False)
      | Returns ruleId \<Rightarrow>
          (tr @ [createRule_call cid r, CallToggleRule ruleId (r_active r)],
           returns (host_reply env (Suc (length tr)))))"
proof -
  from assms have "r_section r \<noteq> []" by (simp add: lacks_section_or_name_def)
  then obtain s where s: "toSection r = Inr s" using toSection_translates by blast
  then have "sendable s" by (rule toSection_sendable)
  with assms s show ?thesis
    by (simp add: sync_rule_def host_do_def createRule_call_def section_of_def returns_def
        split: call.splits)
qed

lemma sync_rule_counted:
  "snd (sync_rule env cid r tr) =
     (\<not> lacks_section_or_name r \<and> returns (host_reply env (length tr))
      \<and> returns (host_reply env (Suc (length tr))))"
  by (cases "lacks_section_or_name r")
     (simp_all add: sync_rule_skip sync_rule_attempt returns_def split: call.splits)

lemma sync_rule_createRule_calls:
  "filter is_createRule (fst (sync_rule env cid r tr)) =
     filter is_createRule tr @ (if lacks_section_or_name r then [] else [createRule_call cid r])"
  by (cases "lacks_section_or_name r")
     (simp_all add: sync_rule_skip sync_rule_attempt createRule_call_def split: call.splits)

lemma sync_rule_extends:
  "\<exists>rest. fst (sync_rule env cid r tr) = tr @ rest \<and> list_all is_rule_call rest"
  by (cases "lacks_section_or_name r")
     (simp_all add: sync_rule_skip sync_rule_attempt createRule_call_def split: call.splits)

lemma sync_rules_createRule_calls:
  "filter is_createRule (fst (sync_rules env cid rs tr n)) =
     filter is_createRule tr
     @ map (createRule_call cid) (filter (\<lambda>r. \<not> lacks_section_or_name r) rs)"
proof (induction rs arbitrary: tr n)
  case Nil
  then show ?case by simp
next
  case (Cons r rs)
  obtain tr1 counted where step: "sync_rule env cid r tr = (tr1, counted)"
    by (cases "sync_rule env cid r tr")
  with sync_rule_createRule_calls [of env cid r tr]
  have "filter is_createRule tr1 =
     filter is_createRule tr @ (if lacks_section_or_name r then [] else [createRule_call cid r])"
    by simp
  with step Cons.IH [of tr1] show ?case by simp
qed

lemma sync_rules_extends:
  "\<exists>rest. fst (sync_rules env cid rs tr n) = tr @ rest \<and> list_all is_rule_call rest"
proof (induction rs arbitrary: tr n)
  case Nil
  then show ?case by simp
next
  case (Cons r rs)
  obtain tr1 counted where step: "sync_rule env cid r tr = (tr1, counted)"
    by (cases "sync_rule env cid r tr")
  with sync_rule_extends [of env cid r tr] obtain rest1 where
    r1: "tr1 = tr @ rest1" "list_all is_rule_call rest1" by auto
  from Cons.IH [of tr1 "if counted then n + 1 else n"] obtain rest2 where
    r2: "fst (sync_rules env cid rs tr1 (if counted then n + 1 else n)) = tr1 @ rest2"
      "list_all is_rule_call rest2" by blast
  from step r1 r2 show ?case by simp
qed

lemma sync_rules_count_cooperative:
  assumes "\<forall>k. returns (host_reply env k)"
  shows "snd (sync_rules env cid rs tr n) = n + length (filter (\<lambda>r. \<not> lacks_section_or_name r) rs)"
proof (induction rs arbitrary: tr n)
  case Nil
  then show ?case by simp
next
  case (Cons r rs)
  obtain tr1 counted where step: "sync_rule env cid r tr = (tr1, counted)"
    by (cases "sync_rule env cid r tr")
  with sync_rule_counted [of env cid r tr] assms
  have "counted = (\<not> lacks_section_or_name r)" by simp
  with step Cons.IH [of tr1] show ?case by simp
qed

lemma sync_collection_skip:
  "\<not> eligible c \<Longrightarrow> sync_collection env existing c st = st"
  by (auto simp add: sync_collection_def eligible_def Let_def)

lemma sync_collection_step:
  assumes "eligible c"
  shows "sync_collection env existing c st =
     (let name = trim (c_name c) in
      case (case same_named existing name of
              None \<Rightarrow> (Returns '''', trace st)
            | Some e \<Rightarrow> host_do env (CallDeleteCollection (hc_id e)) (trace st)) of
        (Throws x, tr1) \<Rightarrow>
          st\<lparr>trace := tr1, failedCollections := failedCollections st @ [name]\<rparr>
      | (Returns u, tr1) \<Rightarrow>
         (case host_do env (CallCreateCollection name) tr1 of
            (Throws x, tr2) \<Rightarrow>
              st\<lparr>trace := tr2, failedCollections := failedCollections st @ [name]\<rparr>
          | (Returns createdId, tr2) \<Rightarrow>
             (case sync_rules env createdId (c_rules c) tr2 0 of
                (tr3, ruleCount) \<Rightarrow>
                  st\<lparr>trace := tr3,
                     totalCollectionsSynced := totalCollectionsSynced st + 1,
                     totalRulesSynced := totalRulesSynced st + ruleCount\<rparr>)))"
  using assms by (simp add: sync_collection_def eligible_def Let_def)

lemma create_and_fill_trace:
  "\<exists>rest. trace (create_and_fill env name rs tr1 st) = tr1 @ CallCreateCollection name # rest
          \<and> list_all is_rule_call rest"
proof (cases "host_reply env (length tr1)")
  case (Throws x)
  then show ?thesis by (simp add: create_and_fill_def host_do_def)
next
  case (Returns createdId)
  obtain tr3 n where sr: "sync_rules env createdId rs (tr1 @ [CallCreateCollection name]) 0 = (tr3, n)"
    by (cases "sync_rules env createdId rs (tr1 @ [CallCreateCollection name]) 0")
  from sync_rules_extends [of env createdId rs "tr1 @ [CallCreateCollection name]" 0] sr
  obtain rest where "tr3 = (tr1 @ [CallCreateCollection name]) @ rest" "list_all is_rule_call rest"
    by auto
  with Returns sr show ?thesis by (simp add: create_and_fill_def host_do_def)
qed

lemma sync_collection_found:
  assumes "eligible c" and "same_named existing (trim (c_name c)) = Some e"
  shows "sync_collection env existing c st =
     (case host_reply env (length (trace st)) of
        Throws x \<Rightarrow>
          st\<lparr>trace := trace st @ [CallDeleteCollection (hc_id e)],
             failedCollections := failedCollections st @ [trim (c_name c)]\<rparr>
      | Returns u \<Rightarrow>
          create_and_fill env (trim (c_name c)) (c_rules c)
            (trace st @ [CallDeleteCollection (hc_id e)]) st)"
  using assms(2)
  by (simp add: sync_collection_step [OF assms(1)] Let_def host_do_def create_and_fill_def
      split: call.splits)

lemma sync_collection_not_found:
  assumes "eligible c" and "same_named existing (trim (c_name c)) = None"
  shows "sync_collection env existing c st =
           create_and_fill env (trim (c_name c)) (c_rules c) (trace st) st"
  using assms(2)
  by (simp add: sync_collection_step [OF assms(1)] Let_def create_and_fill_def)

lemma rule_call_not_collection_call: "is_rule_call x \<Longrightarrow> \<not> is_collection_call x"
  by (cases x) simp_all

lemma filter_collection_calls_rule_calls:
  "list_all is_rule_call rest \<Longrightarrow> filter is_collection_call rest = []"
  by (induction rest) (simp_all add: rule_call_not_collection_call)

lemma delete_calls_same_named:
  "delete_calls existing c =
     (case same_named existing (trim (c_name c)) of
        None \<Rightarrow> []
      | Some e \<Rightarrow> [CallDeleteCollection (hc_id e)])"
  unfolding delete_calls_def same_named_def
  by (induction existing) simp_all

lemma filter_replace_calls:
  "filter is_collection_call (replace_calls existing c) = replace_calls existing c"
  by (simp add: replace_calls_def delete_calls_same_named split: option.splits)

lemma create_and_fill_cooperative:
  assumes "\<forall>n. returns (host_reply env n)"
  shows "\<exists>rest. create_and_fill env name rs tr1 st =
           st\<lparr>trace := tr1 @ CallCreateCollection name # rest,
              totalCollectionsSynced := totalCollectionsSynced st + 1,
              totalRulesSynced := totalRulesSynced st
                + length (filter (\<lambda>r. \<not> lacks_section_or_name r) rs)\<rparr>
         \<and> list_all is_rule_call rest"
proof -
  from assms have "returns (host_reply env (length tr1))" by simp
  then obtain createdId where r: "host_reply env (length tr1) = Returns createdId"
    by (cases "host_reply env (length tr1)") (simp_all add: returns_def)
  obtain tr3 n where sr: "sync_rules env createdId rs (tr1 @ [CallCreateCollection name]) 0 = (tr3, n)"
    by (cases "sync_rules env createdId rs (tr1 @ [CallCreateCollection name]) 0")
  from sync_rules_extends [of env createdId rs "tr1 @ [CallCreateCollection name]" 0] sr
  obtain rest where rest: "tr3 = (tr1 @ [CallCreateCollection name]) @ rest"
    "list_all is_rule_call rest"
    by auto
  from sync_rules_count_cooperative [OF assms, of createdId rs "tr1 @ [CallCreateCollection name]" 0] sr
  have "n = length (filter (\<lambda>r. \<not> lacks_section_or_name r) rs)" by simp
  with r sr rest show ?thesis
    by (intro exI [of _ rest]) (simp add: create_and_fill_def host_do_def)
qed

lemma sync_collection_cooperative:
  assumes "\<forall>n. returns (host_reply env n)" and "eligible c"
  shows "\<exists>rest. sync_collection env existing c st =
           st\<lparr>trace := trace st @ replace_calls existing c @ rest,
              totalCollectionsSynced := totalCollectionsSynced st + 1,
              totalRulesSynced := totalRulesSynced st
                + length (filter (\<lambda>r. \<not> lacks_section_or_name r) (c_rules c))\<rparr>
         \<and> list_all is_rule_call rest"
proof (cases "same_named existing (trim (c_name c))")
  case None
  with create_and_fill_cooperative [OF assms(1), of "trim (c_name c)" "c_rules c" "trace st" st]
  show ?thesis
    by (simp add: sync_collection_not_found [OF assms(2) None] replace_calls_def
        delete_calls_same_named)
next
  case (Some h)
  from assms(1) have "returns (host_reply env (length (trace st)))" by simp
  then obtain u where r: "host_reply env (length (trace st)) = Returns u"
    by (cases "host_reply env (length (trace st))") (simp_all add: returns_def)
  with Some
    create_and_fill_cooperative [OF assms(1), of "trim (c_name c)" "c_rules c"
      "trace st @ [CallDeleteCollection (hc_id h)]" st]
  show ?thesis
    by (simp add: sync_collection_found [OF assms(2) Some] replace_calls_def
        delete_calls_same_named)
qed

lemma sync_collection_collection_calls:
  assumes "\<forall>n. returns (host_reply env n)"
  shows "filter is_collection_call (trace (sync_collection env existing c st)) =
           filter is_collection_call (trace st)
           @ (if eligible c then replace_calls existing c else [])"
proof (cases "eligible c")
  case True
  from sync_collection_cooperative [OF assms True, of existing st] obtain rest where
    "trace (sync_collection env existing c st) = trace st @ replace_calls existing c @ rest"
    "list_all is_rule_call rest"
    by auto
  with True show ?thesis
    by (simp add: filter_replace_calls filter_collection_calls_rule_calls)
next
  case False
  then show ?thesis by (simp add: sync_collection_skip)
qed

lemma sync_collections_collection_calls:
  assumes "\<forall>n. returns (host_reply env n)"
  shows "filter is_collection_call (trace (sync_collections env existing cs st)) =
           filter is_collection_call (trace st)
           @ concat (map (replace_calls existing) (filter eligible cs))"
proof (induction cs arbitrary: st)
  case Nil
  then show ?case by simp
next
  case (Cons c cs)
  from Cons.IH [of "sync_collection env existing c st"]
    sync_collection_collection_calls [OF assms, of existing c st]
  show ?case by simp
qed

lemma switch_project_cooperative:
  "\<forall>n. returns (host_reply env n) \<Longrightarrow> snd (switch_project env cr ws) = None"
proof -
  assume "\<forall>n. returns (host_reply env n)"
  then have "returns (host_reply env 0)" by simp
  then obtain u where "host_reply env 0 = Returns u"
    by (cases "host_reply env 0") (simp_all add: returns_def)
  then show ?thesis
    by (simp add: switch_project_def host_do_def split: result.splits projects_api.splits)
qed

lemma onSyncToSelected_single:
  assumes coop: "cooperative env"
    and one: "collections st = [c]"
    and el: "eligible c"
    and ws: "selectedWorkspace st = Some w"
  shows "shown (onSyncToSelected env st) =
           (SyncedTo 1 (length (filter (\<lambda>r. \<not> lacks_section_or_name r) (c_rules c))) (w_name w),
            VariantSuccess)"
proof -
  from coop have hr: "\<forall>n. returns (host_reply env n)" by (simp add: cooperative_def)
  from coop obtain cr where cr: "getCurrentProject_reply env = Returns cr"
    by (cases "getCurrentProject_reply env") (simp_all add: cooperative_def returns_def)
  from coop obtain existing where ex: "existingCollections_reply env = Returns existing"
    by (cases "existingCollections_reply env") (simp_all add: cooperative_def returns_def)
  obtain tr0 where sw: "switch_project env cr w = (tr0, None)"
    using switch_project_cooperative [OF hr, of cr w] by (cases "switch_project env cr w") simp
  let ?init = "\<lparr>trace = tr0, totalCollectionsSynced = 0, totalRulesSynced = 0,
                failedCollections = []\<rparr>"
  from sync_collection_cooperative [OF hr el, of existing ?init] obtain rest where
    sc: "sync_collection env existing c ?init =
           ?init\<lparr>trace := trace ?init @ replace_calls existing c @ rest,
              totalCollectionsSynced := totalCollectionsSynced ?init + 1,
              totalRulesSynced := totalRulesSynced ?init
                + length (filter (\<lambda>r. \<not> lacks_section_or_name r) (c_rules c))\<rparr>"
    by blast
  from el have "c_rules c \<noteq> []" by (auto simp add: eligible_def)
  with one ws cr sw ex sc show ?thesis
    by (simp add: onSyncToSelected_def Let_def)
qed

lemma switch_project_collection_calls:
  "filter is_collection_call (fst (switch_project env cr ws)) = []"
  by (simp add: switch_project_def host_do_def
      split: result.splits projects_api.splits call.splits)

lemma onSyncToSelected_collection_calls:
  assumes coop: "cooperative env"
    and ex: "existingCollections_reply env = Returns existing"
    and ws: "selectedWorkspace st = Some w"
    and rules: "list_ex (\<lambda>c. length (c_rules c) > 0) (collections st)"
  shows "filter is_collection_call (calls (onSyncToSelected env st))
           = concat (map (replace_calls existing) (filter eligible (collections st)))"
proof -
  from coop have hr: "\<forall>n. returns (host_reply env n)" by (simp add: cooperative_def)
  from coop obtain cr where cr: "getCurrentProject_reply env = Returns cr"
    by (cases "getCurrentProject_reply env") (simp_all add: cooperative_def returns_def)
  obtain tr0 where sw: "switch_project env cr w = (tr0, None)"
    using switch_project_cooperative [OF hr, of cr w] by (cases "switch_project env cr w") simp
  from switch_project_collection_calls [of env cr w] sw
  have tr0: "filter is_collection_call tr0 = []" by simp
  from rules have ne: "collections st \<noteq> []" by (cases "collections st") simp_all
  have "calls (onSyncToSelected env st)
          = trace (sync_collections env existing (collections st)
                     \<lparr>trace = tr0, totalCollectionsSynced = 0, totalRulesSynced = 0,
                      failedCollections = []\<rparr>)"
    using ne rules ws cr sw ex by (simp add: onSyncToSelected_def Let_def)
  with sync_collections_collection_calls [OF hr, of existing "collections st"] tr0
  show ?thesis by simp
qed

lemma eligible_iff: "eligible c = (c_rules c \<noteq> [] \<and> trim (c_name c) \<noteq> [])"
  by (simp add: eligible_def)

lemma same_named_none:
  "\<forall>h \<in> set existing. hc_name h \<noteq> n \<Longrightarrow> same_named existing n = None"
  by (simp add: same_named_def find_None_iff)

lemma same_named_first:
  "hc_name e = n \<Longrightarrow> \<forall>h \<in> set earlier. hc_name h \<noteq> n \<Longrightarrow>
   same_named (earlier @ e # later) n = Some e"
  by (induction earlier) (simp_all add: same_named_def)

lemma filter_deleteCollection_rule_calls:
  "list_all is_rule_call rest \<Longrightarrow> filter is_deleteCollection rest = []"
proof (induction rest)
  case Nil
  then show ?case by simp
next
  case (Cons x rest)
  then show ?case by (cases x) simp_all
qed

lemma create_and_fill_delete_calls:
  "filter is_deleteCollection (trace (create_and_fill env name rs tr1 st))
     = filter is_deleteCollection tr1"
proof -
  from create_and_fill_trace [of env name rs tr1 st] obtain rest where
    "trace (create_and_fill env name rs tr1 st) = tr1 @ CallCreateCollection name # rest"
    "list_all is_rule_call rest"
    by blast
  then show ?thesis by (simp add: filter_deleteCollection_rule_calls)
qed

lemma sync_collection_delete_calls:
  "filter is_deleteCollection (trace (sync_collection env existing c st)) =
     filter is_deleteCollection (trace st)
     @ (if eligible c then delete_calls existing c else [])"
proof (cases "eligible c")
  case False
  then show ?thesis by (simp add: sync_collection_skip)
next
  case True
  show ?thesis
  proof (cases "same_named existing (trim (c_name c))")
    case None
    with True show ?thesis
      by (simp add: sync_collection_not_found [OF True None] create_and_fill_delete_calls
          delete_calls_same_named)
  next
    case (Some h)
    with True show ?thesis
      by (simp add: sync_collection_found [OF True Some] create_and_fill_delete_calls
          delete_calls_same_named split: call.splits)
  qed
qed

lemma sync_collections_delete_calls:
  "filter is_deleteCollection (trace (sync_collections env existing cs st)) =
     filter is_deleteCollection (trace st)
     @ concat (map (delete_calls existing) (filter eligible cs))"
proof (induction cs arbitrary: st)
  case Nil
  then show ?case by simp
next
  case (Cons c cs)
  from Cons.IH [of "sync_collection env existing c st"]
    sync_collection_delete_calls [of env existing c st]
  show ?case by simp
qed

lemma sync_collection_create_only:
  assumes "eligible c" and "\<forall>h \<in> set existing. hc_name h \<noteq> trim (c_name c)"
  shows "\<exists>rest. trace (sync_collection env existing c st)
                  = trace st @ CallCreateCollection (trim (c_name c)) # rest
                \<and> list_all is_rule_call rest"
  using create_and_fill_trace [of env "trim (c_name c)" "c_rules c" "trace st" st]
  by (simp add: sync_collection_not_found [OF assms(1) same_named_none [OF assms(2)]])

lemma sync_collection_delete_then_create:
  assumes "eligible c"
    and "existing = earlier @ e # later"
    and "hc_name e = trim (c_name c)"
    and "\<forall>h \<in> set earlier. hc_name h \<noteq> trim (c_name c)"
  shows "case host_reply env (length (trace st)) of
           Throws x \<Rightarrow>
             trace (sync_collection env existing c st)
               = trace st @ [CallDeleteCollection (hc_id e)]
         | Returns u \<Rightarrow>
             \<exists>rest. trace (sync_collection env existing c st)
                      = trace st @ CallDeleteCollection (hc_id e)
                          # CallCreateCollection (trim (c_name c)) # rest
                    \<and> list_all is_rule_call rest"
proof -
  from same_named_first [OF assms(3) assms(4), of later] assms(2)
  have found: "same_named existing (trim (c_name c)) = Some e" by simp
  show ?thesis
  proof (cases "host_reply env (length (trace st))")
    case (Throws x)
    then show ?thesis by (simp add: sync_collection_found [OF assms(1) found])
  next
    case (Returns u)
    with create_and_fill_trace [of env "trim (c_name c)" "c_rules c"
        "trace st @ [CallDeleteCollection (hc_id e)]" st]
    show ?thesis by (simp add: sync_collection_found [OF assms(1) found])
  qed
qed

text \<open>
  Claim C4. The step of the sync for one local collection, from any state of the sync and
  in every environment. A collection without rules, or whose name is empty once trimmed,
  changes nothing: no host call, no count, no failure. For a collection with a rule and
  a non-empty trimmed name: if no host collection fetched before the loop has a name
  equal to the trimmed local name, the creation of a collection of the trimmed name is
  requested, followed by rule calls only; otherwise the deletion of the first host
  collection whose name equals the trimmed local name is requested, and then, the
  deletion having returned, the creation of a collection of the trimmed name, followed
  by rule calls only (a deletion that throws ends the step for that collection). Over
  the whole loop, in every environment, the deletions requested are those of the first
  host collection of the trimmed name of each such local collection, in order; when
  every host call returns, the collection calls of the whole loop, and of
  \<open>onSyncToSelected\<close>, are the deletion, if any, and the creation for each such local
  collection, in order.
\<close>

theorem sync_collection_replaces_by_name:
  "(c_rules c = [] \<or> trim (c_name c) = [] \<longrightarrow> sync_collection env existing c st = st)
   \<and> (c_rules c \<noteq> [] \<and> trim (c_name c) \<noteq> []
        \<and> (\<forall>h \<in> set existing. hc_name h \<noteq> trim (c_name c)) \<longrightarrow>
        (\<exists>rest. trace (sync_collection env existing c st)
                  = trace st @ CallCreateCollection (trim (c_name c)) # rest
                \<and> list_all is_rule_call rest))
   \<and> (c_rules c \<noteq> [] \<and> trim (c_name c) \<noteq> []
        \<and> existing = earlier @ e # later \<and> hc_name e = trim (c_name c)
        \<and> (\<forall>h \<in> set earlier. hc_name h \<noteq> trim (c_name c)) \<longrightarrow>
        (case host_reply env (length (trace st)) of
           Throws x \<Rightarrow>
             trace (sync_collection env existing c st)
               = trace st @ [CallDeleteCollection (hc_id e)]
         | Returns u \<Rightarrow>
             \<exists>rest. trace (sync_collection env existing c st)
                      = trace st @ CallDeleteCollection (hc_id e)
                          # CallCreateCollection (trim (c_name c)) # rest
                    \<and> list_all is_rule_call rest))
   \<and> filter is_deleteCollection (trace (sync_collections env existing cs st))
       = filter is_deleteCollection (trace st)
         @ concat (map (delete_calls existing)
                     (filter (\<lambda>c. c_rules c \<noteq> [] \<and> trim (c_name c) \<noteq> []) cs))
   \<and> ((\<forall>n. returns (host_reply env n)) \<longrightarrow>
        filter is_collection_call (trace (sync_collections env existing cs st))
          = filter is_collection_call (trace st)
            @ concat (map (replace_calls existing)
                        (filter (\<lambda>c. c_rules c \<noteq> [] \<and> trim (c_name c) \<noteq> []) cs)))
   \<and> (cooperative env \<and> existingCollections_reply env = Returns existing
        \<and> selectedWorkspace store = Some w
        \<and> list_ex (\<lambda>c. length (c_rules c) > 0) (collections store) \<longrightarrow>
        filter is_collection_call (calls (onSyncToSelected env store))
          = concat (map (replace_calls existing)
                      (filter (\<lambda>c. c_rules c \<noteq> [] \<and> trim (c_name c) \<noteq> [])
                         (collections store))))"
proof -
  have el: "eligible = (\<lambda>c. c_rules c \<noteq> [] \<and> trim (c_name c) \<noteq> [])"
    by (rule ext) (simp add: eligible_iff)
  have a: "c_rules c = [] \<or> trim (c_name c) = [] \<longrightarrow> sync_collection env existing c st = st"
    using sync_collection_skip [of c env existing st] by (simp add: eligible_iff)
  have b: "c_rules c \<noteq> [] \<and> trim (c_name c) \<noteq> []
        \<and> (\<forall>h \<in> set existing. hc_name h \<noteq> trim (c_name c)) \<longrightarrow>
        (\<exists>rest. trace (sync_collection env existing c st)
                  = trace st @ CallCreateCollection (trim (c_name c)) # rest
                \<and> list_all is_rule_call rest)"
    using sync_collection_create_only [of c existing env st] by (simp add: eligible_iff)
  have c: "c_rules c \<noteq> [] \<and> trim (c_name c) \<noteq> []
        \<and> existing = earlier @ e # later \<and> hc_name e = trim (c_name c)
        \<and> (\<forall>h \<in> set earlier. hc_name h \<noteq> trim (c_name c)) \<longrightarrow>
        (case host_reply env (length (trace st)) of
           Throws x \<Rightarrow>
             trace (sync_collection env existing c st)
               = trace st @ [CallDeleteCollection (hc_id e)]
         | Returns u \<Rightarrow>
             \<exists>rest. trace (sync_collection env existing c st)
                      = trace st @ CallDeleteCollection (hc_id e)
                          # CallCreateCollection (trim (c_name c)) # rest
                    \<and> list_all is_rule_call rest)"
    using sync_collection_delete_then_create [of c existing earlier e later env st]
    by (simp add: eligible_iff)
  have d: "filter is_deleteCollection (trace (sync_collections env existing cs st))
       = filter is_deleteCollection (trace st)
         @ concat (map (delete_calls existing)
                     (filter (\<lambda>c. c_rules c \<noteq> [] \<and> trim (c_name c) \<noteq> []) cs))"
    using sync_collections_delete_calls [of env existing cs st] by (simp only: el)
  have e: "(\<forall>n. returns (host_reply env n)) \<longrightarrow>
        filter is_collection_call (trace (sync_collections env existing cs st))
          = filter is_collection_call (trace st)
            @ concat (map (replace_calls existing)
                        (filter (\<lambda>c. c_rules c \<noteq> [] \<and> trim (c_name c) \<noteq> []) cs))"
    using sync_collections_collection_calls [of env existing cs st] by (simp only: el) blast
  have f: "cooperative env \<and> existingCollections_reply env = Returns existing
        \<and> selectedWorkspace store = Some w
        \<and> list_ex (\<lambda>c. length (c_rules c) > 0) (collections store) \<longrightarrow>
        filter is_collection_call (calls (onSyncToSelected env store))
          = concat (map (replace_calls existing)
                      (filter (\<lambda>c. c_rules c \<noteq> [] \<and> trim (c_name c) \<noteq> [])
                         (collections store)))"
    using onSyncToSelected_collection_calls [of env existing store w] by (simp only: el) blast
  from a b c d e f show ?thesis by (intro conjI)
qed

theorem sync_collection_replaces_by_name_witness:
  "c_rules blank_named_collection \<noteq> [] \<and> trim (c_name blank_named_collection) = []
   \<and> sync_collection three_hosts_ok three_hosts blank_named_collection (initial_sync_state [])
       = initial_sync_state []
   \<and> c_rules (empty_collection ''c'' ''Global'') = []
   \<and> sync_collection three_hosts_ok three_hosts (empty_collection ''c'' ''Global'')
       (initial_sync_state []) = initial_sync_state []
   \<and> c_rules unmatched_collection \<noteq> [] \<and> trim (c_name unmatched_collection) = ''New''
   \<and> list_all (\<lambda>h. hc_name h \<noteq> ''New'') three_hosts
   \<and> (\<exists>rest. trace (sync_collection three_hosts_ok three_hosts unmatched_collection
                       (initial_sync_state []))
               = CallCreateCollection ''New'' # rest
             \<and> list_all is_rule_call rest)
   \<and> c_rules padded_collection \<noteq> [] \<and> trim (c_name padded_collection) = ''Global A''
   \<and> three_hosts = [\<lparr>hc_id = ''h0'', hc_name = ''Global'', hc_ruleIds = []\<rparr>]
                     @ \<lparr>hc_id = ''h1'', hc_name = ''Global A'', hc_ruleIds = []\<rparr>
                     # [\<lparr>hc_id = ''h2'', hc_name = ''Global A'', hc_ruleIds = []\<rparr>]
   \<and> host_reply three_hosts_ok (length (trace (initial_sync_state []))) = Returns ''h''
   \<and> (\<exists>rest. trace (sync_collection three_hosts_ok three_hosts padded_collection
                       (initial_sync_state []))
               = CallDeleteCollection ''h1'' # CallCreateCollection ''Global A'' # rest
             \<and> list_all is_rule_call rest)
   \<and> host_reply deletion_fails (length (trace (initial_sync_state [])))
       = Throws (ErrorObject ''forbidden'')
   \<and> trace (sync_collection deletion_fails three_hosts padded_collection (initial_sync_state []))
       = [CallDeleteCollection ''h1'']
   \<and> filter is_deleteCollection
       (trace (sync_collections deletion_fails three_hosts four_collections
                 (initial_sync_state [])))
       = [CallDeleteCollection ''h1'']
   \<and> cooperative three_hosts_ok
   \<and> filter is_collection_call
       (trace (sync_collections three_hosts_ok three_hosts four_collections
                 (initial_sync_state [])))
       = [CallDeleteCollection ''h1'', CallCreateCollection ''Global A'',
          CallCreateCollection ''New'']
   \<and> filter is_collection_call (calls (onSyncToSelected three_hosts_ok four_collection_store))
       = [CallDeleteCollection ''h1'', CallCreateCollection ''Global A'',
          CallCreateCollection ''New'']"
proof -
  let ?h0 = "\<lparr>hc_id = ''h0'', hc_name = ''Global'', hc_ruleIds = []\<rparr>"
  let ?h1 = "\<lparr>hc_id = ''h1'', hc_name = ''Global A'', hc_ruleIds = []\<rparr>"
  let ?h2 = "\<lparr>hc_id = ''h2'', hc_name = ''Global A'', hc_ruleIds = []\<rparr>"
  let ?w = "\<lparr>w_id = ''p1'', w_name = ''Project''\<rparr>"
  have t1: "trim ''   '' = []" and t2: "trim ''New'' = ''New''"
    and t3: "trim ''  Global A '' = ''Global A''" and t4: "trim ''Global'' = ''Global''"
    by (simp_all add: trim_def is_ws_def)
  have a: "c_rules blank_named_collection \<noteq> []" "trim (c_name blank_named_collection) = []"
    by (simp_all add: blank_named_collection_def five_rules_def t1)
  have b: "c_rules (empty_collection ''c'' ''Global'') = []"
    "trim (c_name (empty_collection ''c'' ''Global'')) = ''Global''"
    by (simp_all add: empty_collection_def t4)
  have c: "c_rules unmatched_collection \<noteq> []" "trim (c_name unmatched_collection) = ''New''"
    by (simp_all add: unmatched_collection_def t2)
  have d: "list_all (\<lambda>h. hc_name h \<noteq> ''New'') three_hosts"
    by (simp add: three_hosts_def)
  have e: "c_rules padded_collection \<noteq> []" "trim (c_name padded_collection) = ''Global A''"
    by (simp_all add: padded_collection_def five_rules_def t3)
  have f: "three_hosts = [?h0] @ ?h1 # [?h2]"
    by (simp add: three_hosts_def)
  have g: "host_reply three_hosts_ok (length (trace (initial_sync_state []))) = Returns ''h''"
    "host_reply deletion_fails (length (trace (initial_sync_state [])))
       = Throws (ErrorObject ''forbidden'')"
    by (simp_all add: three_hosts_ok_def deletion_fails_def)
  have h: "cooperative three_hosts_ok"
    "\<forall>n. returns (host_reply three_hosts_ok n)"
    "existingCollections_reply three_hosts_ok = Returns three_hosts"
    by (simp_all add: cooperative_def three_hosts_ok_def returns_def)
  have i: "selectedWorkspace four_collection_store = Some ?w"
    "collections four_collection_store = four_collections"
    by (simp_all add: four_collection_store_def store_of_def)
  have j: "list_ex (\<lambda>c. length (c_rules c) > 0) four_collections"
    by (simp add: four_collections_def padded_collection_def five_rules_def)
  have k: "filter (\<lambda>c. c_rules c \<noteq> [] \<and> trim (c_name c) \<noteq> []) four_collections
             = [padded_collection, unmatched_collection]"
    using a b c e by (simp add: four_collections_def)
  have l: "delete_calls three_hosts padded_collection = [CallDeleteCollection ''h1'']"
    "delete_calls three_hosts unmatched_collection = []"
    using c(2) e(2) by (simp_all add: delete_calls_def three_hosts_def)
  note skip1 = sync_collection_replaces_by_name
    [of blank_named_collection three_hosts_ok three_hosts "initial_sync_state []"
        "[?h0]" ?h1 "[?h2]" four_collections four_collection_store ?w]
  note skip2 = sync_collection_replaces_by_name
    [of "empty_collection ''c'' ''Global''" three_hosts_ok three_hosts "initial_sync_state []"
        "[?h0]" ?h1 "[?h2]" four_collections four_collection_store ?w]
  note fresh = sync_collection_replaces_by_name
    [of unmatched_collection three_hosts_ok three_hosts "initial_sync_state []"
        "[?h0]" ?h1 "[?h2]" four_collections four_collection_store ?w]
  note found = sync_collection_replaces_by_name
    [of padded_collection three_hosts_ok three_hosts "initial_sync_state []"
        "[?h0]" ?h1 "[?h2]" four_collections four_collection_store ?w]
  note thrown = sync_collection_replaces_by_name
    [of padded_collection deletion_fails three_hosts "initial_sync_state []"
        "[?h0]" ?h1 "[?h2]" four_collections four_collection_store ?w]
  have m: "sync_collection three_hosts_ok three_hosts blank_named_collection
             (initial_sync_state []) = initial_sync_state []"
    using skip1 a by simp
  have n: "sync_collection three_hosts_ok three_hosts (empty_collection ''c'' ''Global'')
             (initial_sync_state []) = initial_sync_state []"
    using skip2 b by simp
  have o: "\<exists>rest. trace (sync_collection three_hosts_ok three_hosts unmatched_collection
                       (initial_sync_state []))
               = CallCreateCollection ''New'' # rest
             \<and> list_all is_rule_call rest"
    using fresh c d by (simp add: initial_sync_state_def list_all_iff)
  have p: "\<exists>rest. trace (sync_collection three_hosts_ok three_hosts padded_collection
                       (initial_sync_state []))
               = CallDeleteCollection ''h1'' # CallCreateCollection ''Global A'' # rest
             \<and> list_all is_rule_call rest"
    using found e f g(1) by (simp add: initial_sync_state_def)
  have q: "trace (sync_collection deletion_fails three_hosts padded_collection
                    (initial_sync_state []))
             = [CallDeleteCollection ''h1'']"
    using thrown e f g(2) by (simp add: initial_sync_state_def)
  have r: "filter is_deleteCollection
       (trace (sync_collections deletion_fails three_hosts four_collections
                 (initial_sync_state [])))
       = [CallDeleteCollection ''h1'']"
    using thrown k l by (simp add: initial_sync_state_def)
  have s: "filter is_collection_call
       (trace (sync_collections three_hosts_ok three_hosts four_collections
                 (initial_sync_state [])))
       = [CallDeleteCollection ''h1'', CallCreateCollection ''Global A'',
          CallCreateCollection ''New'']"
    using found h(2) k l c(2) e(2) by (simp add: initial_sync_state_def replace_calls_def)
  have t: "filter is_collection_call (calls (onSyncToSelected three_hosts_ok four_collection_store))
       = [CallDeleteCollection ''h1'', CallCreateCollection ''Global A'',
          CallCreateCollection ''New'']"
    using found h(1,3) i j k l c(2) e(2) by (simp add: replace_calls_def)
  from a b(1) c d e f g h(1) m n o p q r s t show ?thesis by (intro conjI)
qed

text \<open>
  Claim C5. In the loop over the rules of a collection, a rule without section or name
  is skipped with no host call and no count. A rule is counted exactly when it has both
  and its \<open>createRule\<close> and its \<open>toggleRule\<close> return; a throwing call leaves it
  uncounted. Whatever throws, \<open>createRule\<close> is requested for every rule that has section
  and name, in order: the loop goes on to the remaining rules. For a store with one
  collection of five rules of which the third has no section and the others have section
  and name, a sync in which every call returns reports one collection and four rules.
\<close>

theorem sync_skips_rule_and_continues:
  "(lacks_section_or_name r \<longrightarrow> sync_rule env createdId r tr = (tr, False))
   \<and> snd (sync_rule env createdId r tr)
       = (\<not> lacks_section_or_name r \<and> returns (host_reply env (length tr))
          \<and> returns (host_reply env (Suc (length tr))))
   \<and> filter is_createRule (fst (sync_rules env createdId rs tr n))
       = filter is_createRule tr
         @ map (createRule_call createdId) (filter (\<lambda>r. \<not> lacks_section_or_name r) rs)
   \<and> (cooperative env \<and> collections st = [c] \<and> trim (c_name c) \<noteq> []
        \<and> selectedWorkspace st = Some w \<and> c_rules c = [r1, r2, r3, r4, r5]
        \<and> \<not> lacks_section_or_name r1 \<and> \<not> lacks_section_or_name r2 \<and> r_section r3 = []
        \<and> \<not> lacks_section_or_name r4 \<and> \<not> lacks_section_or_name r5
       \<longrightarrow> shown (onSyncToSelected env st) = (SyncedTo 1 4 (w_name w), VariantSuccess))"
proof -
  have batch: "shown (onSyncToSelected env st) = (SyncedTo 1 4 (w_name w), VariantSuccess)"
    if h: "cooperative env" "collections st = [c]" "trim (c_name c) \<noteq> []"
      "selectedWorkspace st = Some w" "c_rules c = [r1, r2, r3, r4, r5]"
      "\<not> lacks_section_or_name r1" "\<not> lacks_section_or_name r2" "r_section r3 = []"
      "\<not> lacks_section_or_name r4" "\<not> lacks_section_or_name r5"
  proof -
    from h(3,5) have el: "eligible c" by (simp add: eligible_def)
    from h(8) have "lacks_section_or_name r3" by (simp add: lacks_section_or_name_def)
    with h(5,6,7,9,10)
    have "length (filter (\<lambda>r. \<not> lacks_section_or_name r) (c_rules c)) = 4" by simp
    with onSyncToSelected_single [OF h(1) h(2) el h(4)] show ?thesis by simp
  qed
  from batch sync_rule_skip [of r env createdId tr] sync_rule_counted [of env createdId r tr]
    sync_rules_createRule_calls [of env createdId rs tr n]
  show ?thesis by blast
qed

theorem sync_skips_rule_and_continues_witness:
  "lacks_section_or_name (example_rule '''')
   \<and> sync_rule all_ok ''h'' (example_rule '''') [] = ([], False)
   \<and> cooperative all_ok
   \<and> collections five_rule_store = [five_rule_collection]
   \<and> trim (c_name five_rule_collection) \<noteq> []
   \<and> c_rules five_rule_collection = five_rules
   \<and> shown (onSyncToSelected all_ok five_rule_store)
       = (SyncedTo 1 4 ''Project'', VariantSuccess)"
proof -
  have a: "lacks_section_or_name (example_rule '''')"
    by (simp add: lacks_section_or_name_def example_rule_def)
  have b: "cooperative all_ok"
    by (simp add: cooperative_def all_ok_def returns_def)
  have c: "collections five_rule_store = [five_rule_collection]"
    and d: "selectedWorkspace five_rule_store = Some \<lparr>w_id = ''p1'', w_name = ''Project''\<rparr>"
    by (simp_all add: five_rule_store_def store_of_def five_rule_collection_def)
  have e: "trim (c_name five_rule_collection) \<noteq> []"
    by (simp add: five_rule_collection_def trim_def is_ws_def)
  have f: "c_rules five_rule_collection =
             [example_rule ''RequestHeader'', example_rule ''RequestBody'', example_rule '''',
              example_rule ''ResponseBody'', example_rule ''RequestPath'']"
    by (simp add: five_rule_collection_def five_rules_def)
  have g: "\<not> lacks_section_or_name (example_rule ''RequestHeader'')"
    "\<not> lacks_section_or_name (example_rule ''RequestBody'')"
    "r_section (example_rule '''') = []"
    "\<not> lacks_section_or_name (example_rule ''ResponseBody'')"
    "\<not> lacks_section_or_name (example_rule ''RequestPath'')"
    by (simp_all add: lacks_section_or_name_def example_rule_def)
  note inst = sync_skips_rule_and_continues
    [of "example_rule ''''" all_ok "''h''" "[]" "[]" 0 five_rule_store five_rule_collection
        "\<lparr>w_id = ''p1'', w_name = ''Project''\<rparr>"
        "example_rule ''RequestHeader''" "example_rule ''RequestBody''" "example_rule ''''"
        "example_rule ''ResponseBody''" "example_rule ''RequestPath''"]
  from inst a have h: "sync_rule all_ok ''h'' (example_rule '''') [] = ([], False)"
    by blast
  from inst b c d e f g
  have i: "shown (onSyncToSelected all_ok five_rule_store)
       = (SyncedTo 1 4 ''Project'', VariantSuccess)"
    by simp
  from a b c e f h i show ?thesis by (simp add: five_rules_def)
qed

end
